(* ===== verification/Sip_Prelude.thy ===== *)
theory Sip_Prelude
  imports Main "HOL-Library.Word" "HOL-Library.Char_ord" "HOL-Library.AList"
    "HOL-Library.Sublist" "HOL-Library.Multiset" "HOL-Library.List_Lexorder"
begin

text \<open>
  The Go fragment the components share. A Go string is a sequence of bytes, so it is a
  \<^typ>\<open>char list\<close> here (a \<^typ>\<open>char\<close> is one byte). The functions of package
  \<open>strings\<close>, \<open>strconv\<close> and \<open>net/url\<close> that the code calls are written out on byte
  lists, with the names of the Go functions. A Go pointer that may be nil is an option, a
  runtime panic is the left side of a sum, and a 64-bit \<open>int\<close> is an integer that every
  arithmetic operation brings back into range with \<open>wrap64\<close>.

  Bytes above 127 take part in every operation below except in the case mapping:
  \<open>ToLower\<close> and \<open>ToUpper\<close> map ASCII letters and leave all other bytes alone, where Go
  decodes UTF-8 and maps letters of other alphabets too.
\<close>

named_theorems go_str \<open>unfolding rules for the string operations\<close>
named_theorems go_panic \<open>rules that move a runtime panic through a computation\<close>

section \<open>Bytes\<close>

definition byte_val :: "char \<Rightarrow> nat" where
  "byte_val c = of_char c"

definition byte_of :: "nat \<Rightarrow> char" where
  "byte_of n = char_of n"

definition is_lower :: "char \<Rightarrow> bool" where
  "is_lower c \<longleftrightarrow> 97 \<le> byte_val c \<and> byte_val c \<le> 122"

definition is_upper :: "char \<Rightarrow> bool" where
  "is_upper c \<longleftrightarrow> 65 \<le> byte_val c \<and> byte_val c \<le> 90"

definition is_digit :: "char \<Rightarrow> bool" where
  "is_digit c \<longleftrightarrow> 48 \<le> byte_val c \<and> byte_val c \<le> 57"

definition is_alnum :: "char \<Rightarrow> bool" where
  "is_alnum c \<longleftrightarrow> is_lower c \<or> is_upper c \<or> is_digit c"

lemma byte_val_less [simp]: "byte_val c < 256"
  unfolding byte_val_def by (rule nat_of_char_less_256)

lemma byte_of_val [simp]: "byte_of (byte_val c) = c"
  by (simp add: byte_of_def byte_val_def)

lemma byte_val_of [simp]: "byte_val (byte_of n) = n mod 256"
  by (simp add: byte_of_def byte_val_def)

lemma byte_val_inject: "byte_val c = byte_val d \<longleftrightarrow> c = d"
  by (metis byte_of_val)

lemma byte_val_char [simp]:
  "byte_val (CHR ''%'') = 37" "byte_val (CHR ''+'') = 43" "byte_val (CHR '' '') = 32"
  "byte_val (CHR ''-'') = 45" "byte_val (CHR '':'') = 58" "byte_val (CHR ''0'') = 48"
  "byte_val (CHR ''.'') = 46" "byte_val (CHR ''/'') = 47" "byte_val (CHR '';'') = 59"
  by (simp_all add: byte_val_def)

definition ascii_lower :: "char \<Rightarrow> char" where
  "ascii_lower c = (if is_upper c then byte_of (byte_val c + 32) else c)"

definition ascii_upper :: "char \<Rightarrow> char" where
  "ascii_upper c = (if is_lower c then byte_of (byte_val c - 32) else c)"

definition ToLower :: "string \<Rightarrow> string" where
  "ToLower s = map ascii_lower s"

definition ToUpper :: "string \<Rightarrow> string" where
  "ToUpper s = map ascii_upper s"

lemma ascii_lower_not_upper [simp]: "\<not> is_upper (ascii_lower c)"
  by (auto simp: ascii_lower_def is_upper_def)

lemma ascii_lower_id [simp]: "\<not> is_upper c \<Longrightarrow> ascii_lower c = c"
  by (simp add: ascii_lower_def)

lemma ascii_lower_idem [simp]: "ascii_lower (ascii_lower c) = ascii_lower c"
  by simp

lemma ToLower_idem [simp]: "ToLower (ToLower s) = ToLower s"
  by (simp add: ToLower_def)

lemma length_ToLower [simp]: "length (ToLower s) = length s"
  by (simp add: ToLower_def)

section \<open>Package strings\<close>

text \<open>\<open>IndexByte\<close> and \<open>LastIndexByte\<close>: Go returns -1 where the model returns None.\<close>

fun IndexByte :: "string \<Rightarrow> char \<Rightarrow> nat option" where
  "IndexByte [] c = None"
| "IndexByte (x # xs) c = (if x = c then Some 0 else map_option Suc (IndexByte xs c))"

fun LastIndexByte :: "string \<Rightarrow> char \<Rightarrow> nat option" where
  "LastIndexByte [] c = None"
| "LastIndexByte (x # xs) c =
     (case LastIndexByte xs c of Some i \<Rightarrow> Some (Suc i)
      | None \<Rightarrow> (if x = c then Some 0 else None))"

definition HasPrefix :: "string \<Rightarrow> string \<Rightarrow> bool" where
  "HasPrefix s p \<longleftrightarrow> take (length p) s = p"

definition HasSuffix :: "string \<Rightarrow> string \<Rightarrow> bool" where
  "HasSuffix s p \<longleftrightarrow> length p \<le> length s \<and> drop (length s - length p) s = p"

fun IndexStr :: "string \<Rightarrow> string \<Rightarrow> nat option" where
  "IndexStr [] p = (if p = [] then Some 0 else None)"
| "IndexStr (x # xs) p =
     (if HasPrefix (x # xs) p then Some 0 else map_option Suc (IndexStr xs p))"

definition CountByte :: "string \<Rightarrow> char \<Rightarrow> nat" where
  "CountByte s c = length (filter (\<lambda>x. x = c) s)"

definition TrimLeft :: "string \<Rightarrow> string \<Rightarrow> string" where
  "TrimLeft s cs = dropWhile (\<lambda>c. c \<in> set cs) s"

definition TrimRight :: "string \<Rightarrow> string \<Rightarrow> string" where
  "TrimRight s cs = rev (dropWhile (\<lambda>c. c \<in> set cs) (rev s))"

definition Trim :: "string \<Rightarrow> string \<Rightarrow> string" where
  "Trim s cs = TrimRight (TrimLeft s cs) cs"

text \<open>\<open>SplitN s sep n\<close> for \<open>n > 0\<close>: at most \<open>n\<close> pieces, the last one unsplit.\<close>

fun SplitN :: "string \<Rightarrow> char \<Rightarrow> nat \<Rightarrow> string list" where
  "SplitN s c 0 = []"
| "SplitN s c (Suc 0) = [s]"
| "SplitN s c (Suc (Suc n)) =
     (case IndexByte s c of None \<Rightarrow> [s]
      | Some i \<Rightarrow> take i s # SplitN (drop (Suc i) s) c (Suc n))"

text \<open>\<open>Split s sep\<close> and \<open>Join\<close>, for a separator of one byte.\<close>

fun Split :: "string \<Rightarrow> char \<Rightarrow> string list" where
  "Split [] c = [[]]"
| "Split (x # xs) c =
     (if x = c then [] # Split xs c
      else (case Split xs c of [] \<Rightarrow> [[x]] | y # ys \<Rightarrow> (x # y) # ys))"

fun Join :: "string list \<Rightarrow> string \<Rightarrow> string" where
  "Join [] sep = []"
| "Join [x] sep = x"
| "Join (x # y # ys) sep = x @ sep @ Join (y # ys) sep"

lemma Split_nonempty [simp]: "Split s c \<noteq> []"
  by (induction s) (auto split: list.splits)

lemma Split_segment: "x \<in> set (Split s c) \<Longrightarrow> c \<notin> set x"
proof (induction s arbitrary: x)
  case (Cons a s)
  then show ?case by (cases "Split s c") (auto split: if_splits)
qed simp

lemma Split_absent: "c \<notin> set x \<Longrightarrow> Split x c = [x]"
  by (induction x) auto

lemma Split_append: "c \<notin> set x \<Longrightarrow> Split (x @ c # s) c = x # Split s c"
  by (induction x) auto

lemma Split_Join: "xs \<noteq> [] \<Longrightarrow> \<forall>x \<in> set xs. c \<notin> set x \<Longrightarrow> Split (Join xs [c]) c = xs"
  by (induction xs "[c]" rule: Join.induct) (auto simp: Split_absent Split_append)

lemma IndexByte_None: "IndexByte s c = None \<longleftrightarrow> c \<notin> set s"
  by (induction s) auto

lemma IndexByte_absent [simp]: "c \<notin> set s \<Longrightarrow> IndexByte s c = None"
  by (simp add: IndexByte_None)

lemma IndexByte_SomeD:
  "IndexByte s c = Some i \<Longrightarrow> i < length s \<and> s ! i = c \<and> c \<notin> set (take i s)"
proof (induction s arbitrary: i)
  case Nil
  then show ?case by simp
next
  case (Cons x xs)
  then show ?case by (cases "x = c") (auto split: option.splits)
qed

lemma IndexByte_split:
  "IndexByte s c = Some i \<Longrightarrow> s = take i s @ c # drop (Suc i) s"
  by (metis IndexByte_SomeD id_take_nth_drop)

lemma IndexByte_append [simp]: "c \<notin> set a \<Longrightarrow> IndexByte (a @ c # b) c = Some (length a)"
  by (induction a) auto

lemma IndexByte_append_left [simp]:
  "c \<notin> set a \<Longrightarrow> IndexByte (a @ b) c = map_option ((+) (length a)) (IndexByte b c)"
  by (induction a) (auto simp: option.map_comp comp_def map_option_case split: option.splits)

lemma LastIndexByte_None: "LastIndexByte s c = None \<longleftrightarrow> c \<notin> set s"
  by (induction s) (auto split: option.splits)

lemma LastIndexByte_absent [simp]: "c \<notin> set s \<Longrightarrow> LastIndexByte s c = None"
  by (simp add: LastIndexByte_None)

lemma LastIndexByte_append [simp]:
  "c \<notin> set b \<Longrightarrow> LastIndexByte (a @ c # b) c = Some (length a)"
  by (induction a) (auto split: option.splits)

lemma LastIndexByte_SomeD:
  "LastIndexByte s c = Some i \<Longrightarrow>
     i < length s \<and> s ! i = c \<and> c \<notin> set (drop (Suc i) s)"
proof (induction s arbitrary: i)
  case Nil
  then show ?case by simp
next
  case (Cons x xs)
  then show ?case by (auto simp: LastIndexByte_None split: option.splits if_splits)
qed

lemma HasPrefix_iff: "HasPrefix s p \<longleftrightarrow> (\<exists>t. s = p @ t)"
  unfolding HasPrefix_def by (metis append_eq_conv_conj)

lemma HasPrefix_append [simp]: "HasPrefix (p @ t) p"
  by (simp add: HasPrefix_def)

lemma CountByte_0 [simp]: "CountByte s c = 0 \<longleftrightarrow> c \<notin> set s"
  by (auto simp: CountByte_def filter_empty_conv)

lemma CountByte_append [simp]: "CountByte (a @ b) c = CountByte a c + CountByte b c"
  by (simp add: CountByte_def)

lemma CountByte_Cons [simp]: "CountByte (x # s) c = (if x = c then Suc (CountByte s c) else CountByte s c)"
  by (simp add: CountByte_def)

lemma HasPrefix_single [simp]: "HasPrefix s [c] \<longleftrightarrow> s \<noteq> [] \<and> hd s = c"
  by (cases s) (auto simp: HasPrefix_def)

lemma set_TrimLeft: "set (TrimLeft s cs) \<subseteq> set s"
  unfolding TrimLeft_def by (rule set_dropWhileD [THEN subsetI])

lemma length_TrimLeft: "length (TrimLeft s cs) \<le> length s"
  by (simp add: TrimLeft_def length_dropWhile_le)

lemma length_TrimRight: "length (TrimRight s cs) \<le> length s"
  by (metis TrimRight_def length_dropWhile_le length_rev)

lemma length_Trim: "length (Trim s cs) \<le> length s"
  unfolding Trim_def using length_TrimLeft length_TrimRight le_trans by blast

lemma Trim_id:
  "s = [] \<or> hd s \<notin> set cs \<and> last s \<notin> set cs \<Longrightarrow> Trim s cs = s"
proof (cases s rule: rev_cases)
  case (snoc ys y)
  assume "s = [] \<or> hd s \<notin> set cs \<and> last s \<notin> set cs"
  with snoc have "dropWhile (\<lambda>c. c \<in> set cs) s = s" "y \<notin> set cs"
    by (auto simp: neq_Nil_conv dropWhile_eq_self_iff)
  with snoc show ?thesis by (simp add: Trim_def TrimLeft_def TrimRight_def)
qed (simp add: Trim_def TrimLeft_def TrimRight_def)

lemma Trim_disjoint [simp]: "set s \<inter> set cs = {} \<Longrightarrow> Trim s cs = s"
  by (rule Trim_id) (metis disjoint_iff last_in_set list.set_sel(1))

section \<open>Package strconv\<close>

text \<open>
  \<open>ParseInt s 10 64\<close> and \<open>Atoi s\<close> on a 64-bit platform: an optional sign, at least one
  decimal digit, nothing else, and the value within range. None is the returned error.
\<close>

definition in_int64 :: "int \<Rightarrow> bool" where
  "in_int64 x \<longleftrightarrow> - (2 ^ 63) \<le> x \<and> x < 2 ^ 63"

definition wrap64 :: "int \<Rightarrow> int" where
  "wrap64 x = sint (word_of_int x :: 64 word)"

lemma wrap64_id [simp]: "in_int64 x \<Longrightarrow> wrap64 x = x"
  unfolding wrap64_def in_int64_def
  by (simp add: sint_sbintrunc' signed_take_bit_int_eq_self)

lemma wrap64_range: "in_int64 (wrap64 x)"
  unfolding wrap64_def in_int64_def
  using sint_greater_eq [of "word_of_int x :: 64 word"] sint_less [of "word_of_int x :: 64 word"]
  by simp

definition digit_val :: "char \<Rightarrow> int" where
  "digit_val c = int (byte_val c) - 48"

definition dec_value :: "string \<Rightarrow> int" where
  "dec_value s = foldl (\<lambda>a c. 10 * a + digit_val c) 0 s"

definition ParseInt :: "string \<Rightarrow> int option" where
  "ParseInt s =
     (let (neg, ds) =
        (case s of [] \<Rightarrow> (False, [])
         | c # cs \<Rightarrow> (if c = CHR ''-'' then (True, cs)
                     else if c = CHR ''+'' then (False, cs) else (False, c # cs)));
        v = (if neg then - dec_value ds else dec_value ds)
      in if ds \<noteq> [] \<and> (\<forall>c \<in> set ds. is_digit c) \<and> in_int64 v then Some v else None)"

abbreviation (input) Atoi :: "string \<Rightarrow> int option" where
  "Atoi \<equiv> ParseInt"

fun dec_digits :: "nat \<Rightarrow> string" where
  "dec_digits n =
     (if n < 10 then [byte_of (48 + n)] else dec_digits (n div 10) @ [byte_of (48 + n mod 10)])"

declare dec_digits.simps [simp del]

text \<open>\<open>FormatInt n 10\<close>, \<open>Itoa n\<close> and the verb \<open>%d\<close>.\<close>

definition Itoa :: "int \<Rightarrow> string" where
  "Itoa n = (if n < 0 then CHR ''-'' # dec_digits (nat (- n)) else dec_digits (nat n))"

lemma dec_digits_digit: "\<forall>c \<in> set (dec_digits n). is_digit c"
proof (induction n rule: dec_digits.induct)
  case (1 n)
  show ?case
  proof (cases "n < 10")
    case True
    then show ?thesis by (subst dec_digits.simps) (simp add: is_digit_def)
  next
    case False
    have "n mod 10 \<le> 9" by simp
    with 1 False show ?thesis by (subst dec_digits.simps) (auto simp: is_digit_def)
  qed
qed

lemma dec_digits_nonempty [simp]: "dec_digits n \<noteq> []"
  by (subst dec_digits.simps) simp

lemma dec_value_snoc: "dec_value (s @ [c]) = 10 * dec_value s + digit_val c"
  by (simp add: dec_value_def)

lemma dec_value_dec_digits [simp]: "dec_value (dec_digits n) = int n"
proof (induction n rule: dec_digits.induct)
  case (1 n)
  show ?case
  proof (cases "n < 10")
    case True
    then show ?thesis
      by (subst dec_digits.simps) (simp add: dec_value_def digit_val_def)
  next
    case False
    have "n mod 10 < 256" by (rule le_less_trans [of _ 9]) auto
    then have "digit_val (byte_of (48 + n mod 10)) = int (n mod 10)"
      by (simp add: digit_val_def)
    moreover have "10 * int (n div 10) + int (n mod 10) = int n"
      by presburger
    ultimately show ?thesis
      using 1 False by (subst dec_digits.simps) (simp add: dec_value_snoc)
  qed
qed

lemma is_digit_not_sign: "is_digit c \<Longrightarrow> c \<noteq> CHR ''-'' \<and> c \<noteq> CHR ''+''"
  by (auto simp: is_digit_def)

lemma ParseInt_digits:
  assumes "ds \<noteq> []" "\<forall>c \<in> set ds. is_digit c" "in_int64 (dec_value ds)"
  shows "ParseInt ds = Some (dec_value ds)"
  using assms is_digit_not_sign [of "hd ds"]
  by (cases ds) (auto simp: ParseInt_def)

theorem ParseInt_Itoa: "in_int64 n \<Longrightarrow> ParseInt (Itoa n) = Some n"
proof (cases "n < 0")
  case True
  assume "in_int64 n"
  with True show ?thesis
    using dec_digits_digit by (simp add: ParseInt_def Itoa_def)
next
  case False
  assume "in_int64 n"
  with False show ?thesis
    using ParseInt_digits [of "dec_digits (nat n)"] dec_digits_digit by (simp add: Itoa_def)
qed

lemma ParseInt_range: "ParseInt s = Some n \<Longrightarrow> in_int64 n"
  by (auto simp: ParseInt_def Let_def split: if_splits list.splits)

section \<open>Runtime panics\<close>

datatype panic = IndexOutOfRange | SliceOutOfRange | NilDereference | NilParentContext
  | CloseOfNilChannel | CloseOfClosedChannel | SendOnClosedChannel
  | NilTypeAssertion | NilMapAssignment

type_synonym 'a run = "panic + 'a"

definition bindR :: "'e + 'a \<Rightarrow> ('a \<Rightarrow> 'e + 'b) \<Rightarrow> 'e + 'b" where
  "bindR m f = (case m of Inl e \<Rightarrow> Inl e | Inr x \<Rightarrow> f x)"

lemma bindR_simps [simp, go_panic]:
  "bindR (Inl e) f = Inl e" "bindR (Inr x) f = f x"
  by (simp_all add: bindR_def)

lemma bindR_assoc: "bindR (bindR m f) g = bindR m (\<lambda>x. bindR (f x) g)"
  by (cases m) auto

lemma bindR_InrE [elim!]:
  assumes "bindR m f = Inr y" obtains x where "m = Inr x" "f x = Inr y"
  using assms by (cases m) auto

text \<open>Dereference of a pointer, indexing into a slice, and the slice expression \<open>s[i:j]\<close>.\<close>

definition deref :: "'a option \<Rightarrow> 'a run" where
  "deref p = (case p of None \<Rightarrow> Inl NilDereference | Some x \<Rightarrow> Inr x)"

definition index_at :: "'a list \<Rightarrow> nat \<Rightarrow> 'a run" where
  "index_at xs i = (if i < length xs then Inr (xs ! i) else Inl IndexOutOfRange)"

definition slice :: "'a list \<Rightarrow> nat \<Rightarrow> nat \<Rightarrow> 'a list run" where
  "slice xs i j = (if i \<le> j \<and> j \<le> length xs then Inr (drop i (take j xs)) else Inl SliceOutOfRange)"

text \<open>
  \<open>fmt\<close> with the verb \<open>%s\<close> and a \<open>String\<close> method: a panic of the method on a non-nil
  receiver is caught and becomes part of the text.
\<close>

definition fmt_Stringer :: "string run \<Rightarrow> string" where
  "fmt_Stringer r =
     (case r of Inr s \<Rightarrow> s
      | Inl NilDereference \<Rightarrow> ''%!s(PANIC=String method: runtime error: ''
          @ ''invalid memory address or nil pointer dereference)''
      | Inl _ \<Rightarrow> ''%!s(PANIC=String method: runtime error)'')"

lemma fmt_Stringer_ok [simp]: "fmt_Stringer (Inr s) = s"
  by (simp add: fmt_Stringer_def)

lemma deref_simps [simp, go_panic]:
  "deref None = Inl NilDereference" "deref (Some x) = Inr x"
  by (simp_all add: deref_def)

lemma index_at_Cons [simp, go_panic]:
  "index_at (x # xs) 0 = Inr x" "index_at (x # xs) (Suc i) = index_at xs i"
  "index_at [] i = Inl IndexOutOfRange"
  by (simp_all add: index_at_def)

section \<open>Maps from strings to string lists\<close>

text \<open>
  \<open>url.Values\<close> and \<open>http.Header\<close> are Go maps. An association list with distinct keys
  stands for the map together with the order in which Go happens to iterate over it.
\<close>

type_synonym kvs = "(string \<times> string list) list"

definition kv_values :: "kvs \<Rightarrow> string \<Rightarrow> string list" where
  "kv_values m k = (case map_of m k of None \<Rightarrow> [] | Some vs \<Rightarrow> vs)"

definition kv_get :: "kvs \<Rightarrow> string \<Rightarrow> string" where
  "kv_get m k = (case kv_values m k of [] \<Rightarrow> [] | v # _ \<Rightarrow> v)"

definition kv_set :: "kvs \<Rightarrow> string \<Rightarrow> string \<Rightarrow> kvs" where
  "kv_set m k v = AList.update k [v] m"

definition kv_add :: "kvs \<Rightarrow> string \<Rightarrow> string \<Rightarrow> kvs" where
  "kv_add m k v = AList.update k (kv_values m k @ [v]) m"

definition kv_del :: "kvs \<Rightarrow> string \<Rightarrow> kvs" where
  "kv_del m k = AList.delete k m"

definition kv_wf :: "kvs \<Rightarrow> bool" where
  "kv_wf m \<longleftrightarrow> distinct (map fst m)"

lemma kv_values_set [simp]:
  "kv_values (kv_set m k v) k' = (if k' = k then [v] else kv_values m k')"
  by (simp add: kv_values_def kv_set_def update_conv)

lemma kv_values_add [simp]:
  "kv_values (kv_add m k v) k' = (if k' = k then kv_values m k @ [v] else kv_values m k')"
  by (simp add: kv_values_def kv_add_def update_conv)

lemma kv_values_del [simp]:
  "kv_values (kv_del m k) k' = (if k' = k then [] else kv_values m k')"
  by (simp add: kv_values_def kv_del_def delete_conv)

lemma kv_wf_ops [simp]:
  "kv_wf []" "kv_wf m \<Longrightarrow> kv_wf (kv_set m k v)" "kv_wf m \<Longrightarrow> kv_wf (kv_add m k v)"
  "kv_wf m \<Longrightarrow> kv_wf (kv_del m k)"
  by (simp_all add: kv_wf_def kv_set_def kv_add_def kv_del_def distinct_update distinct_delete)

end
