(* ===== verification/Escape.thy ===== *)
theory Escape
  imports Sip_Prelude
begin

text \<open>
  Percent-encoding, the first half of \<open>src/sip/uri.go\<close>: which bytes must be escaped in
  which part of a URI (\<open>shouldEscape\<close>), the two passes of \<open>unescape\<close> (a checking pass
  that also counts, then a building pass) and the three ways \<open>escape\<close> takes through its
  counters. The lemmas show that the optimised \<open>escape\<close> is the byte-wise encoding, that
  \<open>unescape\<close> inverts it, and what the host and zone modes refuse.
\<close>

unbundle bit_operations_syntax

section \<open>Hexadecimal digits\<close>

definition upperhex :: string where
  "upperhex = ''0123456789ABCDEF''"

definition ishex :: "char \<Rightarrow> bool" where
  "ishex c \<longleftrightarrow> 48 \<le> byte_val c \<and> byte_val c \<le> 57 \<or> 97 \<le> byte_val c \<and> byte_val c \<le> 102
      \<or> 65 \<le> byte_val c \<and> byte_val c \<le> 70"

definition unhex :: "char \<Rightarrow> nat" where
  "unhex c =
     (if 48 \<le> byte_val c \<and> byte_val c \<le> 57 then byte_val c - 48
      else if 97 \<le> byte_val c \<and> byte_val c \<le> 102 then byte_val c - 97 + 10
      else if 65 \<le> byte_val c \<and> byte_val c \<le> 70 then byte_val c - 65 + 10
      else 0)"

text \<open>The byte \<open>unhex(a)<<4 | unhex(b)\<close>.\<close>

definition hexbyte :: "char \<Rightarrow> char \<Rightarrow> char" where
  "hexbyte a b = byte_of (push_bit 4 (unhex a) OR unhex b)"

section \<open>Modes and the bytes they escape\<close>

datatype encoding =
    encodePath
  | encodePathSegment
  | encodeHost
  | encodeZone
  | encodeUserPassword
  | encodeQueryComponent
  | encodeFragment

definition host_chars :: string where
  "host_chars = ''!$&'' @ [CHR 0x27] @ ''()*+,;=:[]<>'' @ [CHR 0x22]"

definition reserved_chars :: string where
  "reserved_chars = ''$&+,/:;=?@''"

definition shouldEscape :: "char \<Rightarrow> encoding \<Rightarrow> bool" where
  "shouldEscape c mode =
     (if is_alnum c then False
      else if (mode = encodeHost \<or> mode = encodeZone) \<and> c \<in> set host_chars then False
      else if c \<in> set ''-_.~'' then False
      else if c \<in> set reserved_chars \<and> mode = encodePath then c = CHR ''?''
      else if c \<in> set reserved_chars \<and> mode = encodePathSegment then c \<in> set ''/;,?''
      else if c \<in> set reserved_chars \<and> mode = encodeUserPassword then c \<in> set ''@/?:''
      else if c \<in> set reserved_chars \<and> mode = encodeQueryComponent then True
      else if c \<in> set reserved_chars \<and> mode = encodeFragment then False
      else if mode = encodeFragment \<and> c \<in> set ''!()*'' then False
      else True)"

section \<open>Unescaping\<close>

datatype uri_error =
    EscapeError string
  | InvalidHostError string
  | ControlCharacter
  | EmptyUri
  | MissingScheme
  | MissingBracket
  | InvalidPort string
  | InvalidUserinfo
  | UriError string string uri_error

text \<open>The first loop: it checks every escape, counts them and looks for a plus sign.\<close>

fun unescape_check :: "encoding \<Rightarrow> string \<Rightarrow> nat \<Rightarrow> bool \<Rightarrow> uri_error + nat \<times> bool" where
  "unescape_check mode [] n hasPlus = Inr (n, hasPlus)"
| "unescape_check mode (c # s) n hasPlus =
     (if c = CHR ''%'' then
        (case s of
           a # b # rest \<Rightarrow>
             (if \<not> ishex a \<or> \<not> ishex b then Inl (EscapeError (take 3 (c # s)))
              else if mode = encodeHost \<and> unhex a < 8 \<and> [c, a, b] \<noteq> ''%25''
              then Inl (EscapeError [c, a, b])
              else if mode = encodeZone \<and> [c, a, b] \<noteq> ''%25'' \<and> hexbyte a b \<noteq> CHR '' ''
                \<and> shouldEscape (hexbyte a b) encodeHost
              then Inl (EscapeError [c, a, b])
              else unescape_check mode rest (Suc n) hasPlus)
         | _ \<Rightarrow> Inl (EscapeError (take 3 (c # s))))
      else if c = CHR ''+'' then unescape_check mode s n (mode = encodeQueryComponent)
      else if (mode = encodeHost \<or> mode = encodeZone) \<and> byte_val c < 128 \<and> shouldEscape c mode
      then Inl (InvalidHostError [c])
      else unescape_check mode s n hasPlus)"

text \<open>
  The second loop, which runs only on input the first one accepted, so that two bytes
  follow every percent sign; the last equation is not reached from \<open>unescape\<close>.
\<close>

fun unescape_build :: "encoding \<Rightarrow> string \<Rightarrow> string" where
  "unescape_build mode [] = []"
| "unescape_build mode (c # s) =
     (if c = CHR ''%'' then
        (case s of a # b # rest \<Rightarrow> hexbyte a b # unescape_build mode rest | _ \<Rightarrow> [])
      else if c = CHR ''+'' then
        (if mode = encodeQueryComponent then CHR '' '' else CHR ''+'') # unescape_build mode s
      else c # unescape_build mode s)"

definition unescape :: "string \<Rightarrow> encoding \<Rightarrow> uri_error + string" where
  "unescape s mode =
     (case unescape_check mode s 0 False of
        Inl e \<Rightarrow> Inl e
      | Inr (n, hasPlus) \<Rightarrow>
          (if n = 0 \<and> \<not> hasPlus then Inr s else Inr (unescape_build mode s)))"

definition QueryUnescape :: "string \<Rightarrow> uri_error + string" where
  "QueryUnescape s = unescape s encodeQueryComponent"

definition PathUnescape :: "string \<Rightarrow> uri_error + string" where
  "PathUnescape s = unescape s encodePathSegment"

section \<open>Escaping\<close>

text \<open>The counting loop of \<open>escape\<close>: spaces that become a plus, and bytes that become \<open>%XX\<close>.\<close>

fun escape_count :: "encoding \<Rightarrow> string \<Rightarrow> nat \<times> nat" where
  "escape_count mode [] = (0, 0)"
| "escape_count mode (c # s) =
     (let (sp, hx) = escape_count mode s in
      if shouldEscape c mode then
        (if c = CHR '' '' \<and> mode = encodeQueryComponent then (Suc sp, hx) else (sp, Suc hx))
      else (sp, hx))"

fun escape_loop :: "encoding \<Rightarrow> string \<Rightarrow> string" where
  "escape_loop mode [] = []"
| "escape_loop mode (c # s) =
     (if c = CHR '' '' \<and> mode = encodeQueryComponent then CHR ''+'' # escape_loop mode s
      else if shouldEscape c mode then
        CHR ''%'' # upperhex ! (drop_bit 4 (byte_val c)) # upperhex ! (byte_val c AND 15)
          # escape_loop mode s
      else c # escape_loop mode s)"

definition escape :: "string \<Rightarrow> encoding \<Rightarrow> string" where
  "escape s mode =
     (let (spaceCount, hexCount) = escape_count mode s in
      if spaceCount = 0 \<and> hexCount = 0 then s
      else if hexCount = 0 then map (\<lambda>c. if c = CHR '' '' then CHR ''+'' else c) s
      else escape_loop mode s)"

definition QueryEscape :: "string \<Rightarrow> string" where
  "QueryEscape s = escape s encodeQueryComponent"

definition PathEscape :: "string \<Rightarrow> string" where
  "PathEscape s = escape s encodePathSegment"

section \<open>Hexadecimal round trip\<close>

lemma nibble_upt: "n < 16 \<Longrightarrow> n \<in> set [0..<16]"
  by simp

lemma upperhex_digit: "n < 16 \<Longrightarrow> ishex (upperhex ! n) \<and> unhex (upperhex ! n) = n"
proof -
  have "list_all (\<lambda>n. ishex (upperhex ! n) \<and> unhex (upperhex ! n) = n) [0..<16]" by code_simp
  then show "n < 16 \<Longrightarrow> ?thesis" using nibble_upt [of n] unfolding list_all_iff by blast
qed

lemma unhex_less: "unhex c < 16"
  by (auto simp: unhex_def)

lemma push_bit4_or: "y < 16 \<Longrightarrow> push_bit 4 x OR y = 16 * x + (y::nat)"
proof -
  assume y: "y < 16"
  have "\<not> bit y n" if "n \<ge> 4" for n
  proof -
    have "y < 2 ^ n" using y that power_increasing [of 4 n "2::nat"] by simp
    then show ?thesis by (simp add: bit_iff_odd)
  qed
  then have "push_bit 4 x AND y = 0"
    by (intro bit_eqI) (auto simp: bit_simps)
  then show ?thesis
    using disjunctive_add_eq_or [of "push_bit 4 x" y] by (simp add: push_bit_eq_mult mult.commute)
qed

lemma hexbyte_eq: "hexbyte a b = byte_of (16 * unhex a + unhex b)"
  by (simp add: hexbyte_def push_bit4_or unhex_less)

lemma nibbles: "drop_bit 4 (n::nat) = n div 16" "n AND 15 = n mod 16"
  using take_bit_eq_mask [of 4 n]
  by (simp_all add: drop_bit_eq_div mask_eq_exp_minus_1 take_bit_eq_mod)

lemma hex_of_byte:
  "ishex (upperhex ! (drop_bit 4 (byte_val c)))" "ishex (upperhex ! (byte_val c AND 15))"
  "hexbyte (upperhex ! (drop_bit 4 (byte_val c))) (upperhex ! (byte_val c AND 15)) = c"
  "unhex (upperhex ! (drop_bit 4 (byte_val c))) = byte_val c div 16"
proof -
  have l: "byte_val c div 16 < 16" "byte_val c mod 16 < 16"
    using byte_val_less [of c] by linarith+
  show "ishex (upperhex ! (drop_bit 4 (byte_val c)))" "ishex (upperhex ! (byte_val c AND 15))"
    "unhex (upperhex ! (drop_bit 4 (byte_val c))) = byte_val c div 16"
    using l upperhex_digit by (simp_all add: nibbles)
  show "hexbyte (upperhex ! (drop_bit 4 (byte_val c))) (upperhex ! (byte_val c AND 15)) = c"
    using l upperhex_digit by (simp add: nibbles hexbyte_eq)
qed

section \<open>The reference encoding\<close>

definition esc_char :: "encoding \<Rightarrow> char \<Rightarrow> string" where
  "esc_char mode c =
     (if c = CHR '' '' \<and> mode = encodeQueryComponent then ''+''
      else if shouldEscape c mode then
        [CHR ''%'', upperhex ! (drop_bit 4 (byte_val c)), upperhex ! (byte_val c AND 15)]
      else [c])"

lemma shouldEscape_percent [simp]: "shouldEscape (CHR ''%'') mode"
  by (cases mode)
    (auto simp: shouldEscape_def is_alnum_def is_lower_def is_upper_def is_digit_def
      host_chars_def reserved_chars_def)

lemma shouldEscape_space [simp]: "shouldEscape (CHR '' '') mode"
  by (cases mode)
    (auto simp: shouldEscape_def is_alnum_def is_lower_def is_upper_def is_digit_def
      host_chars_def reserved_chars_def)

lemma shouldEscape_plus: "shouldEscape (CHR ''+'') encodeQueryComponent"
  by (auto simp: shouldEscape_def is_alnum_def is_lower_def is_upper_def is_digit_def
      host_chars_def reserved_chars_def)

lemma shouldEscape_zone: "shouldEscape c encodeZone = shouldEscape c encodeHost"
  by (simp add: shouldEscape_def)

lemma escape_loop_ref: "escape_loop mode s = concat (map (esc_char mode) s)"
  by (induction s) (auto simp: esc_char_def)

lemma escape_count_0:
  "snd (escape_count mode s) = 0 \<Longrightarrow>
     map (\<lambda>c. if c = CHR '' '' then CHR ''+'' else c) s = concat (map (esc_char mode) s)"
  "escape_count mode s = (0, 0) \<Longrightarrow> s = concat (map (esc_char mode) s)"
  by (induction s) (auto simp: esc_char_def Let_def split: prod.splits if_splits)

lemma escape_ref: "escape s mode = concat (map (esc_char mode) s)"
  using escape_count_0 [of mode s]
  by (auto simp: escape_def escape_loop_ref split: prod.splits)

lemma escape_Nil [simp]: "escape [] mode = []"
  by (simp add: escape_ref)

lemma escape_Cons: "escape (c # s) mode = esc_char mode c @ escape s mode"
  by (simp add: escape_ref)

lemma escape_append: "escape (s @ t) mode = escape s mode @ escape t mode"
  by (simp add: escape_ref)

section \<open>Facts about unescape\<close>

lemma unescape_check_shortcut:
  "unescape_check mode s n hp = Inr (n', hp') \<Longrightarrow>
     n \<le> n' \<and> (n' = n \<longrightarrow> CHR ''%'' \<notin> set s) \<and>
     (n' = n \<longrightarrow> hp' = (if CHR ''+'' \<in> set s then mode = encodeQueryComponent else hp))"
proof (induction mode s n hp rule: unescape_check.induct)
  case (2 mode c s n hp)
  consider "c = CHR ''%''" | "c = CHR ''+''" | "c \<noteq> CHR ''%''" "c \<noteq> CHR ''+''" by blast
  then show ?case
  proof cases
    case 1
    with "2.prems" obtain a b rest where s: "s = a # b # rest"
      by (auto split: list.splits)
    with 1 "2.prems" have "unescape_check mode rest (Suc n) hp = Inr (n', hp')"
      by (auto split: if_splits)
    with "2.prems" 1 s have "Suc n \<le> n'"
      using "2.IH"(1) [OF 1 s refl] by (auto split: if_splits)
    then show ?thesis by simp
  next
    case 2
    with "2.prems" "2.IH"(2) show ?thesis by auto
  next
    case 3
    with "2.prems" "2.IH"(3) show ?thesis by (auto split: if_splits)
  qed
qed simp

lemma unescape_build_plain:
  "CHR ''%'' \<notin> set s \<Longrightarrow> CHR ''+'' \<notin> set s \<or> mode \<noteq> encodeQueryComponent \<Longrightarrow>
     unescape_build mode s = s"
  by (induction s) auto

text \<open>The early return of \<open>unescape\<close> gives what the building loop would give.\<close>

lemma unescape_ref:
  "unescape s mode =
     (case unescape_check mode s 0 False of Inl e \<Rightarrow> Inl e | Inr _ \<Rightarrow> Inr (unescape_build mode s))"
proof (cases "unescape_check mode s 0 False")
  case (Inr r)
  obtain n hp where r: "r = (n, hp)" by (cases r)
  show ?thesis
  proof (cases "n = 0 \<and> \<not> hp")
    case True
    with unescape_check_shortcut [OF Inr [unfolded r]]
    have "unescape_build mode s = s" by (intro unescape_build_plain) auto
    with Inr r True show ?thesis by (simp add: unescape_def)
  next
    case False
    with Inr r show ?thesis by (auto simp: unescape_def)
  qed
qed (simp add: unescape_def)

text \<open>Whether one escaped byte passes the checking loop.\<close>

definition escapable :: "encoding \<Rightarrow> char \<Rightarrow> bool" where
  "escapable mode c \<longleftrightarrow> \<not> shouldEscape c mode \<or>
     (case mode of
        encodeHost \<Rightarrow> 128 \<le> byte_val c \<or> c = CHR ''%''
      | encodeZone \<Rightarrow> c = CHR ''%'' \<or> c = CHR '' ''
      | _ \<Rightarrow> True)"

lemma hex_percent:
  "[CHR ''%'', upperhex ! (drop_bit 4 (byte_val c)), upperhex ! (byte_val c AND 15)] = ''%25''
     \<longleftrightarrow> c = CHR ''%''"
proof
  assume "[CHR ''%'', upperhex ! (drop_bit 4 (byte_val c)), upperhex ! (byte_val c AND 15)] = ''%25''"
  then have "hexbyte (CHR ''2'') (CHR ''5'') = c"
    using hex_of_byte(3) [of c] by simp
  then show "c = CHR ''%''"
    by (simp add: hexbyte_eq unhex_def byte_val_def byte_of_def flip: byte_val_inject)
next
  assume "c = CHR ''%''"
  moreover have "drop_bit 4 (37::nat) = 2" "(37::nat) AND 15 = 5" by simp_all
  ultimately show "[CHR ''%'', upperhex ! (drop_bit 4 (byte_val c)), upperhex ! (byte_val c AND 15)]
      = ''%25''" by (simp add: upperhex_def)
qed

lemma esc_char_check:
  "escapable mode c \<Longrightarrow> \<exists>n' hp'.
     unescape_check mode (esc_char mode c @ s) n hp = unescape_check mode s n' hp'"
proof (cases "shouldEscape c mode")
  case True
  assume e: "escapable mode c"
  show ?thesis
  proof (cases "c = CHR '' '' \<and> mode = encodeQueryComponent")
    case True
    then show ?thesis by (auto simp: esc_char_def)
  next
    case False
    have "\<not> (mode = encodeHost \<and> byte_val c div 16 < 8 \<and> c \<noteq> CHR ''%'')"
      using e True by (auto simp: escapable_def)
    moreover have "\<not> (mode = encodeZone \<and> c \<noteq> CHR ''%'' \<and> c \<noteq> CHR '' '')"
      using e True by (auto simp: escapable_def)
    ultimately show ?thesis
      using True False hex_of_byte [of c] hex_percent [of c]
      by (auto simp: esc_char_def)
  qed
next
  case False
  then have "c \<noteq> CHR ''%''" by auto
  with False show ?thesis by (auto simp: esc_char_def)
qed

lemma esc_char_build: "unescape_build mode (esc_char mode c @ s) = c # unescape_build mode s"
proof (cases "shouldEscape c mode")
  case True
  then show ?thesis using hex_of_byte(3) [of c] by (auto simp: esc_char_def)
next
  case False
  then have "c \<noteq> CHR ''%''" "c = CHR ''+'' \<longrightarrow> mode \<noteq> encodeQueryComponent" "c \<noteq> CHR '' ''"
    using shouldEscape_plus by auto
  with False show ?thesis by (auto simp: esc_char_def)
qed

lemma escape_check_ok:
  "\<forall>c \<in> set s. escapable mode c \<Longrightarrow>
     \<exists>r. unescape_check mode (escape s mode @ t) n hp = unescape_check mode t (fst r) (snd r)"
proof (induction s arbitrary: n hp)
  case (Cons c s)
  then show ?case
    using esc_char_check [of mode c "escape s mode @ t" n hp] by (fastforce simp: escape_Cons)
qed (auto intro: exI [of _ "(n, hp)" for n hp])

lemma escape_build: "unescape_build mode (escape s mode) = s"
  by (induction s) (auto simp: escape_Cons esc_char_build)

lemma unescape_escape: "\<forall>c \<in> set s. escapable mode c \<Longrightarrow> unescape (escape s mode) mode = Inr s"
  using escape_check_ok [of s mode "[]" 0 False]
  by (auto simp: unescape_ref escape_build)

lemma escapable_most [simp]:
  "mode \<noteq> encodeHost \<Longrightarrow> mode \<noteq> encodeZone \<Longrightarrow> escapable mode c"
  by (cases mode) (auto simp: escapable_def)

lemma esc_char_not_escapable:
  "\<not> escapable mode c \<Longrightarrow>
     unescape_check mode (esc_char mode c @ s) n hp = Inl (EscapeError (esc_char mode c))"
proof -
  assume n: "\<not> escapable mode c"
  then have s: "shouldEscape c mode" and c: "c \<noteq> CHR ''%''"
    and m: "mode = encodeHost \<and> byte_val c < 128 \<or> mode = encodeZone \<and> c \<noteq> CHR '' ''"
    by (cases mode; auto simp: escapable_def)+
  then show ?thesis
    using hex_of_byte [of c] hex_percent [of c]
    by (auto simp: esc_char_def shouldEscape_zone)
qed

text \<open>In host and zone mode, the first byte that cannot be escaped decides the error.\<close>

lemma unescape_escape_error:
  assumes "\<forall>c \<in> set s. escapable mode c" and "\<not> escapable mode d"
  shows "unescape (escape (s @ d # t) mode) mode = Inl (EscapeError (esc_char mode d))"
  using escape_check_ok [OF assms(1), of "escape (d # t) mode" 0 False]
    esc_char_not_escapable [OF assms(2)]
  by (auto simp: unescape_ref escape_append escape_Cons)

text \<open>Bytes of an escaped string.\<close>

lemma upperhex_alnum: "n < 16 \<Longrightarrow> is_alnum (upperhex ! n)"
proof -
  have "list_all (\<lambda>n. is_alnum (upperhex ! n)) [0..<16]" by code_simp
  then show "n < 16 \<Longrightarrow> ?thesis" using nibble_upt [of n] unfolding list_all_iff by blast
qed

lemma shouldEscape_alnum [simp]: "is_alnum c \<Longrightarrow> \<not> shouldEscape c mode"
  by (simp add: shouldEscape_def)

lemma esc_char_set:
  "d \<in> set (esc_char mode c) \<Longrightarrow> d = CHR ''%'' \<or> d = CHR ''+'' \<and> mode = encodeQueryComponent
     \<or> \<not> shouldEscape d mode"
proof -
  have "drop_bit 4 (byte_val c) < 16" "byte_val c AND 15 < 16"
    using byte_val_less [of c] unfolding nibbles by linarith+
  then have "is_alnum (upperhex ! drop_bit 4 (byte_val c))" "is_alnum (upperhex ! (byte_val c AND 15))"
    by (simp_all only: upperhex_alnum)
  then show "d \<in> set (esc_char mode c) \<Longrightarrow> d = CHR ''%'' \<or> d = CHR ''+'' \<and> mode = encodeQueryComponent
     \<or> \<not> shouldEscape d mode"
    by (auto simp: esc_char_def split: if_splits)
qed

lemma escape_set:
  "d \<in> set (escape s mode) \<Longrightarrow> d = CHR ''%'' \<or> d = CHR ''+'' \<and> mode = encodeQueryComponent
     \<or> \<not> shouldEscape d mode"
  using esc_char_set by (fastforce simp: escape_ref)

end
