(* ===== verification/Uri.thy ===== *)
theory Uri
  imports Escape
begin

text \<open>
  The URI type of \<open>src/sip/uri.go\<close>: its parser, its printer, reference resolution and the
  accessors. The parser falls back on \<open>net/url\<close> for absolute URIs (a slash after the
  scheme); what that package does there is written out as \<open>neturl_Parse\<close>, as in
  Go 1.15 and 1.16 (the releases that have \<open>EscapedFragment\<close> and still split queries at
  semicolons), on the same helper functions, which this file of the program copied from it. The lemmas at the end build up the round trip between
  \<open>uri_String\<close> and \<open>Parse\<close> for SIP URIs.
\<close>

section \<open>Types\<close>

text \<open>\<open>url.Userinfo\<close>, behind a pointer that may be nil; its methods accept nil.\<close>

record userinfo =
  ui_username :: string
  ui_password :: string
  ui_passwordSet :: bool

definition url_User :: "string \<Rightarrow> userinfo" where
  "url_User n = \<lparr>ui_username = n, ui_password = [], ui_passwordSet = False\<rparr>"

definition url_UserPassword :: "string \<Rightarrow> string \<Rightarrow> userinfo" where
  "url_UserPassword n p = \<lparr>ui_username = n, ui_password = p, ui_passwordSet = True\<rparr>"

definition userinfo_String :: "userinfo option \<Rightarrow> string" where
  "userinfo_String u =
     (case u of None \<Rightarrow> []
      | Some ui \<Rightarrow> escape (ui_username ui) encodeUserPassword
          @ (if ui_passwordSet ui then CHR '':'' # escape (ui_password ui) encodeUserPassword else []))"

definition userinfo_Username :: "userinfo option \<Rightarrow> string" where
  "userinfo_Username u = (case u of None \<Rightarrow> [] | Some ui \<Rightarrow> ui_username ui)"

record uri =
  u_Scheme :: string
  u_Opaque :: string
  u_User :: "userinfo option"
  u_Host :: string
  u_Path :: string
  u_RawPath :: string
  u_ForceParameter :: bool
  u_RawParameter :: string
  u_ForceQuery :: bool
  u_RawQuery :: string
  u_Absolute :: bool
  u_Fragment :: string
  u_RawFragment :: string

definition new_uri :: uri where
  "new_uri = \<lparr>u_Scheme = [], u_Opaque = [], u_User = None, u_Host = [], u_Path = [],
     u_RawPath = [], u_ForceParameter = False, u_RawParameter = [], u_ForceQuery = False,
     u_RawQuery = [], u_Absolute = False, u_Fragment = [], u_RawFragment = []\<rparr>"

definition uri_Clone :: "uri option \<Rightarrow> uri option" where
  "uri_Clone u =
     (case u of None \<Rightarrow> None
      | Some v \<Rightarrow> Some \<lparr>u_Scheme = u_Scheme v, u_Opaque = u_Opaque v,
          u_User = (case u_User v of None \<Rightarrow> None
             | Some ui \<Rightarrow> Some (if ui_passwordSet ui
                 then url_UserPassword (ui_username ui) (ui_password ui)
                 else url_User (ui_username ui))),
          u_Host = u_Host v, u_Path = u_Path v, u_RawPath = u_RawPath v,
          u_ForceParameter = u_ForceParameter v, u_RawParameter = u_RawParameter v,
          u_ForceQuery = u_ForceQuery v, u_RawQuery = u_RawQuery v, u_Absolute = u_Absolute v,
          u_Fragment = u_Fragment v, u_RawFragment = u_RawFragment v\<rparr>)"

section \<open>Parsing\<close>

text \<open>\<open>getscheme\<close>: the scan over \<open>rawuri\<close> at index \<open>i\<close>, with the bytes left to read.\<close>

fun getscheme_at :: "string \<Rightarrow> nat \<Rightarrow> string \<Rightarrow> uri_error + string \<times> string" where
  "getscheme_at rawuri i [] = Inr ([], rawuri)"
| "getscheme_at rawuri i (c # s) =
     (if is_lower c \<or> is_upper c then getscheme_at rawuri (Suc i) s
      else if is_digit c \<or> c = CHR ''+'' \<or> c = CHR ''-'' \<or> c = CHR ''.'' then
        (if i = 0 then Inr ([], rawuri) else getscheme_at rawuri (Suc i) s)
      else if c = CHR '':'' then
        (if i = 0 then Inl MissingScheme else Inr (take i rawuri, drop (Suc i) rawuri))
      else Inr ([], rawuri))"

definition getscheme :: "string \<Rightarrow> uri_error + string \<times> string" where
  "getscheme rawuri = getscheme_at rawuri 0 rawuri"

definition split_at :: "string \<Rightarrow> char \<Rightarrow> bool \<Rightarrow> string \<times> string" where
  "split_at s sep cutc =
     (case IndexByte s sep of None \<Rightarrow> (s, [])
      | Some i \<Rightarrow> (take i s, if cutc then drop (Suc i) s else drop i s))"

definition stringContainsCTLByte :: "string \<Rightarrow> bool" where
  "stringContainsCTLByte s \<longleftrightarrow> (\<exists>b \<in> set s. byte_val b < 32 \<or> byte_val b = 127)"

definition validOptionalPort :: "string \<Rightarrow> bool" where
  "validOptionalPort port =
     (case port of [] \<Rightarrow> True | c # ds \<Rightarrow> c = CHR '':'' \<and> (\<forall>b \<in> set ds. is_digit b))"

definition validUserinfo :: "string \<Rightarrow> bool" where
  "validUserinfo s \<longleftrightarrow>
     (\<forall>r \<in> set s. is_upper r \<or> is_lower r \<or> is_digit r
        \<or> r \<in> set (''-._:~!$&'' @ [CHR 0x27] @ ''()*+,;=%@''))"

definition parseHost :: "string \<Rightarrow> uri_error + string" where
  "parseHost host =
     (if HasPrefix host ''['' then
        (case LastIndexByte host (CHR '']'') of
           None \<Rightarrow> Inl MissingBracket
         | Some i \<Rightarrow>
             (if \<not> validOptionalPort (drop (Suc i) host) then Inl (InvalidPort (drop (Suc i) host))
              else (case IndexStr (take i host) ''%25'' of
                  Some zone \<Rightarrow>
                    bindR (unescape (take zone host) encodeHost) (\<lambda>host1.
                    bindR (unescape (drop zone (take i host)) encodeZone) (\<lambda>host2.
                    bindR (unescape (drop i host) encodeHost) (\<lambda>host3.
                      Inr (host1 @ host2 @ host3))))
                | None \<Rightarrow> unescape host encodeHost)))
      else (case LastIndexByte host (CHR '':'') of
          Some i \<Rightarrow>
            (if \<not> validOptionalPort (drop i host) then Inl (InvalidPort (drop i host))
             else unescape host encodeHost)
        | None \<Rightarrow> unescape host encodeHost))"

text \<open>The part of \<open>parseAuthority\<close> after the host: the bytes before the last \<open>@\<close>.\<close>

definition parse_userinfo :: "string \<Rightarrow> uri_error + userinfo" where
  "parse_userinfo ui =
     (if \<not> validUserinfo ui then Inl InvalidUserinfo
      else if CHR '':'' \<notin> set ui then
        bindR (unescape ui encodeUserPassword) (\<lambda>u. Inr (url_User u))
      else
        (let (username, password) = split_at ui (CHR '':'') True in
         bindR (unescape username encodeUserPassword) (\<lambda>u.
         bindR (unescape password encodeUserPassword) (\<lambda>p. Inr (url_UserPassword u p)))))"

definition parseAuthority :: "string \<Rightarrow> uri_error + userinfo option \<times> string \<times> string" where
  "parseAuthority authority =
     (case LastIndexByte authority (CHR ''@'') of
        None \<Rightarrow>
          (let (hostport, parameter) = split_at authority (CHR '';'') True in
           bindR (parseHost hostport) (\<lambda>host. Inr (None, host, parameter)))
      | Some i \<Rightarrow>
          (let (hostport, parameter) = split_at (drop (Suc i) authority) (CHR '';'') True in
           bindR (parseHost hostport) (\<lambda>host.
           bindR (parse_userinfo (take i authority)) (\<lambda>user.
             Inr (Some user, host, parameter)))))"

text \<open>Path and RawPath are set together; an error leaves the URI as it was.\<close>

definition setPath :: "uri \<Rightarrow> string \<Rightarrow> uri_error + uri" where
  "setPath u p =
     bindR (unescape p encodePath) (\<lambda>path.
       Inr (u\<lparr>u_Path := path, u_RawPath := (if p = escape path encodePath then [] else p)\<rparr>))"

definition setFragment :: "uri \<Rightarrow> string \<Rightarrow> uri_error + uri" where
  "setFragment u f =
     bindR (unescape f encodeFragment) (\<lambda>frag.
       Inr (u\<lparr>u_Fragment := frag,
              u_RawFragment := (if f = escape frag encodeFragment then [] else f)\<rparr>))"

text \<open>
  \<open>url.Parse\<close> on input whose rest after the scheme starts with a slash, the only input
  \<open>parse\<close> below gives it. The fragment is unescaped only to find its errors: the program
  does not read it.
\<close>

definition neturl_authority :: "string \<Rightarrow> uri_error + userinfo option \<times> string" where
  "neturl_authority authority =
     (case LastIndexByte authority (CHR ''@'') of
        None \<Rightarrow> bindR (parseHost authority) (\<lambda>host. Inr (None, host))
      | Some i \<Rightarrow>
          bindR (parseHost (drop (Suc i) authority)) (\<lambda>host.
          bindR (parse_userinfo (take i authority)) (\<lambda>user. Inr (Some user, host))))"

definition split_query :: "string \<Rightarrow> bool \<times> string \<times> string" where
  "split_query rest =
     (if HasSuffix rest ''?'' \<and> CountByte rest (CHR ''?'') = 1 then (True, butlast rest, [])
      else (let (r, q) = split_at rest (CHR ''?'') True in (False, r, q)))"

definition neturl_Parse :: "string \<Rightarrow> uri_error + uri" where
  "neturl_Parse rawurl =
     (let (s, frag) = split_at rawurl (CHR ''#'') True in
      if stringContainsCTLByte s then Inl ControlCharacter
      else
        bindR (getscheme s) (\<lambda>(scheme, rest0).
          let (forceQuery, rest, rawQuery) = split_query rest0;
              u = new_uri\<lparr>u_Scheme := ToLower scheme, u_ForceQuery := forceQuery,
                          u_RawQuery := rawQuery\<rparr>
          in bindR
              (if HasPrefix rest ''//'' \<and> (scheme \<noteq> [] \<or> \<not> HasPrefix rest ''///'') then
                 (let (authority, path) = split_at (drop 2 rest) (CHR ''/'') False in
                  bindR (neturl_authority authority) (\<lambda>(user, host).
                    Inr (u\<lparr>u_User := user, u_Host := host\<rparr>, path)))
               else Inr (u, rest))
              (\<lambda>(u', path). bindR (setPath u' path) (\<lambda>u''.
                 if frag = [] then Inr u''
                 else bindR (unescape frag encodeFragment) (\<lambda>_. Inr u'')))))"

definition parse_uri :: "string \<Rightarrow> bool \<Rightarrow> uri_error + uri" where
  "parse_uri rawuri viaRequest =
     (if stringContainsCTLByte rawuri then Inl ControlCharacter
      else if rawuri = [] \<and> viaRequest then Inl EmptyUri
      else if rawuri = ''*'' then Inr (new_uri\<lparr>u_Path := ''*''\<rparr>)
      else
        bindR (getscheme rawuri) (\<lambda>(scheme, rest0).
          let (forceQuery, rest, rawQuery) = split_query rest0 in
          if HasPrefix rest ''/'' then
            bindR (neturl_Parse rawuri) (\<lambda>n.
              let (path, rawParameter) = split_at (u_Path n) (CHR '';'') True in
              Inr (new_uri\<lparr>u_Scheme := u_Scheme n, u_Opaque := u_Opaque n, u_User := u_User n,
                u_Host := u_Host n, u_Path := path, u_RawParameter := rawParameter,
                u_RawPath := fst (split_at (u_RawPath n) (CHR '';'') True),
                u_ForceQuery := u_ForceQuery n, u_RawQuery := u_RawQuery n,
                u_Absolute := True\<rparr>))
          else
            bindR (parseAuthority rest) (\<lambda>(user, host, parameter).
              Inr (new_uri\<lparr>u_Scheme := ToLower scheme, u_ForceQuery := forceQuery,
                u_RawQuery := rawQuery, u_User := user, u_Host := host,
                u_RawParameter := parameter\<rparr>))))"

definition Parse :: "string \<Rightarrow> uri_error + uri" where
  "Parse rawuri =
     (let (u, frag) = split_at rawuri (CHR ''#'') True in
      case parse_uri u False of
        Inl e \<Rightarrow> Inl (UriError ''parse'' u e)
      | Inr uri \<Rightarrow>
          (if frag = [] then Inr uri
           else (case setFragment uri frag of
               Inl e \<Rightarrow> Inl (UriError ''parse'' rawuri e)
             | Inr uri' \<Rightarrow> Inr uri')))"

definition ParseRequestURI :: "string \<Rightarrow> uri_error + uri" where
  "ParseRequestURI rawuri =
     (case parse_uri rawuri True of
        Inl e \<Rightarrow> Inl (UriError ''parse'' rawuri e)
      | Inr uri \<Rightarrow> Inr uri)"

section \<open>Printing\<close>

definition validEncoded :: "string \<Rightarrow> encoding \<Rightarrow> bool" where
  "validEncoded s mode \<longleftrightarrow>
     (\<forall>c \<in> set s. c \<in> set (''!$&'' @ [CHR 0x27] @ ''()*+,;=:@'') \<or> c \<in> set ''[]'' \<or> c = CHR ''%''
        \<or> \<not> shouldEscape c mode)"

definition EscapedPath :: "uri \<Rightarrow> string" where
  "EscapedPath u =
     (if u_RawPath u \<noteq> [] \<and> validEncoded (u_RawPath u) encodePath
         \<and> unescape (u_RawPath u) encodePath = Inr (u_Path u)
      then u_RawPath u
      else if u_Path u = ''*'' then ''*''
      else escape (u_Path u) encodePath)"

text \<open>
  \<open>EscapedFragment\<close> is not a method of this type: the call resolves to the method of the
  embedded \<open>url.URL\<close>, whose own fields are never set, so it returns the empty string
  whatever the fragment is (this file defines no \<open>EscapedFragment\<close>).
\<close>

definition embedded_EscapedFragment :: "uri \<Rightarrow> string" where
  "embedded_EscapedFragment u = escape [] encodeFragment"

definition uri_String :: "uri \<Rightarrow> string" where
  "uri_String u =
     (let s1 = (if u_Scheme u \<noteq> [] then u_Scheme u @ '':'' else []);
          s2 =
            (if u_Opaque u \<noteq> [] then s1 @ u_Opaque u
             else
               (let a =
                  (if u_Scheme u \<noteq> [] \<or> u_Host u \<noteq> [] \<or> u_User u \<noteq> None then
                     s1 @ (if u_Absolute u \<and> (u_Host u \<noteq> [] \<or> u_Path u \<noteq> [] \<or> u_User u \<noteq> None)
                           then ''//'' else [])
                        @ (if u_User u \<noteq> None then userinfo_String (u_User u) @ ''@'' else [])
                        @ (if u_Host u \<noteq> [] then escape (u_Host u) encodeHost else [])
                   else s1);
                  path = EscapedPath u;
                  b = (if path \<noteq> [] \<and> hd path \<noteq> CHR ''/'' \<and> u_Host u \<noteq> [] then a @ ''/'' else a);
                  d = (if b = [] then
                         (case IndexByte path (CHR '':'') of
                            Some i \<Rightarrow> (if CHR ''/'' \<notin> set (take i path) then ''./'' else [])
                          | None \<Rightarrow> [])
                       else b)
                in d @ path))
      in s2 @ (if u_ForceParameter u \<or> u_RawParameter u \<noteq> [] then '';'' @ u_RawParameter u else [])
            @ (if u_ForceQuery u \<or> u_RawQuery u \<noteq> [] then ''?'' @ u_RawQuery u else [])
            @ (if u_Fragment u \<noteq> [] then ''#'' @ embedded_EscapedFragment u else []))"

text \<open>Only a present password is replaced; a nil URI prints as the empty string.\<close>

definition Redacted :: "uri option \<Rightarrow> string" where
  "Redacted u =
     (case u of None \<Rightarrow> []
      | Some v \<Rightarrow>
          (case u_User v of
             Some ui \<Rightarrow>
               (if ui_passwordSet ui
                then uri_String (v\<lparr>u_User := Some (url_UserPassword (ui_username ui) ''xxxxx'')\<rparr>)
                else uri_String v)
           | None \<Rightarrow> uri_String v))"

section \<open>Reference resolution\<close>

definition resolve_step :: "string list \<Rightarrow> string \<Rightarrow> string list" where
  "resolve_step dst elem =
     (if elem = ''.'' then dst
      else if elem = ''..'' then (if dst \<noteq> [] then butlast dst else dst)
      else dst @ [elem])"

definition resolvePath :: "string \<Rightarrow> string \<Rightarrow> string" where
  "resolvePath base ref =
     (let full =
        (if ref = [] then base
         else if hd ref \<noteq> CHR ''/'' then
           (case LastIndexByte base (CHR ''/'') of
              None \<Rightarrow> ref | Some i \<Rightarrow> take (Suc i) base @ ref)
         else ref)
      in if full = [] then []
         else
           (let src = Split full (CHR ''/'');
                dst = foldl resolve_step [] src;
                dst' = (if last src = ''.'' \<or> last src = ''..'' then dst @ [[]] else dst);
                j = Join dst' ''/''
            in CHR ''/'' # (if HasPrefix j ''/'' then drop 1 j else j)))"

definition setPath_ignore :: "uri \<Rightarrow> string \<Rightarrow> uri" where
  "setPath_ignore u p = (case setPath u p of Inl _ \<Rightarrow> u | Inr u' \<Rightarrow> u')"

definition ResolveReference :: "uri \<Rightarrow> uri \<Rightarrow> uri" where
  "ResolveReference u ref =
     (let uri = (if u_Scheme ref = [] then ref\<lparr>u_Scheme := u_Scheme u\<rparr> else ref) in
      if u_Scheme ref \<noteq> [] \<or> u_Host ref \<noteq> [] \<or> u_User ref \<noteq> None then
        setPath_ignore uri (resolvePath (EscapedPath ref) [])
      else if u_Opaque ref \<noteq> [] then uri\<lparr>u_User := None, u_Host := [], u_Path := []\<rparr>
      else
        (let uri' =
           (if u_Path ref = [] \<and> u_RawQuery ref = [] then
              (let q = uri\<lparr>u_RawQuery := u_RawQuery u\<rparr> in
               if u_Fragment ref = []
               then q\<lparr>u_Fragment := u_Fragment u, u_RawFragment := u_RawFragment u\<rparr> else q)
            else uri)
         in setPath_ignore (uri'\<lparr>u_Host := u_Host u, u_User := u_User u\<rparr>)
              (resolvePath (EscapedPath u) (EscapedPath ref))))"

definition uri_Parse_ref :: "uri \<Rightarrow> string \<Rightarrow> uri_error + uri" where
  "uri_Parse_ref u ref = bindR (Parse ref) (\<lambda>refuri. Inr (ResolveReference u refuri))"

section \<open>Accessors\<close>

text \<open>
  \<open>url.ParseQuery\<close> with its error ignored: pieces between \<open>&\<close> and \<open>;\<close>, empty ones
  skipped, key and value unescaped, pieces that do not unescape dropped.
\<close>

fun split_amp :: "string \<Rightarrow> string list" where
  "split_amp [] = [[]]"
| "split_amp (c # s) =
     (if c = CHR ''&'' \<or> c = CHR '';'' then [] # split_amp s
      else (case split_amp s of [] \<Rightarrow> [[c]] | y # ys \<Rightarrow> (c # y) # ys))"

definition query_piece :: "kvs \<Rightarrow> string \<Rightarrow> kvs" where
  "query_piece m piece =
     (if piece = [] then m
      else (let (key, val) = split_at piece (CHR ''='') True in
        (case QueryUnescape key of Inl _ \<Rightarrow> m
         | Inr k \<Rightarrow> (case QueryUnescape val of Inl _ \<Rightarrow> m | Inr v \<Rightarrow> kv_add m k v))))"

definition ParseQuery :: "string \<Rightarrow> kvs" where
  "ParseQuery query = foldl query_piece [] (split_amp query)"

definition uri_Query :: "uri \<Rightarrow> kvs" where
  "uri_Query u = ParseQuery (u_RawQuery u)"

definition uri_Parameter :: "uri \<Rightarrow> kvs" where
  "uri_Parameter u = ParseQuery (u_RawParameter u)"

definition RequestURI :: "uri \<Rightarrow> string" where
  "RequestURI u =
     (let result =
        (if u_Opaque u = [] then
           (if EscapedPath u = [] then
              (let user = userinfo_String (u_User u) in
               u_Scheme u @ '':'' @ (if user \<noteq> [] then user @ ''@'' else []) @ u_Host u)
            else EscapedPath u)
         else if HasPrefix (u_Opaque u) ''//'' then u_Scheme u @ '':'' @ u_Opaque u
         else u_Opaque u)
      in result @ (if u_ForceParameter u \<or> u_RawParameter u \<noteq> [] then '';'' @ u_RawParameter u else [])
           @ (if u_ForceQuery u \<or> u_RawQuery u \<noteq> [] then ''?'' @ u_RawQuery u else []))"

definition splitHostPort :: "string \<Rightarrow> string \<times> string" where
  "splitHostPort hostport =
     (let (host, port) =
        (case LastIndexByte hostport (CHR '':'') of
           Some colon \<Rightarrow>
             (if validOptionalPort (drop colon hostport)
              then (take colon hostport, drop (Suc colon) hostport) else (hostport, []))
         | None \<Rightarrow> (hostport, []))
      in (if HasPrefix host ''['' \<and> HasSuffix host '']'' then take (length host - 2) (drop 1 host)
          else host, port))"

definition Hostname :: "uri \<Rightarrow> string" where
  "Hostname u = fst (splitHostPort (u_Host u))"

definition Port :: "uri \<Rightarrow> string" where
  "Port u = snd (splitHostPort (u_Host u))"

section \<open>Helper lemmas\<close>

lemma split_at_absent [simp]: "c \<notin> set s \<Longrightarrow> split_at s c cutc = (s, [])"
  by (simp add: split_at_def flip: IndexByte_None)

lemma split_at_append [simp]: "c \<notin> set a \<Longrightarrow> split_at (a @ c # b) c True = (a, b)"
  by (simp add: split_at_def)

definition scheme_wf :: "string \<Rightarrow> bool" where
  "scheme_wf s \<longleftrightarrow> s \<noteq> [] \<and> is_lower (hd s) \<and>
     (\<forall>c \<in> set s. is_lower c \<or> is_digit c \<or> c \<in> set ''+-.'')"

lemma not_scheme_char [simp]:
  "\<not> is_lower (CHR '':'')" "\<not> is_upper (CHR '':'')" "\<not> is_digit (CHR '':'')"
  by (simp_all add: is_lower_def is_upper_def is_digit_def)

lemma getscheme_at_scan:
  assumes "\<forall>c \<in> set t. is_lower c \<or> is_digit c \<or> c \<in> set ''+-.''" and "0 < i"
  shows "getscheme_at raw i (t @ CHR '':'' # r)
     = Inr (take (i + length t) raw, drop (Suc (i + length t)) raw)"
  using assms
proof (induction t arbitrary: i)
  case (Cons c t)
  have "getscheme_at raw i ((c # t) @ CHR '':'' # r) = getscheme_at raw (Suc i) (t @ CHR '':'' # r)"
    using Cons.prems by auto
  then show ?case using Cons.IH [of "Suc i"] Cons.prems by simp
qed simp

lemma getscheme_wf: "scheme_wf s \<Longrightarrow> getscheme (s @ CHR '':'' # r) = Inr (s, r)"
proof (cases s)
  case (Cons c t)
  assume w: "scheme_wf s"
  with Cons have "getscheme (s @ CHR '':'' # r) = getscheme_at (s @ CHR '':'' # r) 1 (t @ CHR '':'' # r)"
    by (simp add: getscheme_def scheme_wf_def)
  also have "\<dots> = Inr (s, r)"
    using w Cons by (subst getscheme_at_scan) (auto simp: scheme_wf_def)
  finally show ?thesis .
qed (simp add: scheme_wf_def)

lemma ToLower_scheme [simp]: "scheme_wf s \<Longrightarrow> ToLower s = s"
  unfolding ToLower_def
  by (rule map_idI) (auto simp: scheme_wf_def ascii_lower_def is_upper_def is_lower_def is_digit_def)

text \<open>A host that \<open>parseHost\<close> takes as it is: nothing to escape, and a numeric port if any.\<close>

definition host_wf :: "string \<Rightarrow> bool" where
  "host_wf h \<longleftrightarrow> (\<forall>c \<in> set h. \<not> shouldEscape c encodeHost) \<and> CHR '';'' \<notin> set h \<and>
     (if HasPrefix h ''['' then
        (case LastIndexByte h (CHR '']'') of None \<Rightarrow> False
         | Some i \<Rightarrow> validOptionalPort (drop (Suc i) h))
      else (case LastIndexByte h (CHR '':'') of None \<Rightarrow> True
         | Some i \<Rightarrow> validOptionalPort (drop i h)))"

lemma escape_plain: "\<forall>c \<in> set h. \<not> shouldEscape c mode \<Longrightarrow> escape h mode = h"
proof (induction h)
  case (Cons c h)
  then have "esc_char mode c = [c]" by (auto simp: esc_char_def)
  with Cons show ?case by (simp add: escape_Cons)
qed simp

lemma unescape_plain_host:
  "\<forall>c \<in> set h. \<not> shouldEscape c encodeHost \<Longrightarrow> unescape h encodeHost = Inr h"
  using unescape_escape [of h encodeHost] escape_plain [of h encodeHost]
  by (simp add: escapable_def)

lemma IndexStr_None: "IndexStr s (c # p) \<noteq> None \<Longrightarrow> c \<in> set s"
  by (induction s) (auto simp: HasPrefix_def split: if_splits)

lemma parseHost_wf: "host_wf h \<Longrightarrow> parseHost h = Inr h"
proof -
  assume w: "host_wf h"
  then have p: "CHR ''%'' \<notin> set h"
    by (metis host_wf_def shouldEscape_percent)
  have "IndexStr (take i h) ''%25'' = None" for i
    using IndexStr_None [of "take i h" "CHR ''%''" "''25''"] p by (meson in_set_takeD)
  with w show ?thesis
    by (auto simp: parseHost_def host_wf_def unescape_plain_host split: option.splits if_splits)
qed

lemma host_byte [simp]:
  "shouldEscape (CHR ''@'') encodeHost" "shouldEscape (CHR ''?'') encodeHost"
  "shouldEscape (CHR ''#'') encodeHost" "shouldEscape (CHR ''/'') encodeHost"
  by (simp_all add: shouldEscape_def is_alnum_def is_lower_def is_upper_def is_digit_def
      host_chars_def reserved_chars_def byte_val_def)

lemma user_byte [simp]:
  "shouldEscape (CHR ''@'') encodeUserPassword" "shouldEscape (CHR ''?'') encodeUserPassword"
  "shouldEscape (CHR ''#'') encodeUserPassword" "shouldEscape (CHR ''/'') encodeUserPassword"
  "shouldEscape (CHR '':'') encodeUserPassword"
  by (simp_all add: shouldEscape_def is_alnum_def is_lower_def is_upper_def is_digit_def
      host_chars_def reserved_chars_def byte_val_def)

lemma ctl_byte: "byte_val c < 32 \<or> byte_val c = 127 \<Longrightarrow> shouldEscape c mode"
proof -
  assume c: "byte_val c < 32 \<or> byte_val c = 127"
  have "c \<notin> set host_chars" "c \<notin> set ''-_.~''" "c \<notin> set reserved_chars" "c \<notin> set ''!()*''"
    using c by (auto simp: host_chars_def reserved_chars_def byte_val_def)
  moreover have "\<not> is_alnum c"
    using c by (auto simp: is_alnum_def is_lower_def is_upper_def is_digit_def)
  ultimately show ?thesis by (simp add: shouldEscape_def)
qed

section \<open>Printing and parsing SIP URIs\<close>

text \<open>The URIs whose printed form the parser reads back: those of a \<open>sip:\<close> or \<open>tel:\<close> kind.\<close>

definition text_wf :: "char set \<Rightarrow> string \<Rightarrow> bool" where
  "text_wf bad s \<longleftrightarrow> \<not> stringContainsCTLByte s \<and> set s \<inter> bad = {}"

definition sip_uri_wf :: "uri \<Rightarrow> bool" where
  "sip_uri_wf u \<longleftrightarrow>
     scheme_wf (u_Scheme u) \<and> u_Opaque u = [] \<and> u_Path u = [] \<and> u_RawPath u = []
     \<and> \<not> u_Absolute u \<and> \<not> u_ForceParameter u \<and> u_Fragment u = [] \<and> u_RawFragment u = []
     \<and> host_wf (u_Host u)
     \<and> (case u_User u of None \<Rightarrow> True | Some ui \<Rightarrow> ui_passwordSet ui \<or> ui_password ui = [])
     \<and> text_wf {CHR ''?'', CHR ''#'', CHR ''@''} (u_RawParameter u)
     \<and> text_wf {CHR ''#''} (u_RawQuery u) \<and> (u_ForceQuery u \<longrightarrow> u_RawQuery u = [])"

definition hostport_text :: "uri \<Rightarrow> string" where
  "hostport_text u =
     u_Host u @ (if u_RawParameter u \<noteq> [] then CHR '';'' # u_RawParameter u else [])"

definition authority_text :: "uri \<Rightarrow> string" where
  "authority_text u =
     (case u_User u of None \<Rightarrow> hostport_text u
      | Some ui \<Rightarrow> userinfo_String (Some ui) @ CHR ''@'' # hostport_text u)"

definition query_text :: "uri \<Rightarrow> string" where
  "query_text u = (if u_ForceQuery u \<or> u_RawQuery u \<noteq> [] then CHR ''?'' # u_RawQuery u else [])"

lemma uri_String_sip:
  assumes "sip_uri_wf u"
  shows "uri_String u = u_Scheme u @ CHR '':'' # authority_text u @ query_text u"
proof -
  have "EscapedPath u = []" using assms by (simp add: EscapedPath_def sip_uri_wf_def)
  moreover have "escape (u_Host u) encodeHost = u_Host u"
    using assms by (simp add: sip_uri_wf_def host_wf_def escape_plain)
  ultimately show ?thesis
    using assms
    by (auto simp: uri_String_def sip_uri_wf_def scheme_wf_def authority_text_def hostport_text_def
        query_text_def Let_def split: option.splits)
qed

lemma escape_user_chars:
  assumes "c \<in> set (escape s encodeUserPassword)"
  shows "c \<noteq> CHR ''@'' \<and> c \<noteq> CHR ''?'' \<and> c \<noteq> CHR ''#'' \<and> c \<noteq> CHR ''/'' \<and> c \<noteq> CHR '':''
    \<and> \<not> (byte_val c < 32 \<or> byte_val c = 127)"
  using escape_set [OF assms] user_byte ctl_byte [of c encodeUserPassword]
  by (auto simp: byte_val_def)

lemma escape_user_valid: "validUserinfo (escape s encodeUserPassword)"
proof -
  have "c = CHR ''%'' \<or> is_alnum c \<or> c \<in> set ''-_.~'' \<or> c \<in> set reserved_chars \<and> c \<notin> set ''@/?:''"
    if "c \<in> set (escape s encodeUserPassword)" for c
    using escape_set [OF that] by (auto simp: shouldEscape_def split: if_splits)
  then show ?thesis
    unfolding validUserinfo_def is_alnum_def reserved_chars_def by fastforce
qed

lemma validUserinfo_append [simp]: "validUserinfo (a @ b) \<longleftrightarrow> validUserinfo a \<and> validUserinfo b"
  unfolding validUserinfo_def set_append by blast

lemma validUserinfo_Nil [simp]: "validUserinfo []"
  by (simp add: validUserinfo_def)

lemma parse_userinfo_String:
  assumes "ui_passwordSet ui \<or> ui_password ui = []"
  shows "parse_userinfo (userinfo_String (Some ui)) = Inr ui"
proof -
  have n: "CHR '':'' \<notin> set (escape s encodeUserPassword)" for s
    using escape_user_chars by blast
  have r: "unescape (escape s encodeUserPassword) encodeUserPassword = Inr s" for s
    by (rule unescape_escape) simp
  have "validUserinfo (CHR '':'' # x) = validUserinfo x" for x
    by (simp add: validUserinfo_def)
  with assms n r escape_user_valid show ?thesis
    by (cases ui) (auto simp: parse_userinfo_def userinfo_String_def url_User_def url_UserPassword_def)
qed

lemma hostport_at: "sip_uri_wf u \<Longrightarrow> CHR ''@'' \<notin> set (hostport_text u)"
  by (auto simp: sip_uri_wf_def hostport_text_def host_wf_def text_wf_def)

lemma parse_hostport:
  "sip_uri_wf u \<Longrightarrow> split_at (hostport_text u) (CHR '';'') True = (u_Host u, u_RawParameter u)"
  by (auto simp: hostport_text_def sip_uri_wf_def host_wf_def)

lemma parseAuthority_text:
  assumes "sip_uri_wf u"
  shows "parseAuthority (authority_text u) = Inr (u_User u, u_Host u, u_RawParameter u)"
  using assms hostport_at [OF assms] parse_hostport [OF assms]
  by (auto simp: authority_text_def parseAuthority_def sip_uri_wf_def parseHost_wf
      parse_userinfo_String split: option.splits)

lemma userinfo_String_chars:
  assumes "c \<in> set (userinfo_String u)"
  shows "c \<noteq> CHR ''@'' \<and> c \<noteq> CHR ''?'' \<and> c \<noteq> CHR ''#'' \<and> c \<noteq> CHR ''/''
    \<and> \<not> (byte_val c < 32 \<or> byte_val c = 127)"
  using assms escape_user_chars
  by (auto simp: userinfo_String_def split: option.splits if_splits)

lemma authority_text_chars:
  assumes "sip_uri_wf u" "c \<in> set (authority_text u)"
  shows "c \<noteq> CHR ''?'' \<and> c \<noteq> CHR ''#'' \<and> \<not> (byte_val c < 32 \<or> byte_val c = 127)"
proof -
  have h: "c \<noteq> CHR ''?'' \<and> c \<noteq> CHR ''#'' \<and> \<not> (byte_val c < 32 \<or> byte_val c = 127)"
    if "c \<in> set (u_Host u)" for c
    using assms(1) that ctl_byte [of c encodeHost] by (auto simp: sip_uri_wf_def host_wf_def)
  have "c \<noteq> CHR ''?'' \<and> c \<noteq> CHR ''#'' \<and> \<not> (byte_val c < 32 \<or> byte_val c = 127)"
    if "c \<in> set (u_RawParameter u)" for c
    using assms(1) that by (auto simp: sip_uri_wf_def text_wf_def stringContainsCTLByte_def)
  with h assms(2) userinfo_String_chars [of c "u_User u"] show ?thesis
    by (auto simp: authority_text_def hostport_text_def byte_val_def split: option.splits if_splits)
qed

lemma hd_append_ne: "d \<notin> set a \<Longrightarrow> c \<noteq> d \<Longrightarrow> hd (a @ c # x) \<noteq> d"
  by (cases a) auto

lemma authority_text_slash:
  assumes "sip_uri_wf u" shows "\<not> HasPrefix (authority_text u) ''/''"
proof -
  have "CHR ''/'' \<notin> set (u_Host u)" using assms by (auto simp: sip_uri_wf_def host_wf_def)
  moreover have "CHR ''/'' \<notin> set (userinfo_String v)" for v
    using userinfo_String_chars by blast
  moreover have "hd (u_Host u) \<noteq> CHR ''/''" if "u_Host u \<noteq> []"
    using that calculation(1) hd_in_set by metis
  ultimately show ?thesis
    using hd_append_ne [of "CHR ''/''"]
    by (auto simp: authority_text_def hostport_text_def split: option.splits if_splits)
qed

lemma split_query_text:
  assumes "sip_uri_wf u"
  shows "split_query (authority_text u @ query_text u)
    = (u_ForceQuery u, authority_text u, u_RawQuery u)"
proof -
  let ?a = "authority_text u" and ?q = "u_RawQuery u"
  have a: "CHR ''?'' \<notin> set ?a" using authority_text_chars [OF assms] by blast
  then have c: "CountByte (?a @ CHR ''?'' # ?q) (CHR ''?'') = Suc (CountByte ?q (CHR ''?''))"
    by simp
  show ?thesis
  proof (cases "?q = []")
    case True
    with a c show ?thesis
      by (auto simp: split_query_def query_text_def HasSuffix_def CountByte_def)
  next
    case False
    then have "\<not> u_ForceQuery u" using assms by (auto simp: sip_uri_wf_def)
    moreover have "\<not> (HasSuffix (?a @ CHR ''?'' # ?q) ''?'' \<and> CountByte ?q (CHR ''?'') = 0)"
    proof
      assume h: "HasSuffix (?a @ CHR ''?'' # ?q) ''?'' \<and> CountByte ?q (CHR ''?'') = 0"
      then have "last ?q = CHR ''?''"
        using False by (cases ?q rule: rev_cases) (auto simp: HasSuffix_def)
      with False h show False using last_in_set by fastforce
    qed
    ultimately show ?thesis
      using a c False by (simp add: split_query_def query_text_def)
  qed
qed

lemma parse_uri_String:
  assumes w: "sip_uri_wf u"
  shows "parse_uri (uri_String u) False = Inr u"
proof -
  have s: "c \<noteq> CHR ''#'' \<and> \<not> (byte_val c < 32 \<or> byte_val c = 127)" if "c \<in> set (u_Scheme u)" for c
    using w that by (auto simp: sip_uri_wf_def scheme_wf_def is_lower_def is_digit_def byte_val_def)
  have "\<not> (byte_val c < 32 \<or> byte_val c = 127)" if "c \<in> set (query_text u)" for c
    using w that
    by (auto simp: sip_uri_wf_def text_wf_def stringContainsCTLByte_def query_text_def byte_val_def
        split: if_splits)
  then have ctl: "\<not> stringContainsCTLByte (uri_String u)"
    using s authority_text_chars [OF w]
    by (auto simp: stringContainsCTLByte_def uri_String_sip [OF w])
  have ne: "uri_String u \<noteq> ''*''"
    using w by (cases "u_Scheme u") (auto simp: uri_String_sip [OF w] sip_uri_wf_def scheme_wf_def)
  have "getscheme (uri_String u) = Inr (u_Scheme u, authority_text u @ query_text u)"
    using w by (simp add: uri_String_sip [OF w] getscheme_wf sip_uri_wf_def)
  moreover have "new_uri\<lparr>u_Scheme := ToLower (u_Scheme u), u_ForceQuery := u_ForceQuery u,
      u_RawQuery := u_RawQuery u, u_User := u_User u, u_Host := u_Host u,
      u_RawParameter := u_RawParameter u\<rparr> = u"
    using w by (cases u) (simp add: new_uri_def sip_uri_wf_def)
  ultimately show ?thesis
    using ctl ne split_query_text [OF w] parseAuthority_text [OF w] authority_text_slash [OF w]
    by (simp add: parse_uri_def del: HasPrefix_single)
qed

lemma Parse_String:
  assumes w: "sip_uri_wf u" shows "Parse (uri_String u) = Inr u"
proof -
  have "CHR ''#'' \<notin> set (u_Scheme u)"
    using w by (auto simp: sip_uri_wf_def scheme_wf_def is_lower_def is_digit_def byte_val_def)
  moreover have "CHR ''#'' \<notin> set (query_text u)"
    using w by (auto simp: sip_uri_wf_def text_wf_def query_text_def)
  ultimately have "CHR ''#'' \<notin> set (uri_String u)"
    using authority_text_chars [OF w] by (auto simp: uri_String_sip [OF w])
  then show ?thesis by (simp add: Parse_def parse_uri_String [OF w])
qed

lemma uri_Clone_id:
  "(case u_User u of None \<Rightarrow> True | Some ui \<Rightarrow> ui_passwordSet ui \<or> ui_password ui = []) \<Longrightarrow>
     uri_Clone (Some u) = Some u"
  by (cases u) (auto simp: uri_Clone_def url_User_def url_UserPassword_def split: option.splits)

end
