(* ===== verification/Uri_Props.thy ===== *)
theory Uri_Props
  imports Uri
begin

text \<open>
  The properties of the URI component: percent-encoding in every mode, the round trip
  through \<open>String\<close> and \<open>Parse\<close>, what printing forgets, and the removal of dot segments.
\<close>

section \<open>Percent-encoding\<close>

text \<open>
  C29: For every string and mode, \<open>unescape\<close> of \<open>escape\<close> gives the string back, unless it has a
  byte the mode cannot express (a host or zone byte whose escape the decoder refuses); then
  the error names the escape of the first such byte.
\<close>

theorem unescape_escape_total:
  "unescape (escape s mode) mode =
     (case find (\<lambda>c. \<not> escapable mode c) s of
        None \<Rightarrow> Inr s | Some d \<Rightarrow> Inl (EscapeError (esc_char mode d)))"
proof (cases "find (\<lambda>c. \<not> escapable mode c) s")
  case None
  then have "\<forall>c \<in> set s. escapable mode c" by (simp add: find_None_iff)
  then show ?thesis by (simp add: None unescape_escape)
next
  case (Some d)
  then obtain i where i: "i < length s" "\<not> escapable mode (s ! i)" "d = s ! i"
      "\<forall>j < i. escapable mode (s ! j)"
    by (auto simp: find_Some_iff)
  then have "s = take i s @ d # drop (Suc i) s" "\<forall>c \<in> set (take i s). escapable mode c"
    by (auto simp: id_take_nth_drop in_set_conv_nth)
  then show ?thesis using Some i unescape_escape_error by (metis option.simps(5))
qed

text \<open>
  C30: Whatever way \<open>escape\<close> takes through its counters, its output is the bytes of the input
  encoded one after the other, and the only bytes in it that would need an escape in this mode
  are the percent sign and, in the query mode, the plus sign.
\<close>

theorem escape_bytewise:
  "escape s mode = concat (map (esc_char mode) s) \<and>
     {d \<in> set (escape s mode). shouldEscape d mode}
       \<subseteq> (if mode = encodeQueryComponent then {CHR ''%'', CHR ''+''} else {CHR ''%''})"
  using escape_ref [of s mode] escape_set [of _ s mode] by auto

section \<open>Printing and parsing\<close>

text \<open>
  C28: A SIP URI (scheme, optional user information, host and port, parameters, query) is
  parsed back to itself from its printed form, and its copy is the same URI.
\<close>

theorem uri_round_trip:
  "sip_uri_wf u \<Longrightarrow> Parse (uri_String u) = Inr u \<and> uri_Clone (Some u) = Some u"
  using Parse_String [of u] uri_Clone_id [of u] by (simp add: sip_uri_wf_def)

definition sample_uri :: uri where
  "sample_uri = new_uri\<lparr>u_Scheme := ''sip'', u_User := Some \<lparr>ui_username = ''alice b'', ui_password = [],
     ui_passwordSet = False\<rparr>, u_Host := ''example.com:5060'', u_RawParameter := ''transport=udp'',
     u_RawQuery := ''subject=x''\<rparr>"

theorem uri_round_trip_witness:
  "Parse ''sip:alice%20b@example.com:5060;transport=udp?subject=x'' = Inr sample_uri"
proof -
  have "sip_uri_wf sample_uri" by code_simp
  moreover have "uri_String sample_uri = ''sip:alice%20b@example.com:5060;transport=udp?subject=x''"
    by code_simp
  ultimately show ?thesis using uri_round_trip [of sample_uri] by simp
qed

text \<open>
  Printing forgets the fragment: the escaped fragment that \<open>String\<close> appends is that of the
  embedded \<open>net/url\<close> value, which stays empty, so URIs that differ in their fragment print
  alike up to a bare number sign.
\<close>

theorem uri_String_fragment:
  "uri_String (u\<lparr>u_Fragment := f, u_RawFragment := g\<rparr>) =
     uri_String (u\<lparr>u_Fragment := [], u_RawFragment := []\<rparr>) @ (if f = [] then [] else ''#'')"
proof -
  have "EscapedPath (u\<lparr>u_Fragment := a, u_RawFragment := b\<rparr>) = EscapedPath u" for a b
    by (simp add: EscapedPath_def)
  then show ?thesis
    by (cases "f = []")
      (simp_all add: uri_String_def embedded_EscapedFragment_def Let_def cong: if_cong split del: if_split)
qed

section \<open>Dot segments\<close>

lemma resolve_step_dots:
  "{''.'', ''..''} \<inter> set dst = {} \<Longrightarrow> {''.'', ''..''} \<inter> set (resolve_step dst e) = {}"
  by (auto simp: resolve_step_def dest: in_set_butlastD)

lemma resolve_fold_dots:
  "{''.'', ''..''} \<inter> set dst = {} \<Longrightarrow> {''.'', ''..''} \<inter> set (foldl resolve_step dst src) = {}"
proof (induction src arbitrary: dst)
  case (Cons e src)
  then show ?case using resolve_step_dots [of dst e] Cons.IH [of "resolve_step dst e"] by simp
qed simp

lemma resolve_fold_sub: "set (foldl resolve_step dst src) \<subseteq> set dst \<union> set src"
proof (induction src arbitrary: dst)
  case (Cons e src)
  have "set (resolve_step dst e) \<subseteq> set dst \<union> {e}"
    by (auto simp: resolve_step_def dest: in_set_butlastD)
  then show ?case using Cons [of "resolve_step dst e"] by auto
qed simp

text \<open>
  C31: A resolved path is empty or absolute, and none of its segments is a dot or a double dot.
\<close>

theorem resolvePath_no_dots:
  "resolvePath base ref \<in> {[]} \<union> range (Cons (CHR ''/'')) \<and>
     set (Split (resolvePath base ref) (CHR ''/'')) \<inter> {''.'', ''..''} = {}"
proof -
  have "set (Split (CHR ''/'' # (if HasPrefix j ''/'' then drop 1 j else j)) (CHR ''/''))
      \<inter> {''.'', ''..''} = {}"
    if "j = Join dst ''/''" and "dst = foldl resolve_step [] src \<or> dst = foldl resolve_step [] src @ [[]]"
      and "src = Split full (CHR ''/'')" for j dst src full
  proof -
    have d: "{''.'', ''..''} \<inter> set dst = {}" "\<forall>x \<in> set dst. CHR ''/'' \<notin> set x"
      using resolve_fold_dots [of "[]" src] resolve_fold_sub [of "[]" src] that Split_segment by fastforce+
    have "set (Split j (CHR ''/'')) \<inter> {''.'', ''..''} = {}"
      using d that(1) by (cases "dst = []") (auto simp: Split_Join)
    then show ?thesis by (cases j) auto
  qed
  note dots = this
  define full where "full = (if ref = [] then base else if hd ref \<noteq> CHR ''/'' then
      (case LastIndexByte base (CHR ''/'') of None \<Rightarrow> ref | Some i \<Rightarrow> take (Suc i) base @ ref) else ref)"
  define src where "src = Split full (CHR ''/'')"
  define dst where "dst = foldl resolve_step [] src"
  define dst' where "dst' = (if last src = ''.'' \<or> last src = ''..'' then dst @ [[]] else dst)"
  have "resolvePath base ref = (if full = [] then []
      else CHR ''/'' # (if HasPrefix (Join dst' ''/'') ''/'' then drop 1 (Join dst' ''/'') else Join dst' ''/''))"
    by (simp only: resolvePath_def Let_def full_def src_def dst_def dst'_def)
  moreover have "dst' = foldl resolve_step [] src \<or> dst' = foldl resolve_step [] src @ [[]]"
    by (simp add: dst'_def dst_def)
  ultimately show ?thesis using dots [OF refl _ src_def, of dst'] by (auto split del: if_split split: if_split_asm)
qed

end
