(* ===== verification/HeaderKey.thy ===== *)
theory HeaderKey
  imports Sip_Prelude
begin

text \<open>
  Header field names, from \<open>src/sip/reader.go\<close>: the token bytes, the canonical spelling of
  a field name, the table of common names and the table of compact forms, and the
  operations of \<open>http.Header\<close>, which canonicalise the name they are given. The lemmas show
  that the quick check and the interning table never change the result, that
  canonicalisation is idempotent and ignores the case of its input.
\<close>

section \<open>Tokens\<close>

definition isTokenTable :: "char \<Rightarrow> bool" where
  "isTokenTable c \<longleftrightarrow> is_alnum c \<or> c \<in> set (''!#$%&'' @ [CHR 0x27] @ ''*+-.^_'' @ [CHR 0x60] @ ''|~'')"

definition validHeaderFieldByte :: "char \<Rightarrow> bool" where
  "validHeaderFieldByte b \<longleftrightarrow> byte_val b < 127 \<and> isTokenTable b"

definition validToken :: "string \<Rightarrow> bool" where
  "validToken s \<longleftrightarrow> (\<forall>c \<in> set s. validHeaderFieldByte c)"

definition isTokenBoundary :: "char \<Rightarrow> bool" where
  "isTokenBoundary b \<longleftrightarrow> b = CHR '' '' \<or> b = CHR '','' \<or> b = CHR 0x09"

definition isASCIILetter :: "char \<Rightarrow> bool" where
  "isASCIILetter b \<longleftrightarrow> 97 \<le> or (byte_val b) 32 \<and> or (byte_val b) 32 \<le> 122"

section \<open>Canonical names\<close>

definition common_names :: "string list" where
  "common_names = [''Accept'', ''Accept-Encoding'', ''Accept-Language'', ''Alert-Info'', ''Allow'',
     ''Authentication-Info'', ''Authorization'', ''Call-ID'', ''Call-Info'', ''Contact'',
     ''Content-Disposition'', ''Content-Encoding'', ''Content-Language'', ''Content-Length'',
     ''Content-Type'', ''CSeq'', ''Date'', ''Error-Info'', ''Expires'', ''From'', ''In-Reply-To'',
     ''Max-Forwards'', ''MIME-Version'', ''Min-Expires'', ''Organization'', ''Priority'',
     ''Proxy-Authenticate'', ''Proxy-Authorization'', ''Proxy-Require'', ''Record-Route'',
     ''Reply-To'', ''Require'', ''Retry-After'', ''Route'', ''Server'', ''Subject'', ''Supported'',
     ''Timestamp'', ''To'', ''Unsupported'', ''User-Agent'', ''Via'', ''Warning'',
     ''WWW-Authenticate'']"

definition commonHeader :: "string \<Rightarrow> string" where
  "commonHeader k = (if k \<in> set common_names then k else [])"

text \<open>The loop that rewrites the bytes: \<open>upper\<close> says that a word starts.\<close>

fun canonical_loop :: "bool \<Rightarrow> string \<Rightarrow> string" where
  "canonical_loop upper [] = []"
| "canonical_loop upper (c # a) =
     (let c' = (if upper \<and> is_lower c then byte_of (byte_val c - 32)
                else if \<not> upper \<and> is_upper c then byte_of (byte_val c + 32) else c)
      in c' # canonical_loop (c' = CHR ''-'') a)"

definition canonicalMIMEHeaderKey :: "string \<Rightarrow> string" where
  "canonicalMIMEHeaderKey a =
     (if \<exists>c \<in> set a. \<not> validHeaderFieldByte c then a
      else
        (let k = canonical_loop True a in
         if commonHeader k \<noteq> [] then commonHeader k else k))"

text \<open>The exported function scans for a byte that needs a change before it copies.\<close>

fun canonical_scan :: "string \<Rightarrow> bool \<Rightarrow> string \<Rightarrow> string" where
  "canonical_scan s upper [] = s"
| "canonical_scan s upper (c # r) =
     (if \<not> validHeaderFieldByte c then s
      else if upper \<and> is_lower c then canonicalMIMEHeaderKey s
      else if \<not> upper \<and> is_upper c then canonicalMIMEHeaderKey s
      else canonical_scan s (c = CHR ''-'') r)"

definition CanonicalMIMEHeaderKey :: "string \<Rightarrow> string" where
  "CanonicalMIMEHeaderKey s = canonical_scan s True s"

text \<open>Long names of the compact forms, by the code of the letter.\<close>

definition translateCompactForm :: "int \<Rightarrow> string" where
  "translateCompactForm c =
     (case map_of
        [(97, ''Accept-Contact''), (98, ''Referred-By''), (99, ''Content-Type''),
         (100, ''Request-Disposition''), (101, ''Content-Encoding''), (102, ''From''),
         (105, ''Call-Id''), (106, ''Reject-Contact''), (107, ''Supported''),
         (108, ''Content-Length''), (109, ''Contact''), (111, ''Event''), (114, ''Refer-To''),
         (115, ''Subject''), (116, ''To''), (117, ''Allow-Events''), (118, ''Via''),
         (120, ''Session-Expires''), (121, ''Identity'')] c of
        None \<Rightarrow> [] | Some n \<Rightarrow> n)"

section \<open>http.Header\<close>

definition hdr_Values :: "kvs \<Rightarrow> string \<Rightarrow> string list" where
  "hdr_Values h k = kv_values h (CanonicalMIMEHeaderKey k)"

definition hdr_Get :: "kvs \<Rightarrow> string \<Rightarrow> string" where
  "hdr_Get h k = kv_get h (CanonicalMIMEHeaderKey k)"

definition hdr_Add :: "kvs \<Rightarrow> string \<Rightarrow> string \<Rightarrow> kvs" where
  "hdr_Add h k v = kv_add h (CanonicalMIMEHeaderKey k) v"

definition hdr_Set :: "kvs \<Rightarrow> string \<Rightarrow> string \<Rightarrow> kvs" where
  "hdr_Set h k v = kv_set h (CanonicalMIMEHeaderKey k) v"

definition hdr_Del :: "kvs \<Rightarrow> string \<Rightarrow> kvs" where
  "hdr_Del h k = kv_del h (CanonicalMIMEHeaderKey k)"

section \<open>Lemmas\<close>

lemma canonicalMIMEHeaderKey_eq:
  "canonicalMIMEHeaderKey a = (if validToken a then canonical_loop True a else a)"
  by (auto simp: canonicalMIMEHeaderKey_def validToken_def commonHeader_def Let_def)

lemma canonical_scan_loop:
  "\<forall>c \<in> set r. validHeaderFieldByte c \<Longrightarrow>
     canonical_scan s upper r = (if canonical_loop upper r = r then s else canonicalMIMEHeaderKey s)"
proof (induction s upper r rule: canonical_scan.induct)
  case (2 s upper c r)
  have "byte_of (byte_val c - 32) \<noteq> c" if "is_lower c"
    using that byte_val_less [of c] by (auto simp: is_lower_def simp flip: byte_val_inject)
  moreover have "byte_of (byte_val c + 32) \<noteq> c" if "is_upper c"
    using that by (auto simp: is_upper_def simp flip: byte_val_inject)
  ultimately show ?case
    using 2 by (auto simp: Let_def)
qed simp

lemma canonical_loop_id_key:
  "validToken s \<Longrightarrow> canonical_loop True s = s \<Longrightarrow> canonicalMIMEHeaderKey s = s"
  by (simp add: canonicalMIMEHeaderKey_eq)

lemma CanonicalMIMEHeaderKey_eq: "CanonicalMIMEHeaderKey s = canonicalMIMEHeaderKey s"
proof (cases "validToken s")
  case True
  then show ?thesis
    using canonical_scan_loop [of s s True] canonical_loop_id_key [OF True]
    by (simp add: CanonicalMIMEHeaderKey_def validToken_def)
next
  case False
  then have "canonicalMIMEHeaderKey s = s" by (simp add: canonicalMIMEHeaderKey_eq)
  moreover have "canonical_scan s u r \<in> {s, canonicalMIMEHeaderKey s}" for u r
    by (induction s u r rule: canonical_scan.induct) auto
  ultimately show ?thesis by (auto simp: CanonicalMIMEHeaderKey_def)
qed

lemma validHeaderFieldByte_iff: "validHeaderFieldByte c \<longleftrightarrow> isTokenTable c"
proof -
  have "byte_val c < 127" if "isTokenTable c"
    using that by (auto simp: isTokenTable_def is_alnum_def is_lower_def is_upper_def is_digit_def
        byte_val_def)
  then show ?thesis by (auto simp: validHeaderFieldByte_def)
qed

lemma validHeaderFieldByte_alnum [simp]: "is_alnum c \<Longrightarrow> validHeaderFieldByte c"
  by (simp add: validHeaderFieldByte_iff isTokenTable_def)

lemma case_shift_alnum:
  "is_lower c \<Longrightarrow> is_alnum (byte_of (byte_val c - 32))"
  "is_upper c \<Longrightarrow> is_alnum (byte_of (byte_val c + 32))"
  by (auto simp: is_alnum_def is_lower_def is_upper_def)

lemma canonical_loop_token: "validToken a \<Longrightarrow> validToken (canonical_loop upper a)"
  by (induction upper a rule: canonical_loop.induct)
    (auto simp: validToken_def Let_def case_shift_alnum)

lemma canonical_loop_idem: "canonical_loop upper (canonical_loop upper a) = canonical_loop upper a"
  by (induction upper a rule: canonical_loop.induct)
    (auto simp: Let_def is_lower_def is_upper_def)

lemma canonicalMIMEHeaderKey_idem:
  "canonicalMIMEHeaderKey (canonicalMIMEHeaderKey a) = canonicalMIMEHeaderKey a"
  by (simp add: canonicalMIMEHeaderKey_eq canonical_loop_token canonical_loop_idem)

text \<open>The loop sees a byte only through its lower-case form.\<close>

lemma canonical_loop_lower: "canonical_loop upper (ToLower a) = canonical_loop upper a"
proof (induction upper a rule: canonical_loop.induct)
  case (2 upper c a)
  have "ascii_lower c = CHR ''-'' \<longleftrightarrow> c = CHR ''-''"
    by (auto simp: ascii_lower_def is_upper_def simp flip: byte_val_inject)
  with 2 show ?case
    by (auto simp: ToLower_def Let_def ascii_lower_def is_lower_def is_upper_def)
qed (simp add: ToLower_def)

lemma validHeaderFieldByte_lower: "validHeaderFieldByte (ascii_lower c) = validHeaderFieldByte c"
proof (cases "is_upper c")
  case True
  then have "is_alnum c" "is_alnum (ascii_lower c)"
    by (auto simp: is_alnum_def ascii_lower_def is_lower_def is_upper_def)
  then show ?thesis by simp
qed simp

lemma canonicalMIMEHeaderKey_case:
  assumes "validToken a" and "ToLower a = ToLower b"
  shows "canonicalMIMEHeaderKey a = canonicalMIMEHeaderKey b"
proof -
  have "validToken x = validToken (ToLower x)" for x
    by (simp add: validToken_def ToLower_def validHeaderFieldByte_lower)
  then have "validToken b" using assms by metis
  then show ?thesis
    using assms canonical_loop_lower by (metis canonicalMIMEHeaderKey_eq)
qed

end
