(* ===== verification/Headers.thy ===== *)
theory Headers
  imports Uri HeaderKey
begin

text \<open>
  The typed SIP header values of \<open>src/sip/header.go\<close> (name-addr, To and From, Via, CSeq,
  Call-ID, Max-Forwards, Contact) and \<open>ParseSIPVersion\<close> of \<open>src/sip/helper.go\<close>: records,
  constructors, parsers and printers. A pointer field that may be nil is an option; a
  parser that indexes without a check returns in the panic monad \<^typ>\<open>'a run\<close>.
\<close>

definition blk :: string where
  "blk = [CHR '' '', CHR 0x09, CHR 0x0D, CHR 0x0A]"

datatype protocol_error =
    ErrMissingMandatoryHeader
  | ErrHeaderParseError
  | ErrMalformedMessage
  | ErrTransactionUnexpectedMessage
  | ErrTransactionTimedOut
  | ErrTransactionClosed
  | ErrTransactionDuplicated
  | ErrStatusError
  | Non2XXResponse int

section \<open>SIP versions\<close>

text \<open>\<open>vers[5:dot]\<close> is a slice expression: it panics when the dot stands at index 4.\<close>

definition ParseSIPVersion :: "string \<Rightarrow> (int \<times> int \<times> bool) run" where
  "ParseSIPVersion vers =
     (if vers = ''SIP/2.0'' then Inr (2, 0, True)
      else if \<not> HasPrefix vers ''SIP/'' then Inr (0, 0, False)
      else (case IndexByte vers (CHR ''.'') of
          None \<Rightarrow> Inr (0, 0, False)
        | Some dot \<Rightarrow>
            bindR (slice vers 5 dot) (\<lambda>ma.
              case Atoi ma of
                None \<Rightarrow> Inr (0, 0, False)
              | Some major \<Rightarrow>
                  (if major < 0 \<or> major > 1000000 then Inr (0, 0, False)
                   else (case Atoi (drop (Suc dot) vers) of
                       None \<Rightarrow> Inr (0, 0, False)
                     | Some minor \<Rightarrow>
                         (if minor < 0 \<or> minor > 1000000 then Inr (0, 0, False)
                          else Inr (major, minor, True)))))))"

section \<open>Name addresses\<close>

record name_addr =
  na_DisplayName :: string
  na_Uri :: "uri option"

definition name_addr_Clone :: "name_addr \<Rightarrow> name_addr" where
  "name_addr_Clone addr = \<lparr>na_DisplayName = na_DisplayName addr, na_Uri = uri_Clone (na_Uri addr)\<rparr>"

definition name_addr_String :: "name_addr option \<Rightarrow> string run" where
  "name_addr_String a =
     bindR (deref a) (\<lambda>addr.
     bindR (deref (na_Uri addr)) (\<lambda>uri.
       let noDisplayName = (na_DisplayName addr = []);
           noUriParameters = (u_RawParameter uri = []);
           noSpecial = (validToken (userinfo_String (u_User uri)) \<and> validToken (u_Host uri));
           bracketed = ''<'' @ uri_String uri @ ''>''
       in if noDisplayName \<and> noUriParameters then
            Inr (if \<not> noSpecial then bracketed else uri_String uri)
          else if noDisplayName then Inr bracketed
          else Inr ((if \<not> validToken (na_DisplayName addr)
                     then [CHR 0x22] @ na_DisplayName addr @ [CHR 0x22]
                     else na_DisplayName addr) @ '' '' @ bracketed)))"

definition NewNameAddr :: "string \<Rightarrow> uri option \<Rightarrow> name_addr" where
  "NewNameAddr display uri = \<lparr>na_DisplayName = Trim display blk, na_Uri = uri\<rparr>"

definition NewNameAddrUriString :: "string \<Rightarrow> string \<Rightarrow> name_addr option" where
  "NewNameAddrUriString display uristr =
     (case Parse (Trim uristr blk) of
        Inl _ \<Rightarrow> None
      | Inr uri \<Rightarrow> Some (NewNameAddr display (Some uri)))"

text \<open>
  The scanning loop of \<open>ParseNameAddr\<close> over the bytes from \<open>idx\<close> on, with the variables
  \<open>de\<close> (None for -1), \<open>us\<close>, \<open>ue\<close>, \<open>innerLtGt\<close>, \<open>innerQuated\<close> and \<open>pc\<close>.
\<close>

fun name_addr_loop :: "string \<Rightarrow> nat \<Rightarrow> nat option \<Rightarrow> nat \<Rightarrow> nat \<Rightarrow> bool \<Rightarrow> bool \<Rightarrow> char
    \<Rightarrow> nat option \<times> nat \<times> nat \<times> bool \<times> bool" where
  "name_addr_loop [] idx de us ue lt q pc = (de, us, ue, lt, q)"
| "name_addr_loop (c # s) idx de us ue lt q pc =
     (if c = CHR ''<'' \<and> \<not> q \<and> \<not> lt then name_addr_loop s (Suc idx) (Some idx) (Suc idx) ue True q c
      else if c = CHR ''>'' \<and> \<not> q \<and> lt then (de, us, idx, False, q)
      else if c = CHR 0x22 \<and> pc \<noteq> CHR 0x5C then name_addr_loop s (Suc idx) de us ue lt (\<not> q) c
      else name_addr_loop s (Suc idx) de us ue lt q c)"

definition ParseNameAddr :: "string \<Rightarrow> name_addr option \<times> string" where
  "ParseNameAddr s =
     (let (de, us, ue, innerLtGt, innerQuated) =
        name_addr_loop s 0 None 0 (length s) False False (CHR 0x00);
        display = (case de of None \<Rightarrow> [] | Some d \<Rightarrow> if 0 < d then Trim (take d s) (CHR '' '' # [CHR 0x22]) else []);
        uriStr = (if us < ue then Trim (drop us (take ue s)) '' <>'' else [])
      in if innerQuated \<or> innerLtGt then (None, [])
         else (NewNameAddrUriString display uriStr, TrimLeft (drop ue s) '' <>''))"

section \<open>To and From\<close>

record to_header =
  to_Addr :: "name_addr option"
  to_RawParameter :: string

definition to_Clone :: "to_header \<Rightarrow> to_header" where
  "to_Clone t = \<lparr>to_Addr = map_option name_addr_Clone (to_Addr t), to_RawParameter = to_RawParameter t\<rparr>"

definition to_String :: "to_header \<Rightarrow> string run" where
  "to_String t =
     bindR (name_addr_String (to_Addr t)) (\<lambda>s.
       Inr (if to_RawParameter t = [] then s else s @ '';'' @ to_RawParameter t))"

definition to_Parameter :: "to_header \<Rightarrow> kvs" where
  "to_Parameter t = ParseQuery (to_RawParameter t)"

definition NewToHeader :: "name_addr option \<Rightarrow> string \<Rightarrow> to_header" where
  "NewToHeader addr rawParam = \<lparr>to_Addr = addr, to_RawParameter = Trim rawParam (blk @ '';'')\<rparr>"

definition NewToHeaderFromString :: "string \<Rightarrow> string \<Rightarrow> string \<Rightarrow> to_header option" where
  "NewToHeaderFromString display uri rawParam =
     (case NewNameAddrUriString display uri of
        None \<Rightarrow> None | Some addr \<Rightarrow> Some (NewToHeader (Some addr) rawParam))"

definition NewFromHeader :: "name_addr option \<Rightarrow> string \<Rightarrow> to_header" where
  "NewFromHeader addr rawParam = NewToHeader addr rawParam"

definition NewFromHeaderFromString :: "string \<Rightarrow> string \<Rightarrow> string \<Rightarrow> to_header option" where
  "NewFromHeaderFromString display uri rawParam = NewToHeaderFromString display uri rawParam"

definition ParseFrom :: "string \<Rightarrow> to_header" where
  "ParseFrom s =
     (let (nameAddr, rawParam) = ParseNameAddr s in NewToHeader nameAddr (Trim rawParam '' ;''))"

definition ParseTo :: "string \<Rightarrow> to_header" where
  "ParseTo s = ParseFrom s"

section \<open>Via\<close>

record via =
  via_SentProtocol :: string
  via_SentBy :: string
  via_RawParameter :: string

definition via_Clone :: "via \<Rightarrow> via" where
  "via_Clone v = \<lparr>via_SentProtocol = via_SentProtocol v, via_SentBy = via_SentBy v,
     via_RawParameter = via_RawParameter v\<rparr>"

definition via_Parameter :: "via \<Rightarrow> kvs" where
  "via_Parameter v = ParseQuery (via_RawParameter v)"

definition via_Protocol :: "via \<Rightarrow> (protocol_error + string \<times> int \<times> int \<times> string) run" where
  "via_Protocol v =
     (case SplitN (via_SentProtocol v) (CHR ''/'') 3 of
        [p0, p1, p2] \<Rightarrow>
          bindR (ParseSIPVersion (p0 @ ''/'' @ p1)) (\<lambda>(verMajor, verMinor, ok).
            if \<not> ok then Inr (Inl ErrHeaderParseError)
            else Inr (Inr (ToLower p0, verMajor, verMinor, ToLower p2)))
      | _ \<Rightarrow> Inr (Inl ErrHeaderParseError))"

definition via_SetProtocol :: "via \<Rightarrow> string \<Rightarrow> int \<Rightarrow> int \<Rightarrow> string \<Rightarrow> via \<times> string" where
  "via_SetProtocol v name verMajor verMinor tran =
     (let result = ToUpper name @ ''/'' @ Itoa verMajor @ ''.'' @ Itoa verMinor @ ''/'' @ ToUpper tran
      in (v\<lparr>via_SentProtocol := result\<rparr>, result))"

definition via_String :: "via \<Rightarrow> string" where
  "via_String v =
     (let param = (if via_RawParameter v \<noteq> [] then '';'' @ via_RawParameter v else [])
      in via_SentProtocol v @ '' '' @ via_SentBy v @ param)"

definition NewViaHeader :: "string \<Rightarrow> string \<Rightarrow> string \<Rightarrow> via" where
  "NewViaHeader proto sent_by param =
     \<lparr>via_SentProtocol = Trim proto blk, via_SentBy = Trim sent_by blk,
      via_RawParameter = Trim param (blk @ '';'')\<rparr>"

definition NewViaHeaderUDP :: "string \<Rightarrow> string \<Rightarrow> via" where
  "NewViaHeaderUDP sent_by param = NewViaHeader ''SIP/2.0/UDP'' sent_by param"

definition NewViaHeaderTCP :: "string \<Rightarrow> string \<Rightarrow> via" where
  "NewViaHeaderTCP sent_by param = NewViaHeader ''SIP/2.0/TCP'' sent_by param"

text \<open>
  \<open>ViaHeaders\<close>: the slice holds the values in reverse, so that the topmost one is last.
  \<open>Insert\<close> adds on top, \<open>Append\<close> at the bottom.
\<close>

type_synonym via_headers = "via list"

definition NewViaHeaders :: via_headers where
  "NewViaHeaders = []"

definition ViaHeaders_Clone :: "via_headers \<Rightarrow> via_headers" where
  "ViaHeaders_Clone v = map via_Clone v"

definition ViaHeaders_Insert :: "via_headers \<Rightarrow> via \<Rightarrow> via_headers" where
  "ViaHeaders_Insert v x = v @ [x]"

definition ViaHeaders_Append :: "via_headers \<Rightarrow> via \<Rightarrow> via_headers" where
  "ViaHeaders_Append v x = [x] @ v"

definition ViaHeaders_Length :: "via_headers \<Rightarrow> nat" where
  "ViaHeaders_Length v = length v"

definition ViaHeaders_Get :: "via_headers \<Rightarrow> int \<Rightarrow> via option" where
  "ViaHeaders_Get v index =
     (let lastindex = int (length v) - 1 in
      if index > lastindex \<or> index < 0 then None else Some (v ! nat (lastindex - index)))"

definition ViaHeaders_TopMost :: "via_headers \<Rightarrow> via option" where
  "ViaHeaders_TopMost v = ViaHeaders_Get v 0"

definition ViaHeaders_Pop :: "via_headers \<Rightarrow> via option \<times> via_headers" where
  "ViaHeaders_Pop v =
     (if ViaHeaders_Length v = 0 then (None, v)
      else (ViaHeaders_Get v 0, take (ViaHeaders_Length v - 1) v))"

definition ViaHeaders_WriteHeader :: "bool \<Rightarrow> via_headers \<Rightarrow> string" where
  "ViaHeaders_WriteHeader compact v =
     (let key = (if compact then ''v: '' else ''Via: '')
      in concat (map (\<lambda>x. key @ via_String x @ [CHR 0x0D, CHR 0x0A]) (rev v)))"

text \<open>
  \<open>ParseVias\<close>. \<open>via_params_end\<close> is the second loop: the index of the first comma outside
  quotes. The recursion is on the text after that comma; the third Go parameter is not nil
  at any call.
\<close>

fun via_sent_end :: "string \<Rightarrow> nat" where
  "via_sent_end [] = 0"
| "via_sent_end (c # s) = (if c = CHR '';'' \<or> c = CHR '','' then 0 else Suc (via_sent_end s))"

fun via_params_end :: "bool \<Rightarrow> string \<Rightarrow> nat" where
  "via_params_end quoted [] = 0"
| "via_params_end quoted (c # s) =
     (if c = CHR 0x22 then Suc (via_params_end (\<not> quoted) s)
      else if c = CHR '','' \<and> \<not> quoted then 0
      else Suc (via_params_end quoted s))"

lemma SplitN_2_shorter: "SplitN s c 2 = [p, r] \<Longrightarrow> length r < length s"
  by (auto simp: numeral_2_eq_2 dest: IndexByte_SomeD split: option.splits)

function ParseVias :: "string \<Rightarrow> via_headers \<Rightarrow> via_headers run" where
  "ParseVias s v =
     (if s = [] then Inr v
      else (case SplitN (Trim s blk) (CHR '' '') 2 of
          [p, r] \<Rightarrow>
            (let proto = Trim p blk;
                 s1 = Trim r blk;
                 sentby = Trim (take (via_sent_end s1) s1) blk;
                 s2 = drop (via_sent_end s1) s1;
                 i = via_params_end False s2;
                 rawParam = Trim (take i s2) (blk @ '';'');
                 trail = Trim (drop i s2) (blk @ '','')
             in ParseVias trail (ViaHeaders_Append v (NewViaHeader proto sentby rawParam)))
        | _ \<Rightarrow> Inl IndexOutOfRange))"
  by pat_completeness auto
termination
proof (relation "measure (\<lambda>(s, v). length s)", goal_cases)
  case (2 s v p rest r tl proto s1 sentby s2 i rawParam trail)
  have "length trail \<le> length r"
    using 2 length_Trim [of "drop i s2" "blk @ '',''"] length_Trim [of r blk] by simp
  also have "length r < length (Trim s blk)"
    using 2 SplitN_2_shorter by blast
  also have "\<dots> \<le> length s" by (rule length_Trim)
  finally show ?case by simp
qed simp

declare ParseVias.simps [simp del]

section \<open>CSeq\<close>

record cseq =
  cs_Sequence :: int
  cs_Method :: string

definition cseq_Clone :: "cseq \<Rightarrow> cseq" where
  "cseq_Clone c = \<lparr>cs_Sequence = cs_Sequence c, cs_Method = cs_Method c\<rparr>"

text \<open>The random number is an argument: None when the random source fails.\<close>

definition cseq_Init :: "int option \<Rightarrow> cseq \<Rightarrow> cseq \<times> bool" where
  "cseq_Init rnd c =
     (case rnd of None \<Rightarrow> (c\<lparr>cs_Sequence := 0\<rparr>, False) | Some n \<Rightarrow> (c\<lparr>cs_Sequence := n\<rparr>, True))"

text \<open>\<open>2<<31\<close> is \<open>2 ^ 32\<close>. Where the remainder is taken the sequence is not negative.\<close>

definition cseq_Increment :: "cseq \<Rightarrow> cseq \<times> int" where
  "cseq_Increment c =
     (let n = wrap64 (cs_Sequence c + 1);
          n' = (if 2 ^ 32 \<le> n then n mod 2 ^ 32 else n)
      in (c\<lparr>cs_Sequence := n'\<rparr>, n'))"

definition cseq_String :: "cseq \<Rightarrow> string" where
  "cseq_String c =
     (let n = (if 2 ^ 32 \<le> cs_Sequence c then cs_Sequence c mod 2 ^ 32 else cs_Sequence c)
      in Itoa n @ '' '' @ cs_Method c)"

definition NewCSeqHeader :: "int option \<Rightarrow> string \<Rightarrow> cseq option" where
  "NewCSeqHeader rnd method_name =
     (let (c, ok) = cseq_Init rnd \<lparr>cs_Sequence = 0, cs_Method = Trim method_name blk\<rparr>
      in if ok then Some c else None)"

definition ParseCSeq :: "string \<Rightarrow> cseq option run" where
  "ParseCSeq s =
     (let temp = SplitN (Trim s blk) (CHR '' '') 2 in
      bindR (index_at temp 0) (\<lambda>front.
      bindR (index_at temp 1) (\<lambda>rest.
        case ParseInt front of
          None \<Rightarrow> Inr None
        | Some n \<Rightarrow> Inr (Some \<lparr>cs_Sequence = n, cs_Method = Trim rest blk\<rparr>))))"

section \<open>Call-ID\<close>

record call_id =
  ci_Identifier :: string
  ci_Host :: string

definition call_id_Clone :: "call_id \<Rightarrow> call_id" where
  "call_id_Clone c = \<lparr>ci_Identifier = ci_Identifier c, ci_Host = ci_Host c\<rparr>"

definition call_id_InitH :: "string option \<Rightarrow> call_id \<Rightarrow> string \<Rightarrow> call_id \<times> bool" where
  "call_id_InitH rnd c host =
     (case rnd of None \<Rightarrow> (c, False)
      | Some r \<Rightarrow>
          (let c' = c\<lparr>ci_Identifier := r\<rparr>
           in (if host \<noteq> [] then c'\<lparr>ci_Host := host\<rparr> else c', True)))"

definition call_id_Init :: "string option \<Rightarrow> call_id \<Rightarrow> call_id \<times> bool" where
  "call_id_Init rnd c = call_id_InitH rnd c []"

definition call_id_String :: "call_id \<Rightarrow> string" where
  "call_id_String c =
     (if ci_Host c \<noteq> [] then ci_Identifier c @ ''@'' @ ci_Host c else ci_Identifier c)"

definition NewCallIDHeaderWithAddr :: "string option \<Rightarrow> string \<Rightarrow> call_id" where
  "NewCallIDHeaderWithAddr rnd localAddr =
     fst (call_id_InitH rnd \<lparr>ci_Identifier = [], ci_Host = []\<rparr> (Trim localAddr blk))"

definition NewCallIDHeader :: "string option \<Rightarrow> call_id" where
  "NewCallIDHeader rnd = NewCallIDHeaderWithAddr rnd []"

definition ParseCallID :: "string \<Rightarrow> call_id" where
  "ParseCallID s =
     (case SplitN s (CHR ''@'') 2 of
        [i, h] \<Rightarrow> \<lparr>ci_Identifier = Trim i blk, ci_Host = Trim h blk\<rparr>
      | xs \<Rightarrow> \<lparr>ci_Identifier = Trim (hd xs) blk, ci_Host = Trim [] blk\<rparr>)"

section \<open>Max-Forwards\<close>

record max_forwards =
  mf_Remains :: int

definition InitMaxForward :: int where
  "InitMaxForward = 70"

definition max_forwards_Clone :: "max_forwards \<Rightarrow> max_forwards" where
  "max_forwards_Clone m = \<lparr>mf_Remains = mf_Remains m\<rparr>"

definition max_forwards_Decrement :: "max_forwards \<Rightarrow> max_forwards \<times> bool" where
  "max_forwards_Decrement m =
     (let r = wrap64 (mf_Remains m - 1) in
      if r \<le> 0 then (m\<lparr>mf_Remains := 0\<rparr>, False) else (m\<lparr>mf_Remains := r\<rparr>, True))"

definition max_forwards_String :: "max_forwards \<Rightarrow> string" where
  "max_forwards_String m = Itoa (mf_Remains m)"

definition NewMaxForwardsHeader :: max_forwards where
  "NewMaxForwardsHeader = \<lparr>mf_Remains = InitMaxForward\<rparr>"

definition ParseMaxForwards :: "string \<Rightarrow> max_forwards option" where
  "ParseMaxForwards s = map_option (\<lambda>n. \<lparr>mf_Remains = n\<rparr>) (Atoi s)"

section \<open>Contact\<close>

record contact =
  co_Star :: bool
  co_Addr :: "name_addr option"
  co_RawParameter :: string

definition contact_Clone :: "contact \<Rightarrow> contact" where
  "contact_Clone c = \<lparr>co_Star = co_Star c, co_Addr = map_option name_addr_Clone (co_Addr c),
     co_RawParameter = co_RawParameter c\<rparr>"

definition contact_String :: "contact \<Rightarrow> string run" where
  "contact_String c =
     (if co_Star c then Inr ''*''
      else bindR (name_addr_String (co_Addr c)) (\<lambda>s.
        Inr (if co_RawParameter c = [] then s else s @ '';'' @ co_RawParameter c)))"

definition contact_Parameter :: "contact \<Rightarrow> kvs" where
  "contact_Parameter c = ParseQuery (co_RawParameter c)"

definition contact_star :: contact where
  "contact_star = \<lparr>co_Star = True, co_Addr = None, co_RawParameter = []\<rparr>"

definition newContactHeader :: "name_addr option \<Rightarrow> string \<Rightarrow> bool \<Rightarrow> contact run" where
  "newContactHeader nameAddr param isStar =
     (if isStar then Inr contact_star
      else (case nameAddr of
          None \<Rightarrow> Inr \<lparr>co_Star = False, co_Addr = None, co_RawParameter = Trim param (blk @ '';'')\<rparr>
        | Some a \<Rightarrow>
            bindR (deref (na_Uri a)) (\<lambda>u.
              Inr (if u_Path u = ''*'' then contact_star
                   else \<lparr>co_Star = False, co_Addr = Some a,
                          co_RawParameter = Trim param (blk @ '';'')\<rparr>))))"

definition NewContactHeader :: "string \<Rightarrow> uri option \<Rightarrow> string \<Rightarrow> bool \<Rightarrow> contact run" where
  "NewContactHeader display u param isStar =
     newContactHeader (Some (NewNameAddr display u)) param isStar"

definition NewContactHeaderStar :: "contact run" where
  "NewContactHeaderStar = NewContactHeader [] None [] True"

definition NewContactHeaderFromString :: "string \<Rightarrow> string \<Rightarrow> string \<Rightarrow> contact option run" where
  "NewContactHeaderFromString display uristr param =
     (if Trim uristr blk = ''*'' then bindR (NewContactHeader [] None [] True) (\<lambda>c. Inr (Some c))
      else (case Parse uristr of
          Inl _ \<Rightarrow> Inr None
        | Inr u \<Rightarrow> bindR (NewContactHeader display (Some u) param False) (\<lambda>c. Inr (Some c))))"

type_synonym contact_headers = "contact list"

definition ContactHeaders_Add :: "contact_headers \<Rightarrow> contact \<Rightarrow> contact_headers" where
  "ContactHeaders_Add cs c = cs @ [c]"

definition ContactHeaders_Clone :: "contact_headers \<Rightarrow> contact_headers" where
  "ContactHeaders_Clone cs = map contact_Clone cs"

fun ContactHeaders_WriteHeader :: "bool \<Rightarrow> contact_headers \<Rightarrow> string run" where
  "ContactHeaders_WriteHeader compact [] = Inr []"
| "ContactHeaders_WriteHeader compact (c # cs) =
     bindR (contact_String c) (\<lambda>s.
     bindR (ContactHeaders_WriteHeader compact cs) (\<lambda>r.
       Inr ((if compact then ''c: '' else ''Contact: '') @ s @ [CHR 0x0D, CHR 0x0A] @ r)))"

definition NewContactHeaders :: contact_headers where
  "NewContactHeaders = []"

definition ContactHeaders_Length :: "contact_headers \<Rightarrow> nat" where
  "ContactHeaders_Length cs = length cs"

text \<open>The parameters after a name-addr, and what follows the next comma.\<close>

definition params_and_trail :: "string \<Rightarrow> string \<times> string" where
  "params_and_trail trail =
     (case SplitN trail (CHR '','') 2 of
        [p, t] \<Rightarrow> (Trim p (CHR 0x09 # '' ;''), Trim t [CHR '' '', CHR 0x09])
      | res \<Rightarrow> (Trim (hd res) (CHR 0x09 # '' ;''), []))"

lemma ParseNameAddr_trail: "length (snd (ParseNameAddr s)) \<le> length s"
proof -
  have "length (TrimLeft (drop n s) '' <>'') \<le> length s" for n
    using length_TrimLeft [of "drop n s" "'' <>''"] by simp
  then show ?thesis by (simp add: ParseNameAddr_def Let_def split: prod.splits)
qed

lemma params_and_trail_shorter:
  "snd (params_and_trail t) = [] \<or> length (snd (params_and_trail t)) < length t"
  using SplitN_2_shorter [of t "CHR '',''"] length_Trim le_less_trans
  by (fastforce simp: params_and_trail_def split: list.splits)

lemma trail_shorter:
  "s \<noteq> [] \<Longrightarrow> length (snd (params_and_trail (snd (ParseNameAddr s)))) < length s"
  using params_and_trail_shorter [of "snd (ParseNameAddr s)"] ParseNameAddr_trail [of s] by fastforce

lemma trail_shorter_pairs:
  "s \<noteq> [] \<Longrightarrow> (a, b) = ParseNameAddr s \<Longrightarrow> (x, y) = params_and_trail b \<Longrightarrow> length y < length s"
  by (metis snd_conv trail_shorter)

function ParseContacts :: "string \<Rightarrow> contact_headers \<Rightarrow> contact_headers run" where
  "ParseContacts s cons =
     (if s = [] then Inr cons
      else
        (let (nameAddr, trail0) = ParseNameAddr s;
             (rawParam, trail) = params_and_trail trail0
         in bindR (newContactHeader nameAddr rawParam False) (\<lambda>c.
              ParseContacts trail (ContactHeaders_Add cons c))))"
  by pat_completeness auto
termination
  by (relation "measure (\<lambda>(s, cons). length s)") (auto intro: trail_shorter_pairs)

declare ParseContacts.simps [simp del]

definition ParseContact :: "string \<Rightarrow> contact run" where
  "ParseContact s =
     (let (nameAddr, rawParam) = ParseNameAddr s in newContactHeader nameAddr (Trim rawParam '' ;'') False)"

section \<open>Other name-addr headers\<close>

record name_addr_format =
  nf_Addr :: "name_addr option"
  nf_RawParameter :: string

definition nf_String :: "name_addr_format \<Rightarrow> string run" where
  "nf_String c =
     bindR (name_addr_String (nf_Addr c)) (\<lambda>s.
       Inr (if nf_RawParameter c = [] then s else s @ '';'' @ nf_RawParameter c))"

definition nf_Parameter :: "name_addr_format \<Rightarrow> kvs" where
  "nf_Parameter c = ParseQuery (nf_RawParameter c)"

definition newNameAddrFormatHeader :: "name_addr option \<Rightarrow> string \<Rightarrow> name_addr_format" where
  "newNameAddrFormatHeader nameAddr param =
     \<lparr>nf_Addr = nameAddr, nf_RawParameter = Trim param (blk @ '';'')\<rparr>"

function ParseNameAddrFormats :: "string \<Rightarrow> name_addr_format list \<Rightarrow> name_addr_format list" where
  "ParseNameAddrFormats s cons =
     (if s = [] then cons
      else
        (let (nameAddr, trail0) = ParseNameAddr s;
             (rawParam, trail) = params_and_trail trail0
         in ParseNameAddrFormats trail (cons @ [newNameAddrFormatHeader nameAddr rawParam])))"
  by pat_completeness auto
termination
  by (relation "measure (\<lambda>(s, cons). length s)") (auto intro: trail_shorter_pairs)

declare ParseNameAddrFormats.simps [simp del]

definition ParseNameAddrFormat :: "string \<Rightarrow> name_addr_format" where
  "ParseNameAddrFormat s =
     (let (nameAddr, rawParam) = ParseNameAddr s in newNameAddrFormatHeader nameAddr (Trim rawParam '' ;''))"

definition nf_Clone :: "name_addr_format \<Rightarrow> name_addr_format" where
  "nf_Clone c = \<lparr>nf_Addr = map_option name_addr_Clone (nf_Addr c), nf_RawParameter = nf_RawParameter c\<rparr>"

definition NewNameAddrFormatHeader :: "string \<Rightarrow> uri option \<Rightarrow> string \<Rightarrow> name_addr_format" where
  "NewNameAddrFormatHeader display u param = newNameAddrFormatHeader (Some (NewNameAddr display u)) param"

definition NewNameAddrFormatHeaderFromString :: "string \<Rightarrow> string \<Rightarrow> string \<Rightarrow> name_addr_format option" where
  "NewNameAddrFormatHeaderFromString display uristr param =
     (case Parse uristr of Inl _ \<Rightarrow> None | Inr u \<Rightarrow> Some (NewNameAddrFormatHeader display (Some u) param))"

type_synonym name_addr_formats = "name_addr_format list"

definition NewNameAddrFormatHeaders :: name_addr_formats where
  "NewNameAddrFormatHeaders = []"

definition nfs_Add :: "name_addr_formats \<Rightarrow> name_addr_format \<Rightarrow> name_addr_formats" where
  "nfs_Add cs c = cs @ [c]"

definition nfs_Clone :: "name_addr_formats \<Rightarrow> name_addr_formats" where
  "nfs_Clone cs = map nf_Clone cs"

definition nfs_Length :: "name_addr_formats \<Rightarrow> nat" where
  "nfs_Length cs = length cs"

fun nfs_WriteHeader :: "bool \<Rightarrow> string \<Rightarrow> string \<Rightarrow> name_addr_formats \<Rightarrow> string run" where
  "nfs_WriteHeader use_compact full compact [] = Inr []"
| "nfs_WriteHeader use_compact full compact (c # cs) =
     bindR (nf_String c) (\<lambda>s.
     bindR (nfs_WriteHeader use_compact full compact cs) (\<lambda>r.
       Inr ((if use_compact then compact else full) @ '': '' @ s @ [CHR 0x0D, CHR 0x0A] @ r)))"

section \<open>Bytes\<close>

definition isASCII :: "string \<Rightarrow> bool" where
  "isASCII s \<longleftrightarrow> list_all (\<lambda>c. byte_val c < 128) s"

text \<open>\<open>IsTokenRune\<close> of package \<open>httpguts\<close> is an argument; a rune is a number.\<close>

definition isNotToken :: "(nat \<Rightarrow> bool) \<Rightarrow> nat \<Rightarrow> bool" where
  "isNotToken IsTokenRune r \<longleftrightarrow> \<not> IsTokenRune r"

section \<open>Random identifiers\<close>

text \<open>
  \<open>crypto/rand\<close> is an argument: the bytes it delivers, or None when it fails.
\<close>

definition letters :: string where
  "letters = ''0123456789ABCDEFGHIJKLMNOPQRSTUVWXYZabcdefghijklmnopqrstuvwxyz-''"

text \<open>The argument is what the random source delivers when it is asked for \<open>n\<close> bytes.\<close>

definition GenerateRandomBytes :: "(nat \<Rightarrow> string option) \<Rightarrow> nat \<Rightarrow> string option" where
  "GenerateRandomBytes source n = source n"

definition GenerateRandomString :: "string option \<Rightarrow> string option" where
  "GenerateRandomString rnd = map_option (map (\<lambda>b. letters ! (byte_val b mod length letters))) rnd"

definition GenerateCallID :: "string option \<Rightarrow> string option" where
  "GenerateCallID rnd = GenerateRandomString rnd"

text \<open>The random number is one below \<open>2 << 31\<close>.\<close>

definition GenerateInitCSeq :: "int option \<Rightarrow> int option" where
  "GenerateInitCSeq rnd = map_option (\<lambda>n. n mod 2 ^ 32) rnd"

definition MagicViaBranch :: string where
  "MagicViaBranch = ''z9hG4bK''"

definition GenerateBranchParam :: "string option \<Rightarrow> string" where
  "GenerateBranchParam rnd =
     (case GenerateRandomString rnd of None \<Rightarrow> [] | Some ret \<Rightarrow> MagicViaBranch @ ret)"

definition IsValidBarnchParam :: "string \<Rightarrow> bool" where
  "IsValidBarnchParam test = HasPrefix test ''z9hG4bK''"

definition GenerateTag :: "string option \<Rightarrow> string" where
  "GenerateTag rnd = (case GenerateRandomString rnd of None \<Rightarrow> [] | Some ret \<Rightarrow> ret)"

end
