(* ===== verification/Reader.thy ===== *)
theory Reader
  imports HeaderKey
begin

text \<open>
  Reading a datagram as text, from \<open>src/sip/reader.go\<close>: lines, continued lines and the
  header section. The reader is the list of bytes it has not delivered yet;
  \<open>bufio.Reader.ReadLine\<close> hands out long lines in pieces that \<open>readLineSlice\<close> puts
  together again, so a line is what stands before the next newline. How many bytes sit in
  the buffer (\<open>Buffered\<close>) is an argument; the lemma \<open>readContinuedLine_buffered\<close> shows
  that the result does not depend on it.

  The dot-encoding and code-line readers of the same file (SMTP style replies, copied along
  from \<open>net/textproto\<close> and not called by the program) are in \<open>TextReader\<close>.
\<close>

definition CR :: char where "CR = CHR 0x0D"
definition LF :: char where "LF = CHR 0x0A"

definition is_blank :: "char \<Rightarrow> bool" where
  "is_blank c \<longleftrightarrow> c = CHR '' '' \<or> c = CHR 0x09"

datatype read_error = EOF | MimeProtocolError string | MissingValidate

section \<open>Lines\<close>

text \<open>None at the end of the input; otherwise the line without its end, and the rest.\<close>

definition readLineSlice :: "string \<Rightarrow> (string \<times> string) option" where
  "readLineSlice s =
     (if s = [] then None
      else (case IndexByte s LF of
          None \<Rightarrow> Some (s, [])
        | Some i \<Rightarrow>
            (let l = take i s in
             Some (if l \<noteq> [] \<and> last l = CR then butlast l else l, drop (Suc i) s))))"

definition trim_blanks :: "string \<Rightarrow> string" where
  "trim_blanks s = rev (dropWhile is_blank (rev (dropWhile is_blank s)))"

definition skipSpace :: "string \<Rightarrow> nat \<times> string" where
  "skipSpace s = (length (takeWhile is_blank s), dropWhile is_blank s)"

lemma readLineSlice_shorter: "readLineSlice s = Some (l, r) \<Longrightarrow> length r < length s"
  by (auto simp: readLineSlice_def Let_def dest: IndexByte_SomeD split: if_splits option.splits)

text \<open>The loop over continuation lines.\<close>

function read_continuation :: "string \<Rightarrow> string \<Rightarrow> string \<times> string" where
  "read_continuation buf s =
     (let (n, s') = skipSpace s in
      if 0 < n then
        (case readLineSlice s' of
           None \<Rightarrow> (buf, s')
         | Some (line, r) \<Rightarrow> read_continuation (buf @ '' '' @ trim_blanks line) r)
      else (buf, s'))"
  by pat_completeness auto
termination
proof (relation "measure (\<lambda>(buf, s). length s)", goal_cases)
  case (2 buf s p n s' q line r)
  have "readLineSlice s' = Some (line, r)" using 2 by simp
  then have "length r < length s'" by (rule readLineSlice_shorter)
  also have "length s' \<le> length s" using 2 by (simp add: skipSpace_def length_dropWhile_le)
  finally show ?case by simp
qed simp

declare read_continuation.simps [simp del]

definition mustHaveFieldNameColon :: "string \<Rightarrow> read_error option" where
  "mustHaveFieldNameColon line =
     (if CHR '':'' \<notin> set line
      then Some (MimeProtocolError (''malformed MIME header: missing colon: '' @ line)) else None)"

text \<open>The next byte cannot continue the line: a letter, a line feed, or an empty line.\<close>

definition next_line_plain :: "string \<Rightarrow> bool" where
  "next_line_plain s \<longleftrightarrow>
     (case s of [] \<Rightarrow> False
      | c # r \<Rightarrow> isASCIILetter c \<or> c = LF \<or> c = CR \<and> r \<noteq> [] \<and> hd r = LF)"

definition readContinuedLineSlice ::
    "(string \<Rightarrow> nat) \<Rightarrow> (string \<Rightarrow> read_error option) \<Rightarrow> string \<Rightarrow> (read_error + string) \<times> string" where
  "readContinuedLineSlice Buffered validateFirstLine s =
     (case readLineSlice s of
        None \<Rightarrow> (Inl EOF, s)
      | Some (line, r) \<Rightarrow>
          (if line = [] then (Inr line, r)
           else (case validateFirstLine line of
               Some e \<Rightarrow> (Inl e, r)
             | None \<Rightarrow>
                 (if 1 < Buffered r \<and> next_line_plain r then (Inr (trim_blanks line), r)
                  else (let (buf, r') = read_continuation (trim_blanks line) r in (Inr buf, r'))))))"

section \<open>The header section\<close>

text \<open>
  The field name of a line. A name of one byte is a compact form; \<open>strings.IndexByte(key, 0)\<close>
  is the position of a zero byte in it, which is 0 or -1, not the code of the letter.
\<close>

definition field_key :: "string \<Rightarrow> string" where
  "field_key name =
     (let key = canonicalMIMEHeaderKey name in
      if length key = 1 then
        (let c = (case IndexByte key (CHR 0x00) of None \<Rightarrow> -1 | Some i \<Rightarrow> int i);
             c' = (if 65 \<le> c \<and> c \<le> 90 then c - 32 else c)
         in canonicalMIMEHeaderKey (translateCompactForm c'))
      else key)"

definition field_value :: "string \<Rightarrow> string" where
  "field_value v = dropWhile is_blank v"

lemma read_continuation_shorter: "length (snd (read_continuation buf s)) \<le> length s"
proof (induction buf s rule: read_continuation.induct)
  case (1 buf s)
  have d: "length (dropWhile is_blank s) \<le> length s" by (rule length_dropWhile_le)
  show ?case
  proof (cases "readLineSlice (dropWhile is_blank s)")
    case None
    with d show ?thesis by (simp add: read_continuation.simps [of buf s] skipSpace_def)
  next
    case (Some p)
    obtain line r where p: "p = (line, r)" by (cases p)
    have "length r \<le> length s"
      using readLineSlice_shorter Some p d by fastforce
    with 1 Some p d show ?thesis
      by (force simp: read_continuation.simps [of buf s] skipSpace_def)
  qed
qed

lemma readContinuedLineSlice_shorter:
  assumes "readContinuedLineSlice B vf s = (Inr kv, r)" shows "length r < length s"
proof -
  obtain line r1 where l: "readLineSlice s = Some (line, r1)"
    using assms by (auto simp: readContinuedLineSlice_def split: option.splits)
  have "length r \<le> length r1"
    using assms l read_continuation_shorter [of "trim_blanks line" r1]
    by (auto simp: readContinuedLineSlice_def split: option.splits if_splits prod.splits)
  also have "length r1 < length s" using l by (rule readLineSlice_shorter)
  finally show ?thesis .
qed

lemma continued_shorter_pairs:
  "p = readContinuedLineSlice B vf s \<Longrightarrow> (a, r) = p \<Longrightarrow> a = Inr kv \<Longrightarrow> length r < length s"
  by (metis readContinuedLineSlice_shorter)

function read_fields :: "(string \<Rightarrow> nat) \<Rightarrow> kvs \<Rightarrow> string \<Rightarrow> kvs \<times> read_error option \<times> string" where
  "read_fields Buffered m s =
     (case readContinuedLineSlice Buffered mustHaveFieldNameColon s of
        (Inl e, r) \<Rightarrow> (m, Some e, r)
      | (Inr kv, r) \<Rightarrow>
          (if kv = [] then (m, None, r)
           else (case IndexByte kv (CHR '':'') of
               None \<Rightarrow> (m, Some (MimeProtocolError (''malformed MIME header line: '' @ kv)), r)
             | Some i \<Rightarrow>
                 (let key = field_key (take i kv) in
                  if key = [] then read_fields Buffered m r
                  else read_fields Buffered (kv_add m key (field_value (drop (Suc i) kv))) r))))"
  by pat_completeness auto
termination
  by (relation "measure (\<lambda>(B, m, s). length s)") (auto intro: continued_shorter_pairs)

declare read_fields.simps [simp del]

definition ReadMIMEHeader :: "(string \<Rightarrow> nat) \<Rightarrow> string \<Rightarrow> kvs \<times> read_error option \<times> string" where
  "ReadMIMEHeader Buffered s =
     (if s \<noteq> [] \<and> is_blank (hd s) then
        (case readLineSlice s of
           None \<Rightarrow> ([], Some EOF, s)
         | Some (line, r) \<Rightarrow>
             ([], Some (MimeProtocolError (''malformed MIME header initial line: '' @ line)), r))
      else read_fields Buffered [] s)"

section \<open>Lemmas\<close>

lemma next_line_plain_no_skip:
  "next_line_plain s \<Longrightarrow> skipSpace s = (0, s)"
proof -
  have "\<not> isASCIILetter (CHR '' '')" "\<not> isASCIILetter (CHR 0x09)" by code_simp+
  then show "next_line_plain s \<Longrightarrow> skipSpace s = (0, s)"
    by (auto simp: next_line_plain_def skipSpace_def is_blank_def CR_def LF_def split: list.splits)
qed

text \<open>The shortcut through the buffer returns what the loop would return.\<close>

lemma readContinuedLine_buffered:
  "readContinuedLineSlice B vf s = readContinuedLineSlice B' vf s"
  by (auto simp: readContinuedLineSlice_def read_continuation.simps next_line_plain_no_skip
      split: option.splits)

lemma read_fields_buffered: "read_fields B m s = read_fields B' m s"
proof (induction B m s rule: read_fields.induct)
  case (1 B m s)
  note eq = readContinuedLine_buffered [of B mustHaveFieldNameColon s B']
  show ?case
    by (subst (1 2) read_fields.simps)
      (auto simp: eq 1 Let_def split: prod.splits sum.splits option.splits)
qed

text \<open>A one-byte field name never yields a field.\<close>

lemma field_key_compact: "length name = 1 \<Longrightarrow> field_key name = []"
proof -
  assume l: "length name = 1"
  have "length (canonicalMIMEHeaderKey name) = 1"
    using l by (cases name) (auto simp: canonicalMIMEHeaderKey_eq)
  moreover have "translateCompactForm (-1) = []" "translateCompactForm 0 = []" by code_simp+
  moreover have "canonicalMIMEHeaderKey [] = []" by code_simp
  ultimately show ?thesis
    by (auto simp: field_key_def Let_def dest!: IndexByte_SomeD split: option.splits)
qed

section \<open>Reading back what was written\<close>

definition crlf :: string where "crlf = [CR, LF]"

definition write_field :: "string \<times> string \<Rightarrow> string" where
  "write_field f = fst f @ '': '' @ snd f @ crlf"

definition line_wf :: "string \<times> string \<Rightarrow> bool" where
  "line_wf f \<longleftrightarrow> validToken (fst f) \<and> fst f \<noteq> [] \<and> snd f \<noteq> [] \<and> set (snd f) \<inter> {CR, LF} = {} \<and> \<not> is_blank (hd (snd f)) \<and> \<not> is_blank (last (snd f))"

definition field_wf :: "string \<times> string \<Rightarrow> bool" where
  "field_wf f \<longleftrightarrow> line_wf f \<and> 2 \<le> length (fst f)"

lemma readLineSlice_crlf:
  "LF \<notin> set l \<Longrightarrow> readLineSlice (l @ crlf @ r) = Some (l, r)"
proof -
  assume "LF \<notin> set l"
  then have "LF \<notin> set (l @ [CR])" by (simp add: CR_def LF_def)
  then have i: "IndexByte ((l @ [CR]) @ LF # r) LF = Some (length (l @ [CR]))"
    by (rule IndexByte_append)
  then show ?thesis by (simp add: readLineSlice_def Let_def crlf_def)
qed

lemma trim_blanks_id: "l \<noteq> [] \<Longrightarrow> \<not> is_blank (hd l) \<Longrightarrow> \<not> is_blank (last l) \<Longrightarrow> trim_blanks l = l"
proof -
  assume a: "l \<noteq> []" "\<not> is_blank (hd l)" "\<not> is_blank (last l)"
  then have "dropWhile is_blank l = l" "dropWhile is_blank (rev l) = rev l"
    by (simp_all add: dropWhile_eq_self_iff hd_rev)
  then show ?thesis by (simp add: trim_blanks_def)
qed

lemma read_continuation_stop: "s = [] \<or> \<not> is_blank (hd s) \<Longrightarrow> read_continuation buf s = (buf, s)"
  by (cases s) (simp_all add: read_continuation.simps [of buf] skipSpace_def)

lemma token_char: "validHeaderFieldByte c \<Longrightarrow> \<not> is_blank c \<and> c \<noteq> CR \<and> c \<noteq> LF \<and> c \<noteq> CHR '':''"
proof -
  have "\<not> validHeaderFieldByte (CHR '' '')" "\<not> validHeaderFieldByte (CHR 0x09)"
    "\<not> validHeaderFieldByte CR" "\<not> validHeaderFieldByte LF" "\<not> validHeaderFieldByte (CHR '':'')"
    by code_simp+
  then show "validHeaderFieldByte c \<Longrightarrow> ?thesis" by (auto simp: is_blank_def)
qed

lemma readContinuedLine_field:
  assumes w: "line_wf f" and r: "r \<noteq> []" "\<not> is_blank (hd r)"
  shows "readContinuedLineSlice B mustHaveFieldNameColon (write_field f @ r)
    = (Inr (fst f @ '': '' @ snd f), r)"
proof -
  let ?l = "fst f @ '': '' @ snd f"
  have k: "\<forall>c \<in> set (fst f). \<not> is_blank c \<and> c \<noteq> LF" "fst f \<noteq> []"
    using w token_char by (auto simp: line_wf_def validToken_def)
  have "LF \<notin> set ?l" using w k by (auto simp: line_wf_def LF_def)
  then have "readLineSlice (write_field f @ r) = Some (?l, r)"
    using readLineSlice_crlf [of ?l r] by (simp add: write_field_def)
  moreover have "trim_blanks ?l = ?l"
    using w k by (intro trim_blanks_id) (auto simp: line_wf_def)
  ultimately show ?thesis
    using r read_continuation_stop [of r ?l]
    by (auto simp: readContinuedLineSlice_def mustHaveFieldNameColon_def)
qed

lemma canonicalMIMEHeaderKey_length: "length (canonicalMIMEHeaderKey k) = length k"
proof -
  have "length (canonical_loop u k) = length k" for u
    by (induction u k rule: canonical_loop.induct) (auto simp: Let_def)
  then show ?thesis by (simp add: canonicalMIMEHeaderKey_eq)
qed

lemma read_fields_step:
  assumes w: "line_wf f" "2 \<le> length (fst f)" and r: "r \<noteq> []" "\<not> is_blank (hd r)"
  shows "read_fields B m (write_field f @ r) = read_fields B (kv_add m (canonicalMIMEHeaderKey (fst f)) (snd f)) r"
proof -
  have "CHR '':'' \<notin> set (fst f)" using w token_char by (auto simp: line_wf_def validToken_def)
  then have "IndexByte (fst f @ '': '' @ snd f) (CHR '':'') = Some (length (fst f))" by simp
  moreover have "field_value ('' '' @ snd f) = snd f"
    using w by (cases "snd f") (auto simp: field_value_def is_blank_def line_wf_def)
  moreover have "field_key (fst f) = canonicalMIMEHeaderKey (fst f)" "canonicalMIMEHeaderKey (fst f) \<noteq> []"
    using w(2) canonicalMIMEHeaderKey_length [of "fst f"] by (auto simp: field_key_def Let_def)
  ultimately show ?thesis
    using w r readContinuedLine_field [of f r B]
    by (subst read_fields.simps) (auto simp: line_wf_def Let_def)
qed

lemma read_fields_end: "read_fields B m (crlf @ r) = (m, None, r)"
  using readLineSlice_crlf [of "[]" r]
  by (simp add: read_fields.simps [of B m "crlf @ r"] readContinuedLineSlice_def)

lemma fields_hd:
  "\<forall>f \<in> set fs. field_wf f \<Longrightarrow> concat (map write_field fs) @ crlf @ r \<noteq> []
     \<and> \<not> is_blank (hd (concat (map write_field fs) @ crlf @ r))"
proof (cases fs)
  case Nil
  then show ?thesis by (simp add: crlf_def is_blank_def CR_def)
next
  case (Cons f fs')
  assume "\<forall>f \<in> set fs. field_wf f"
  with Cons have "fst f \<noteq> []" "\<forall>c \<in> set (fst f). validHeaderFieldByte c"
    by (auto simp: field_wf_def line_wf_def validToken_def)
  then have "fst f \<noteq> []" "validHeaderFieldByte (hd (fst f))" by simp_all
  then show ?thesis
    using Cons token_char [of "hd (fst f)"] by (cases "fst f") (auto simp: write_field_def)
qed

definition fields_map :: "(string \<times> string) list \<Rightarrow> kvs" where
  "fields_map fs = foldl (\<lambda>m f. kv_add m (canonicalMIMEHeaderKey (fst f)) (snd f)) [] fs"

lemma read_fields_written:
  "\<forall>f \<in> set fs. field_wf f \<Longrightarrow>
     read_fields B m (concat (map write_field fs) @ crlf @ r)
       = (foldl (\<lambda>m f. kv_add m (canonicalMIMEHeaderKey (fst f)) (snd f)) m fs, None, r)"
proof (induction fs arbitrary: m)
  case (Cons f fs)
  then show ?case
    using read_fields_step [of f "concat (map write_field fs) @ crlf @ r" B m] fields_hd [of fs r]
    by (simp add: field_wf_def)
qed (simp add: read_fields_end)

lemma ReadMIMEHeader_written:
  "\<forall>f \<in> set fs. field_wf f \<Longrightarrow>
     ReadMIMEHeader B (concat (map write_field fs) @ crlf @ r) = (fields_map fs, None, r)"
  using fields_hd [of fs r] by (simp add: ReadMIMEHeader_def read_fields_written fields_map_def)

lemma fields_map_values:
  "kv_values (fields_map fs) k = map snd (filter (\<lambda>f. canonicalMIMEHeaderKey (fst f) = k) fs)"
proof -
  have "kv_values (foldl (\<lambda>m f. kv_add m (canonicalMIMEHeaderKey (fst f)) (snd f)) m fs) k
      = kv_values m k @ map snd (filter (\<lambda>f. canonicalMIMEHeaderKey (fst f) = k) fs)" for m
    by (induction fs arbitrary: m) auto
  then show ?thesis by (simp add: fields_map_def kv_values_def)
qed

end
