(* ===== verification/Message.thy ===== *)
theory Message
  imports Headers Reader
begin

text \<open>
  Messages, from \<open>src/sip/message.go\<close> with the status table of \<open>src/sip/status.go\<close>: the
  record, its copy, writing and reading, and the messages generated from other messages.

  \<open>Header\<close> is an \<open>http.Header\<close>; its methods canonicalise names with the function of
  \<open>net/textproto\<close>, of which the one in \<open>reader.go\<close> is a copy. A nil pointer field is
  \<^const>\<open>None\<close>. The \<open>Cancel\<close> channel, which nothing reads or closes, is left out. A
  context is the chain of values put on the background context. Random bytes are arguments.
\<close>

section \<open>The record\<close>

datatype ctx = Background | WithValue ctx string string

record message =
  m_RemoteAddr :: string
  m_Request :: bool
  m_Method :: string
  m_RequestURI :: "uri option"
  m_Response :: bool
  m_StatusCode :: int
  m_ReasonPhrase :: string
  m_Proto :: string
  m_ProtoMajor :: int
  m_ProtoMinor :: int
  m_To :: "to_header option"
  m_From :: "to_header option"
  m_Via :: "via_headers option"
  m_MaxForwards :: "max_forwards option"
  m_CSeq :: "cseq option"
  m_CallID :: "call_id option"
  m_Contact :: "contact_headers option"
  m_Header :: kvs
  m_Body :: "string option"
  m_ContentLength :: int
  m_Close :: bool
  m_ctx :: "ctx option"

definition CreateMessage :: "string \<Rightarrow> message" where
  "CreateMessage addr =
     \<lparr>m_RemoteAddr = addr, m_Request = False, m_Method = [], m_RequestURI = None,
      m_Response = False, m_StatusCode = 0, m_ReasonPhrase = [], m_Proto = ''SIP/2.0'',
      m_ProtoMajor = 2, m_ProtoMinor = 0, m_To = None, m_From = None, m_Via = None,
      m_MaxForwards = None, m_CSeq = None, m_CallID = None, m_Contact = None, m_Header = [],
      m_Body = None, m_ContentLength = 0, m_Close = False, m_ctx = None\<rparr>"

definition CreateRequest :: "string option \<Rightarrow> string \<Rightarrow> message" where
  "CreateRequest rnd addr =
     (CreateMessage addr)\<lparr>m_Request := True, m_MaxForwards := Some NewMaxForwardsHeader,
        m_CallID := Some (NewCallIDHeader rnd)\<rparr>"

text \<open>\<open>CreateINVITE\<close> and \<open>CreateBYE\<close> return nil when the request URI does not parse.\<close>

definition CreateINVITE :: "string option \<Rightarrow> string \<Rightarrow> string \<Rightarrow> message option" where
  "CreateINVITE rnd addr ruri =
     (case Parse ruri of
        Inl _ \<Rightarrow> None
      | Inr uri \<Rightarrow> Some ((CreateRequest rnd addr)\<lparr>m_Method := ''INVITE'', m_RequestURI := Some uri\<rparr>))"

definition CreateACK :: "string option \<Rightarrow> string \<Rightarrow> message" where
  "CreateACK rnd addr = (CreateRequest rnd addr)\<lparr>m_Method := ''ACK''\<rparr>"

definition CreateBYE :: "string option \<Rightarrow> string \<Rightarrow> string \<Rightarrow> message option" where
  "CreateBYE rnd addr ruri =
     (case Parse ruri of
        Inl _ \<Rightarrow> None
      | Inr uri \<Rightarrow> Some ((CreateRequest rnd addr)\<lparr>m_Method := ''BYE'', m_RequestURI := Some uri\<rparr>))"

definition CreateCACNEL :: "string option \<Rightarrow> string \<Rightarrow> message" where
  "CreateCACNEL rnd addr = (CreateRequest rnd addr)\<lparr>m_Method := ''CANCEL''\<rparr>"

definition message_Clone :: "message \<Rightarrow> message" where
  "message_Clone msg =
     (CreateMessage [])
       \<lparr>m_RemoteAddr := m_RemoteAddr msg,
        m_Response := m_Response msg, m_StatusCode := m_StatusCode msg,
        m_ReasonPhrase := m_ReasonPhrase msg,
        m_Request := m_Request msg, m_Method := m_Method msg,
        m_RequestURI := uri_Clone (m_RequestURI msg),
        m_Proto := m_Proto msg, m_ProtoMajor := m_ProtoMajor msg, m_ProtoMinor := m_ProtoMinor msg,
        m_To := map_option to_Clone (m_To msg), m_From := map_option to_Clone (m_From msg),
        m_Via := map_option ViaHeaders_Clone (m_Via msg),
        m_CallID := map_option call_id_Clone (m_CallID msg),
        m_CSeq := map_option cseq_Clone (m_CSeq msg),
        m_MaxForwards := map_option max_forwards_Clone (m_MaxForwards msg),
        m_Contact := map_option ContactHeaders_Clone (m_Contact msg),
        m_Header := m_Header msg, m_ContentLength := m_ContentLength msg,
        m_Body := Some (case m_Body msg of None \<Rightarrow> [] | Some b \<Rightarrow> b),
        m_Close := m_Close msg, m_ctx := m_ctx msg\<rparr>"

definition message_Context :: "message \<Rightarrow> ctx" where
  "message_Context r = (case m_ctx r of Some c \<Rightarrow> c | None \<Rightarrow> Background)"

text \<open>\<open>WithContext\<close> panics on a nil context.\<close>

definition WithContext :: "message \<Rightarrow> ctx option \<Rightarrow> string + message" where
  "WithContext r c = (case c of None \<Rightarrow> Inl ''nil context'' | Some x \<Rightarrow> Inr (r\<lparr>m_ctx := Some x\<rparr>))"

text \<open>Every value of the source is appended under its key.\<close>

definition copyValues :: "kvs \<Rightarrow> kvs \<Rightarrow> kvs" where
  "copyValues dst src = foldl (\<lambda>m (k, vs). foldl (\<lambda>m' v. kv_add m' k v) m vs) dst src"

definition ProtoAtLeast :: "message \<Rightarrow> int \<Rightarrow> int \<Rightarrow> bool" where
  "ProtoAtLeast r major minor \<longleftrightarrow>
     m_ProtoMajor r > major \<or> m_ProtoMajor r = major \<and> m_ProtoMinor r \<ge> minor"

definition UserAgent :: "message \<Rightarrow> string" where
  "UserAgent r = hdr_Get (m_Header r) ''User-Agent''"

definition valueOrDefault :: "string \<Rightarrow> string \<Rightarrow> string" where
  "valueOrDefault v def = (if v \<noteq> [] then v else def)"

definition outgoingLength :: "message \<Rightarrow> int" where
  "outgoingLength r =
     (if m_Body r = None then 0 else if m_ContentLength r \<noteq> 0 then m_ContentLength r else -1)"

text \<open>A token of at least one byte: \<open>httpguts.IsTokenRune\<close> holds of no rune above 127.\<close>

definition validMethod :: "string \<Rightarrow> bool" where
  "validMethod method \<longleftrightarrow> 0 < length method \<and> validToken method"

datatype message_error =
    InvalidMethod string
  | MalformedMessage string
  | MalformedVersion string
  | MalformedStatus string
  | BadUri uri_error
  | HeaderError read_error
  | UnexpectedEOF
  | ReadEOF
  | Proto protocol_error

text \<open>The body is kept, the context is not nil, and neither \<open>Request\<close> nor \<open>Response\<close> is set.\<close>

definition NewRequest :: "string \<Rightarrow> string \<Rightarrow> string option \<Rightarrow> message_error + message" where
  "NewRequest method0 url body =
     (let method = (if method0 = [] then ''INVITE'' else method0) in
      if \<not> validMethod method then Inl (InvalidMethod method)
      else (case Parse url of
          Inl e \<Rightarrow> Inl (BadUri e)
        | Inr u \<Rightarrow> Inr ((CreateMessage [])\<lparr>m_ctx := Some Background, m_Method := method,
            m_RequestURI := Some u, m_Body := body\<rparr>)))"

definition removeZone :: "string \<Rightarrow> string" where
  "removeZone host =
     (if \<not> HasPrefix host ''['' then host
      else (case LastIndexByte host (CHR '']'') of
          None \<Rightarrow> host
        | Some i \<Rightarrow>
            (case LastIndexByte (take i host) (CHR ''%'') of
               None \<Rightarrow> host
             | Some j \<Rightarrow> take j host @ drop i host)))"

text \<open>The loop of \<open>hasToken\<close> over the start positions; \<open>EqualFold\<close> on ASCII letters.\<close>

definition token_at :: "string \<Rightarrow> string \<Rightarrow> nat \<Rightarrow> bool" where
  "token_at v token sp \<longleftrightarrow>
     (let endPos = sp + length token; b = v ! sp in
      (b = token ! 0 \<or> byte_of (byte_val b OR 32) = token ! 0)
      \<and> (sp = 0 \<or> isTokenBoundary (v ! (sp - 1)))
      \<and> (endPos = length v \<or> isTokenBoundary (v ! endPos))
      \<and> ToLower (take (length token) (drop sp v)) = ToLower token)"

definition hasToken :: "string \<Rightarrow> string \<Rightarrow> bool" where
  "hasToken v token \<longleftrightarrow>
     \<not> (length token > length v \<or> token = [])
     \<and> (v = token \<or> list_ex (token_at v token) [0..<Suc (length v - length token)])"

definition expectsContinue :: "message \<Rightarrow> bool" where
  "expectsContinue r = hasToken (hdr_Get (m_Header r) ''Expect'') ''100-continue''"

section \<open>Status codes\<close>

definition statusText_table :: "(int \<times> string) list" where
  "statusText_table =
    [(100, ''Trying''),
     (180, ''Ringing''),
     (181, ''Call Is Being Forwarded''),
     (182, ''Queued''),
     (183, ''Session Progress''),
     (200, ''OK''),
     (300, ''Multiple Choices''),
     (301, ''Moved Permanently''),
     (302, ''Moved Temporarily''),
     (305, ''Use Proxy''),
     (380, ''Alternative Service''),
     (400, ''Bad Request''),
     (401, ''Unauthorized''),
     (402, ''Payment Required''),
     (403, ''Forbidden''),
     (404, ''Not Found''),
     (405, ''Method Not Allowed''),
     (406, ''Not Acceptable''),
     (407, ''Proxy Authentication Required''),
     (408, ''Request Timeout''),
     (410, ''Gone''),
     (413, ''Request Entity Too Large''),
     (414, ''Request-URI Too Large''),
     (415, ''Unsupported Media Type''),
     (416, ''Unsupported URI Scheme''),
     (420, ''Bad Extension''),
     (421, ''Extension Required''),
     (423, ''Interval Too Brief''),
     (480, ''Temporarily not available''),
     (481, ''Call Leg/Transaction Does Not Exist''),
     (482, ''Loop Detected''),
     (483, ''Too Many Hops''),
     (484, ''Address Incomplete''),
     (485, ''Ambiguous''),
     (486, ''Busy Here''),
     (487, ''Request Terminated''),
     (488, ''Not Acceptable Here''),
     (491, ''Request Pending''),
     (493, ''Undecipherable''),
     (500, ''Internal Server Error''),
     (501, ''Not Implemented''),
     (502, ''Bad Gateway''),
     (503, ''Service Unavailable''),
     (504, ''Server Time-out''),
     (505, ''SIP Version not supported''),
     (513, ''Message Too Large''),
     (600, ''Busy Everywhere''),
     (603, ''Decline''),
     (604, ''Does not exist anywhere''),
     (606, ''Not Acceptable'')]"

definition statusText :: "int \<Rightarrow> string option" where
  "statusText = map_of statusText_table"

section \<open>Writing\<close>

text \<open>The verb \<open>%03d\<close>: a width of three filled with zeros after the sign.\<close>

definition pad_zeros :: "nat \<Rightarrow> string \<Rightarrow> string" where
  "pad_zeros n s = replicate (n - length s) (CHR ''0'') @ s"

definition format_03d :: "int \<Rightarrow> string" where
  "format_03d n = (if n < 0 then ''-'' @ pad_zeros 2 (Itoa (- n)) else pad_zeros 3 (Itoa n))"

definition written_key :: "string \<Rightarrow> string" where
  "written_key key =
     (if key = ''Cseq'' then ''CSeq'' else if key = ''Call-Id'' then ''Call-ID'' else key)"

text \<open>
  The fields that have a struct field of their own, in the order of the code. \<open>%s\<close> calls
  the \<open>String\<close> method, and \<open>fmt\<close> turns a panic of it into text; the Via and Contact
  lists are turned into text by direct calls, whose panic goes on.
\<close>

definition own_fields :: "bool \<Rightarrow> message \<Rightarrow> string run" where
  "own_fields compact r =
     bindR (case m_Contact r of None \<Rightarrow> Inr [] | Some c \<Rightarrow> ContactHeaders_WriteHeader compact c) (\<lambda>contact.
     Inr ((case m_To r of None \<Rightarrow> [] | Some t \<Rightarrow> ''To: '' @ fmt_Stringer (to_String t) @ crlf)
        @ (case m_From r of None \<Rightarrow> [] | Some f \<Rightarrow> ''From: '' @ fmt_Stringer (to_String f) @ crlf)
        @ (case m_Via r of None \<Rightarrow> [] | Some v \<Rightarrow> ViaHeaders_WriteHeader compact v)
        @ (case m_MaxForwards r of None \<Rightarrow> [] | Some m \<Rightarrow> ''Max-Forwards: '' @ max_forwards_String m @ crlf)
        @ (case m_CallID r of None \<Rightarrow> [] | Some c \<Rightarrow> ''Call-ID: '' @ call_id_String c @ crlf)
        @ (case m_CSeq r of None \<Rightarrow> [] | Some c \<Rightarrow> ''CSeq: '' @ cseq_String c @ crlf)
        @ contact))"

definition write_ignores :: "message \<Rightarrow> string list" where
  "write_ignores r =
     (if m_To r \<noteq> None then [''to''] else []) @ (if m_From r \<noteq> None then [''from''] else [])
     @ (if m_Via r \<noteq> None then [''via''] else [])
     @ (if m_MaxForwards r \<noteq> None then [''max-forwards''] else [])
     @ (if m_CallID r \<noteq> None then [''call-id''] else []) @ (if m_CSeq r \<noteq> None then [''cseq''] else [])
     @ (if m_Contact r \<noteq> None then [''contact''] else [])"

text \<open>
  The other fields in the order of their lower-case names. A value is looked up under the
  lower-case name, so a name that is not a token finds its values only when it is lower case;
  it is printed as it stands in the map (the last one, of names that differ in case only).
\<close>

definition orig_key :: "kvs \<Rightarrow> string \<Rightarrow> string" where
  "orig_key h lkey = (case map_of (rev (map (\<lambda>(k, vs). (ToLower k, k)) h)) lkey of None \<Rightarrow> [] | Some k \<Rightarrow> k)"

definition other_fields :: "string list \<Rightarrow> kvs \<Rightarrow> string" where
  "other_fields ignores h =
     concat (map (\<lambda>lkey.
         if lkey \<in> set ignores then []
         else concat (map (\<lambda>v. written_key (orig_key h lkey) @ '': '' @ v @ crlf) (hdr_Values h lkey)))
       (sort (map (\<lambda>(k, vs). ToLower k) h)))"

definition writeHeader :: "bool \<Rightarrow> message \<Rightarrow> string run" where
  "writeHeader compact r =
     bindR (own_fields compact r) (\<lambda>own. Inr (own @ other_fields (write_ignores r) (m_Header r)))"

text \<open>\<open>r.Body[:r.ContentLength]\<close>; the capacity of the body slice is taken to be its length.\<close>

definition written_body :: "message \<Rightarrow> string run" where
  "written_body r =
     (if 0 < m_ContentLength r
      then slice (case m_Body r of None \<Rightarrow> [] | Some b \<Rightarrow> b) 0 (nat (m_ContentLength r)) else Inr [])"

definition sip_version :: "message \<Rightarrow> string" where
  "sip_version r = ''SIP/'' @ Itoa (m_ProtoMajor r) @ ''.'' @ Itoa (m_ProtoMinor r)"

definition reason_text :: "message \<Rightarrow> string" where
  "reason_text r =
     (if m_ReasonPhrase r = [] then (case statusText (m_StatusCode r) of Some t \<Rightarrow> t | None \<Rightarrow> ''Unknown'')
      else m_ReasonPhrase r)"

definition writeResponse :: "bool \<Rightarrow> message \<Rightarrow> string run" where
  "writeResponse compact r =
     bindR (writeHeader compact r) (\<lambda>h.
     bindR (written_body r) (\<lambda>b.
       Inr (sip_version r @ '' '' @ format_03d (m_StatusCode r) @ '' '' @ reason_text r @ crlf
         @ h @ crlf @ b)))"

definition writeRequest :: "bool \<Rightarrow> message \<Rightarrow> string run" where
  "writeRequest compact r =
     bindR (deref (m_RequestURI r)) (\<lambda>u.
     bindR (writeHeader compact r) (\<lambda>h.
     bindR (written_body r) (\<lambda>b.
       Inr (m_Method r @ '' '' @ uri_String u @ '' '' @ sip_version r @ crlf @ h @ crlf @ b))))"

text \<open>The bytes a writer gets that is a \<open>ByteWriter\<close>, such as the buffer of \<open>WriteMessage\<close>.\<close>

definition message_write :: "bool \<Rightarrow> message \<Rightarrow> string run" where
  "message_write compact r =
     (if m_Request r then writeRequest compact r
      else if m_Response r then writeResponse compact r else Inr [])"

section \<open>Reading\<close>

text \<open>
  When the line has no blank at all, \<open>line[s1+1:]\<close> is the whole line and \<open>s2\<close> is negative
  too, so nothing is returned in this case either.
\<close>

definition parseRequestLine :: "string \<Rightarrow> (string \<times> string \<times> string) option" where
  "parseRequestLine line =
     (case IndexByte line (CHR '' '') of
        None \<Rightarrow> None
      | Some s1 \<Rightarrow>
          (let r = drop (Suc s1) line in
           case IndexByte r (CHR '' '') of
             None \<Rightarrow> None
           | Some s2 \<Rightarrow> Some (take s1 line, take s2 r, drop (Suc s2) r)))"

definition header_field :: "kvs \<Rightarrow> string \<Rightarrow> (string \<Rightarrow> 'a option) \<Rightarrow> 'a option \<Rightarrow> 'a option" where
  "header_field h key parse dflt = (let v = hdr_Get h key in if v \<noteq> [] then parse v else dflt)"

fun parse_each :: "(string \<Rightarrow> 'a \<Rightarrow> 'a run) \<Rightarrow> string list \<Rightarrow> 'a \<Rightarrow> 'a run" where
  "parse_each p [] x = Inr x"
| "parse_each p (v # vs) x = bindR (p v x) (parse_each p vs)"

definition parseHeader :: "message \<Rightarrow> message run" where
  "parseHeader msg =
     (let h = m_Header msg;
          m1 = msg\<lparr>m_To := header_field h ''to'' (\<lambda>v. Some (ParseTo v)) (m_To msg),
                   m_From := header_field h ''from'' (\<lambda>v. Some (ParseFrom v)) (m_From msg),
                   m_CallID := header_field h ''call-id'' (\<lambda>v. Some (ParseCallID v)) (m_CallID msg)\<rparr>;
          cs = hdr_Get h ''cseq''
      in bindR (if cs \<noteq> [] then ParseCSeq cs else Inr (m_CSeq msg)) (\<lambda>cseq.
         (let m2 = m1\<lparr>m_CSeq := cseq,
                m_MaxForwards := header_field h ''max-forwards'' ParseMaxForwards (m_MaxForwards msg)\<rparr>;
              vias = hdr_Values h ''via''; contacts = hdr_Values h ''Contact''
          in bindR (if vias = [] then Inr (m_Via msg)
                    else bindR (parse_each ParseVias vias NewViaHeaders) (\<lambda>v. Inr (Some v))) (\<lambda>via.
             bindR (if contacts = [] then Inr (m_Contact msg)
                    else bindR (parse_each ParseContacts contacts []) (\<lambda>c. Inr (Some c))) (\<lambda>contact.
               Inr (m2\<lparr>m_Via := via, m_Contact := contact\<rparr>))))))"

text \<open>The first line: a request line when its third part is a version, otherwise a status line.\<close>

definition read_first_line :: "string \<Rightarrow> message \<Rightarrow> (message_error + message) run" where
  "read_first_line line msg =
     (case parseRequestLine line of
        None \<Rightarrow> Inr (Inl (MalformedMessage line))
      | Some (f1, f2, f3) \<Rightarrow>
          bindR (ParseSIPVersion f3) (\<lambda>(major, minor, ok).
            if ok then
              (case Parse f2 of
                 Inl _ \<Rightarrow> Inr (Inl (Proto ErrMalformedMessage))
               | Inr uri \<Rightarrow>
                   (if \<not> validMethod f1 then Inr (Inl (InvalidMethod f1))
                    else Inr (Inr (msg\<lparr>m_Method := f1, m_RequestURI := Some uri, m_Proto := f3,
                      m_ProtoMajor := major, m_ProtoMinor := minor, m_Request := True, m_Response := False\<rparr>))))
            else
              bindR (ParseSIPVersion f1) (\<lambda>(major, minor, ok).
                if \<not> ok then Inr (Inl (MalformedVersion f1))
                else if length f2 \<noteq> 3 then Inr (Inl (MalformedStatus f2))
                else (case Atoi f2 of
                    None \<Rightarrow> Inr (Inl (MalformedStatus f2))
                  | Some code \<Rightarrow>
                      (if code < 0 then Inr (Inl (MalformedStatus f2))
                       else Inr (Inr (msg\<lparr>m_Proto := f1, m_ProtoMajor := major, m_ProtoMinor := minor,
                         m_ReasonPhrase := f3, m_StatusCode := code, m_Request := False,
                         m_Response := True\<rparr>)))))))"

text \<open>
  One read of at most 4096 bytes into the body: what the buffer holds, or, when it is
  empty, what the datagram still has.
\<close>

definition read_body :: "(string \<Rightarrow> nat) \<Rightarrow> string \<Rightarrow> string" where
  "read_body Buffered rest =
     take (min 4096 (if Buffered rest = 0 then length rest else Buffered rest)) rest"

definition end_of_input :: "read_error \<Rightarrow> message_error" where
  "end_of_input e = (if e = EOF then UnexpectedEOF else HeaderError e)"

definition readMessage :: "(string \<Rightarrow> nat) \<Rightarrow> message \<Rightarrow> string \<Rightarrow> (message_error + message) run" where
  "readMessage Buffered msg s =
     (case readLineSlice s of
        None \<Rightarrow> Inr (Inl ReadEOF)
      | Some (line, r) \<Rightarrow>
          bindR (read_first_line line msg) (\<lambda>first.
            case first of
              Inl e \<Rightarrow> Inr (Inl e)
            | Inr m1 \<Rightarrow>
                (case ReadMIMEHeader Buffered r of
                   (h, Some e, _) \<Rightarrow> Inr (Inl (end_of_input e))
                 | (h, None, rest) \<Rightarrow>
                     bindR (parseHeader (m1\<lparr>m_Header := h\<rparr>)) (\<lambda>m2.
                       (let body = read_body Buffered rest in
                        Inr (Inr (m2\<lparr>m_Body := (if body = [] then None else Some body),
                          m_ContentLength := int (length body)\<rparr>)))))))"

section \<open>Messages from messages\<close>

definition mandatoryHeaders :: "string list" where
  "mandatoryHeaders = [''From'', ''To'', ''Call-ID'', ''CSeq'', ''Via'', ''Max-Forwards'']"

text \<open>
  The response shares the header objects of the request: a tag added to the To header of
  the response is a tag of the request as well (\<open>share_To\<close>). A context cannot be derived
  from a nil context.
\<close>

definition GenerateResponseFromRequest :: "message \<Rightarrow> message run" where
  "GenerateResponseFromRequest msg =
     (let h = foldl (\<lambda>h key. foldl (\<lambda>h v. hdr_Add h key v) h (hdr_Values (m_Header msg) key))
                [] mandatoryHeaders
      in case m_ctx msg of
           None \<Rightarrow> Inl NilParentContext
         | Some c \<Rightarrow>
             Inr ((CreateMessage (m_RemoteAddr msg))
               \<lparr>m_Response := True, m_Request := False, m_StatusCode := 100,
                m_Proto := ''SIP/2.0'', m_ProtoMajor := 2, m_ProtoMinor := 0,
                m_To := m_To msg, m_From := m_From msg, m_Via := m_Via msg,
                m_CallID := m_CallID msg, m_CSeq := m_CSeq msg, m_MaxForwards := m_MaxForwards msg,
                m_Header := h, m_ctx := Some (WithValue c ''call-id'' (hdr_Get h ''Call-ID''))\<rparr>))"

definition share_To :: "message \<Rightarrow> message \<Rightarrow> message" where
  "share_To resp req = req\<lparr>m_To := m_To resp\<rparr>"

text \<open>A missing From or To sets the error and goes on to dereference the nil pointer.\<close>

definition AddFromTag :: "string option \<Rightarrow> message \<Rightarrow> message run" where
  "AddFromTag rnd msg =
     bindR (deref (m_From msg)) (\<lambda>f.
       if kv_get (to_Parameter f) ''tag'' \<noteq> [] then Inr msg
       else Inr (msg\<lparr>m_From := Some (f\<lparr>to_RawParameter :=
         ''tag='' @ GenerateTag rnd @ '';'' @ to_RawParameter f\<rparr>)\<rparr>))"

definition AddToTag :: "string option \<Rightarrow> message \<Rightarrow> message run" where
  "AddToTag rnd msg =
     bindR (deref (m_To msg)) (\<lambda>t.
       if kv_get (to_Parameter t) ''tag'' \<noteq> [] then Inr msg
       else Inr (msg\<lparr>m_To := Some (t\<lparr>to_RawParameter :=
         Trim (''tag='' @ GenerateTag rnd @ '';'' @ to_RawParameter t) '';''\<rparr>)\<rparr>))"

text \<open>An empty Via list has no topmost entry; its fields are read all the same.\<close>

definition GetTopMostVia :: "message \<Rightarrow> (protocol_error + string \<times> string \<times> kvs) run" where
  "GetTopMostVia msg =
     (case m_Via msg of
        None \<Rightarrow> Inr (Inl ErrMissingMandatoryHeader)
      | Some vs \<Rightarrow>
          bindR (deref (ViaHeaders_TopMost vs)) (\<lambda>v.
            Inr (Inr (via_SentProtocol v, via_SentBy v, via_Parameter v))))"

definition GetCSeq :: "message \<Rightarrow> protocol_error + string \<times> int" where
  "GetCSeq msg =
     (case m_CSeq msg of
        None \<Rightarrow> Inl ErrMissingMandatoryHeader
      | Some c \<Rightarrow> Inr (cs_Method c, cs_Sequence c))"

text \<open>A nil request is None. The clone keeps the context, the headers and the From tag.\<close>

definition GenerateCancelRequest :: "message option \<Rightarrow> (protocol_error + message) run" where
  "GenerateCancelRequest req0 =
     (case req0 of
        None \<Rightarrow> Inr (Inl ErrMalformedMessage)
      | Some req \<Rightarrow>
          (if \<not> m_Request req \<or> m_Method req \<noteq> ''INVITE'' then Inr (Inl ErrMalformedMessage)
           else
             (let c = (message_Clone req)\<lparr>m_Method := ''CANCEL''\<rparr> in
              bindR (deref (m_Via c)) (\<lambda>vs.
                case ViaHeaders_TopMost vs of
                  None \<Rightarrow> Inr (Inl ErrHeaderParseError)
                | Some v \<Rightarrow>
                    bindR (deref (m_CSeq c)) (\<lambda>cs.
                      Inr (Inr (c\<lparr>m_Via := Some (ViaHeaders_Insert NewViaHeaders v),
                        m_CSeq := Some (cs\<lparr>cs_Method := ''CANCEL''\<rparr>),
                        m_Header := hdr_Del (hdr_Del (m_Header c) ''Require'') ''Proxy-Require'',
                        m_ContentLength := 0, m_Body := None\<rparr>)))))))"

text \<open>
  The parameters of the Via with a fresh branch, key by key; values of one key are
  written one after the other without a separator.
\<close>

definition rewrite_params :: "kvs \<Rightarrow> string" where
  "rewrite_params params =
     concat (map (\<lambda>(key, vs). concat (map (\<lambda>v. key @ ''='' @ v) vs) @ '';'') params)"

definition set_first :: "kvs \<Rightarrow> string \<Rightarrow> string \<Rightarrow> kvs" where
  "set_first params key v = AList.update key ((kv_values params key)[0 := v]) params"

text \<open>
  The loop over the Via list for a 2xx response: index 0 of the slice is the bottommost
  value, and each one is put in front of the ones before.
\<close>

fun ack_vias :: "string option \<Rightarrow> nat \<Rightarrow> via list \<Rightarrow> via_headers \<Rightarrow> via_headers option" where
  "ack_vias rnd idx [] acc = Some acc"
| "ack_vias rnd idx (v # vs) acc =
     (if idx = 0 then
        (let params = via_Parameter v in
         if kv_values params ''branch'' = [] then None
         else ack_vias rnd (Suc idx) vs (ViaHeaders_Append acc
           (NewViaHeader (via_SentProtocol v) (via_SentBy v)
             (rewrite_params (set_first params ''branch'' (GenerateBranchParam rnd))))))
      else ack_vias rnd (Suc idx) vs (ViaHeaders_Append acc v))"

definition ack_fields :: "message \<Rightarrow> message \<Rightarrow> message \<Rightarrow> via_headers \<Rightarrow> message" where
  "ack_fields ack req res via =
     ack\<lparr>m_RequestURI := m_RequestURI req, m_Via := Some via, m_From := m_From req,
         m_CallID := m_CallID req, m_MaxForwards := m_MaxForwards req, m_To := m_To res,
         m_Header := (let value = hdr_Get (m_Header req) ''Route'' in
            if value \<noteq> [] then hdr_Add (m_Header ack) ''Route'' value else m_Header ack)\<rparr>"

definition ack_finish :: "message \<Rightarrow> message \<Rightarrow> protocol_error + message" where
  "ack_finish ack req =
     (case GetCSeq req of
        Inl e \<Rightarrow> Inl e
      | Inr (_, n) \<Rightarrow>
          Inr (ack\<lparr>m_Header := hdr_Add (m_Header ack) ''CSeq'' (Itoa n @ '' ACK''), m_ctx := m_ctx req\<rparr>))"

text \<open>Neither argument is nil at a call; \<open>rndC\<close> goes to the Call-ID that is replaced, \<open>rnd\<close> to the branch.\<close>

definition GenerateAckFromRequestAndResponse ::
    "string option \<Rightarrow> string option \<Rightarrow> message \<Rightarrow> message \<Rightarrow> (protocol_error + message) run" where
  "GenerateAckFromRequestAndResponse rndC rnd req res =
     (let ack = CreateACK rndC (m_RemoteAddr req) in
      if \<not> m_Request req \<or> \<not> m_Response res then Inr (Inl ErrMalformedMessage)
      else bindR (deref (m_Via req)) (\<lambda>vs.
        if 200 \<le> m_StatusCode res \<and> m_StatusCode res < 300 then
          (case ack_vias rnd 0 vs NewViaHeaders of
             None \<Rightarrow> Inr (Inl ErrMalformedMessage)
           | Some via \<Rightarrow> Inr (ack_finish (ack_fields ack req res via) req))
        else
          (case ViaHeaders_TopMost vs of
             None \<Rightarrow> Inr (Inl ErrHeaderParseError)
           | Some v \<Rightarrow> Inr (ack_finish (ack_fields ack req res (ViaHeaders_Insert NewViaHeaders v)) req))))"

end
