(* ===== verification/Header_Facts.thy ===== *)
theory Header_Facts
  imports Headers
begin

text \<open>
  What the header parsers and printers promise: the Via list is a stack (an interface that
  the forwarding of requests and responses relies on), parsers read back what printers
  write, and the arithmetic of CSeq and Max-Forwards stays in its range. The panics of the
  parsers on malformed input are stated as results.
\<close>

section \<open>The Via stack\<close>

locale header_stack =
  fixes top_of :: "'s \<Rightarrow> 'a option"
    and push :: "'s \<Rightarrow> 'a \<Rightarrow> 's"
    and pop :: "'s \<Rightarrow> 'a option \<times> 's"
    and depth :: "'s \<Rightarrow> nat"
  assumes top_push: "top_of (push s x) = Some x"
    and pop_push: "pop (push s x) = (Some x, s)"
    and pop_top: "fst (pop s) = top_of s"
    and depth_push: "depth (push s x) = Suc (depth s)"
    and empty_top: "depth s = 0 \<longleftrightarrow> top_of s = None"
begin

definition pushes :: "'s \<Rightarrow> 'a list \<Rightarrow> 's" where
  "pushes s xs = foldl push s xs"

lemma depth_pushes: "depth (pushes s xs) = depth s + length xs"
  by (induction xs arbitrary: s) (auto simp: pushes_def depth_push)

lemma pops_pushes: "((snd \<circ> pop) ^^ length xs) (pushes s xs) = s"
proof (induction xs rule: rev_induct)
  case (snoc x xs)
  then show ?case by (simp add: pushes_def funpow_Suc_right pop_push del: funpow.simps)
qed (simp add: pushes_def)

lemma top_pushes: "xs \<noteq> [] \<Longrightarrow> top_of (pushes s xs) = Some (last xs)"
  by (cases xs rule: rev_cases) (auto simp: pushes_def top_push)

end

interpretation vias: header_stack ViaHeaders_TopMost ViaHeaders_Insert ViaHeaders_Pop ViaHeaders_Length
  by unfold_locales
    (auto simp: ViaHeaders_TopMost_def ViaHeaders_Insert_def ViaHeaders_Pop_def ViaHeaders_Length_def
      ViaHeaders_Get_def nth_append nat_diff_distrib)

lemma ViaHeaders_TopMost_last: "ViaHeaders_TopMost v = (if v = [] then None else Some (last v))"
  by (cases v rule: rev_cases) (auto simp: ViaHeaders_TopMost_def ViaHeaders_Get_def)

lemma ViaHeaders_Pop_butlast: "snd (ViaHeaders_Pop v) = butlast v"
  by (simp add: ViaHeaders_Pop_def ViaHeaders_Length_def butlast_conv_take)

section \<open>Via round trip\<close>

lemma blk_chars [simp]: "CHR '' '' \<in> set blk" "CHR '';'' \<notin> set blk" "CHR '','' \<notin> set blk"
  "CHR '':'' \<notin> set blk" "CHR ''@'' \<notin> set blk" "CHR ''-'' \<notin> set blk"
  by (simp_all add: blk_def)

lemma Trim_Nil [simp]: "Trim [] cs = []"
  by (simp add: Trim_def TrimLeft_def TrimRight_def)

lemma SplitN_2 [simp]: "c \<notin> set a \<Longrightarrow> SplitN (a @ c # b) c 2 = [a, b]"
  by (simp add: numeral_2_eq_2)

lemma SplitN_2_absent [simp]: "c \<notin> set a \<Longrightarrow> SplitN a c 2 = [a]"
  by (simp add: numeral_2_eq_2)

lemma Trim_Cons [simp]: "c \<in> set cs \<Longrightarrow> Trim (c # s) cs = Trim s cs"
  by (simp add: Trim_def TrimLeft_def)

definition via_wf :: "via \<Rightarrow> bool" where
  "via_wf v \<longleftrightarrow>
     via_SentProtocol v \<noteq> [] \<and> set (via_SentProtocol v) \<inter> set (blk @ '','') = {}
     \<and> via_SentBy v \<noteq> [] \<and> set (via_SentBy v) \<inter> set (blk @ '';,'') = {}
     \<and> set (via_RawParameter v) \<inter> {CHR '','', CHR 0x22} = {}
     \<and> (via_RawParameter v \<noteq> [] \<longrightarrow> hd (via_RawParameter v) \<notin> set (blk @ '';'')
          \<and> last (via_RawParameter v) \<notin> set (blk @ '';''))"

lemma via_sent_end_append:
  "set a \<inter> {CHR '';'', CHR '',''} = {} \<Longrightarrow> t = [] \<or> hd t \<in> {CHR '';'', CHR '',''} \<Longrightarrow>
     via_sent_end (a @ t) = length a"
  by (induction a) (cases t; auto)+

lemma via_params_end_append:
  "set p \<inter> {CHR '','', CHR 0x22} = {} \<Longrightarrow> t = [] \<or> hd t = CHR '','' \<Longrightarrow>
     via_params_end False (p @ t) = length p"
  by (induction p) (cases t; auto)+

text \<open>One value, followed by nothing or by a comma and more text.\<close>

lemma ParseVias_step:
  assumes w: "via_wf x" and t: "t = [] \<or> hd t = CHR '','' \<and> last t \<notin> set blk"
  shows "ParseVias (via_String x @ t) v = ParseVias (Trim t (blk @ '','')) (ViaHeaders_Append v x)"
proof -
  let ?p = "via_SentProtocol x" and ?b = "via_SentBy x" and ?q = "via_RawParameter x"
  let ?pt = "(if ?q \<noteq> [] then CHR '';'' # ?q else [])"
  let ?r = "?b @ ?pt @ t"
  have str: "via_String x @ t = ?p @ CHR '' '' # ?r"
    by (simp add: via_String_def)
  have ends: "hd ?p \<notin> set blk" "hd ?r \<notin> set blk" "last ?r \<notin> set blk"
    using w t by (auto simp: via_wf_def disjoint_iff hd_append last_append)
  have "Trim (?p @ CHR '' '' # ?r) blk = ?p @ CHR '' '' # ?r"
    using w ends by (intro Trim_id) (auto simp: via_wf_def)
  moreover have "SplitN (?p @ CHR '' '' # ?r) (CHR '' '') 2 = [?p, ?r]"
    using w blk_chars(1) by (intro SplitN_2) (auto simp: via_wf_def)
  moreover have "Trim ?p blk = ?p" using w by (intro Trim_disjoint) (auto simp: via_wf_def)
  moreover have r: "Trim ?r blk = ?r"
    using ends by (intro Trim_id) auto
  moreover have se: "via_sent_end ?r = length ?b"
    using w t by (intro via_sent_end_append) (auto simp: via_wf_def)
  moreover have "Trim ?b blk = ?b" using w by (intro Trim_disjoint) (auto simp: via_wf_def)
  moreover have pe: "via_params_end False (?pt @ t) = length ?pt"
    using w t by (intro via_params_end_append) (auto simp: via_wf_def)
  moreover have "Trim ?pt (blk @ '';'') = ?q"
    using w Trim_id [of ?q "blk @ '';''"] by (auto simp: via_wf_def)
  moreover have "NewViaHeader ?p ?b ?q = x"
  proof -
    have "Trim ?q (blk @ '';'') = ?q" using w by (intro Trim_id) (auto simp: via_wf_def)
    then show ?thesis
      using \<open>Trim ?p blk = ?p\<close> \<open>Trim ?b blk = ?b\<close> by (simp add: NewViaHeader_def)
  qed
  ultimately show ?thesis
    unfolding str by (subst ParseVias.simps) (simp add: Let_def del: ParseVias.simps)
qed

lemma ParseVias_Nil [simp]: "ParseVias [] v = Inr v"
  by (simp add: ParseVias.simps)

lemma ParseVias_String: "via_wf x \<Longrightarrow> ParseVias (via_String x) v = Inr (ViaHeaders_Append v x)"
  using ParseVias_step [of x "[]" v] by simp


lemma via_String_ends:
  assumes "via_wf x"
  shows "via_String x \<noteq> []" "hd (via_String x) \<notin> set (blk @ '','')"
    "last (via_String x) \<notin> set (blk @ '','')"
  using assms by (auto simp: via_String_def via_wf_def disjoint_iff last_append)

lemma Join_ends:
  assumes "xs \<noteq> []" "\<forall>x \<in> set xs. x \<noteq> [] \<and> hd x \<notin> C \<and> last x \<notin> C"
  shows "Join xs sep \<noteq> [] \<and> hd (Join xs sep) \<notin> C \<and> last (Join xs sep) \<notin> C"
  using assms by (induction xs sep rule: Join.induct) auto

text \<open>A header field with several values, separated by a comma and a blank.\<close>

lemma ParseVias_Join:
  "xs \<noteq> [] \<Longrightarrow> \<forall>x \<in> set xs. via_wf x \<Longrightarrow>
     ParseVias (Join (map via_String xs) '', '') v = Inr (rev xs @ v)"
proof (induction xs arbitrary: v)
  case (Cons x xs)
  show ?case
  proof (cases xs)
    case Nil
    with Cons.prems show ?thesis
      by (simp add: ParseVias_String ViaHeaders_Append_def)
  next
    case (Cons y ys)
    let ?u = "Join (map via_String xs) '', ''"
    have u: "?u \<noteq> [] \<and> hd ?u \<notin> set (blk @ '','') \<and> last ?u \<notin> set (blk @ '','')"
      using Cons Cons.prems via_String_ends by (intro Join_ends) auto
    then have t: "Trim ('', '' @ ?u) (blk @ '','') = ?u"
      by (simp add: Trim_id)
    have "ParseVias (via_String x @ '', '' @ ?u) v = ParseVias ?u (ViaHeaders_Append v x)"
      using ParseVias_step [of x "'', '' @ ?u" v] u t Cons.prems by auto
    then show ?thesis
      using Cons Cons.IH [of "ViaHeaders_Append v x"] Cons.prems
      by (simp add: ViaHeaders_Append_def)
  qed
qed simp

text \<open>One header field per value, as \<open>WriteHeader\<close> writes them.\<close>

definition ParseVias_all :: "string list \<Rightarrow> via_headers \<Rightarrow> via_headers run" where
  "ParseVias_all vs v = foldl (\<lambda>r s. bindR r (ParseVias s)) (Inr v) vs"

lemma ParseVias_all_String:
  "\<forall>x \<in> set xs. via_wf x \<Longrightarrow> ParseVias_all (map via_String xs) v = Inr (rev xs @ v)"
proof (induction xs arbitrary: v)
  case (Cons x xs)
  then show ?case
    by (simp add: ParseVias_all_def ParseVias_String ViaHeaders_Append_def)
qed (simp add: ParseVias_all_def)

lemma ParseVias_panic:
  "s \<noteq> [] \<Longrightarrow> CHR '' '' \<notin> set (Trim s blk) \<Longrightarrow> ParseVias s v = Inl IndexOutOfRange"
  by (simp add: ParseVias.simps)

section \<open>CSeq, Call-ID, Max-Forwards\<close>

lemma dec_digits_ends:
  "hd (dec_digits n) \<noteq> CHR '' ''" "hd (dec_digits n) \<notin> set blk" "CHR '' '' \<notin> set (dec_digits n)"
proof -
  have "CHR '' '' \<notin> set (dec_digits n) \<and> set (dec_digits n) \<inter> set blk = {}"
    using dec_digits_digit [of n] by (auto simp: is_digit_def blk_def byte_val_def)
  moreover have "hd (dec_digits n) \<in> set (dec_digits n)" by simp
  ultimately show "hd (dec_digits n) \<noteq> CHR '' ''" "hd (dec_digits n) \<notin> set blk"
    "CHR '' '' \<notin> set (dec_digits n)" by (metis disjoint_iff)+
qed

lemma Itoa_ends: "Itoa n \<noteq> []" "hd (Itoa n) \<notin> set blk" "CHR '' '' \<notin> set (Itoa n)"
  using dec_digits_ends by (auto simp: Itoa_def)

lemma ParseCSeq_String:
  assumes "in_int64 (cs_Sequence c)" "cs_Sequence c < 2 ^ 32"
    and "cs_Method c \<noteq> []" "hd (cs_Method c) \<notin> set blk" "last (cs_Method c) \<notin> set blk"
  shows "ParseCSeq (cseq_String c) = Inr (Some c)"
proof -
  let ?s = "Itoa (cs_Sequence c) @ CHR '' '' # cs_Method c"
  have "cseq_String c = ?s" using assms by (simp add: cseq_String_def)
  moreover have "Trim ?s blk = ?s"
    using assms Itoa_ends by (intro Trim_id) auto
  moreover have "SplitN ?s (CHR '' '') 2 = [Itoa (cs_Sequence c), cs_Method c]"
    using Itoa_ends by simp
  moreover have "Trim (cs_Method c) blk = cs_Method c"
    using assms by (intro Trim_id) auto
  ultimately show ?thesis
    using assms by (simp add: ParseCSeq_def ParseInt_Itoa)
qed

lemma ParseCSeq_panic:
  "CHR '' '' \<notin> set (Trim s blk) \<Longrightarrow> ParseCSeq s = Inl IndexOutOfRange"
  by (simp add: ParseCSeq_def)

lemma cseq_Increment_mod:
  assumes "0 \<le> cs_Sequence c" "cs_Sequence c < 2 ^ 32"
  shows "cseq_Increment c = (c\<lparr>cs_Sequence := (cs_Sequence c + 1) mod 2 ^ 32\<rparr>, (cs_Sequence c + 1) mod 2 ^ 32)"
proof -
  have "in_int64 (cs_Sequence c + 1)" using assms by (simp add: in_int64_def)
  then show ?thesis using assms by (auto simp: cseq_Increment_def Let_def)
qed

lemma ParseCallID_String:
  assumes "CHR ''@'' \<notin> set (ci_Identifier c)" "Trim (ci_Identifier c) blk = ci_Identifier c"
    and "Trim (ci_Host c) blk = ci_Host c"
  shows "ParseCallID (call_id_String c) = c"
  using assms by (auto simp: ParseCallID_def call_id_String_def)

text \<open>\<open>Decrement\<close> on every 64-bit value: the least integer wraps around and passes.\<close>

lemma max_forwards_Decrement_cases:
  assumes "in_int64 (mf_Remains m)"
  shows "max_forwards_Decrement m =
     (if mf_Remains m = - (2 ^ 63) then (m\<lparr>mf_Remains := 2 ^ 63 - 1\<rparr>, True)
      else if mf_Remains m \<le> 1 then (m\<lparr>mf_Remains := 0\<rparr>, False)
      else (m\<lparr>mf_Remains := mf_Remains m - 1\<rparr>, True))"
proof (cases "mf_Remains m = - (2 ^ 63)")
  case True
  moreover have "wrap64 (- (2 ^ 63) - 1) = 2 ^ 63 - 1" by (simp add: wrap64_def)
  ultimately show ?thesis by (simp add: max_forwards_Decrement_def)
next
  case False
  then have "in_int64 (mf_Remains m - 1)" using assms by (auto simp: in_int64_def)
  then show ?thesis using False by (auto simp: max_forwards_Decrement_def Let_def)
qed

lemma ParseMaxForwards_String: "in_int64 (mf_Remains m) \<Longrightarrow> ParseMaxForwards (max_forwards_String m) = Some m"
  by (cases m) (simp add: ParseMaxForwards_def max_forwards_String_def ParseInt_Itoa)

section \<open>Random identifiers\<close>

lemma letters_token: "set letters \<subseteq> Collect validHeaderFieldByte"
proof -
  have "list_all validHeaderFieldByte letters" by code_simp
  then show ?thesis by (auto simp: list_all_iff)
qed

lemma GenerateRandomString_token:
  assumes "GenerateRandomString (Some bs) = Some r"
  shows "length r = length bs \<and> validToken r"
proof -
  have "letters ! (byte_val b mod length letters) \<in> set letters" for b
    by (rule nth_mem) (simp add: letters_def)
  then show ?thesis
    using assms subsetD [OF letters_token] by (auto simp: GenerateRandomString_def validToken_def)
qed

lemma GenerateBranchParam_valid: "IsValidBarnchParam (GenerateBranchParam (Some bs))"
  by (simp add: IsValidBarnchParam_def GenerateBranchParam_def GenerateRandomString_def
      MagicViaBranch_def HasPrefix_def)

section \<open>Name addresses\<close>

abbreviation quote :: char where
  "quote \<equiv> CHR 0x22"

lemma name_addr_loop_skip:
  "set a \<inter> {CHR ''<'', CHR ''>'', quote} = {} \<Longrightarrow>
     name_addr_loop (a @ s) idx de us ue lt q pc
       = name_addr_loop s (idx + length a) de us ue lt q (if a = [] then pc else last a)"
proof (induction a arbitrary: idx pc)
  case (Cons c a)
  then show ?case using Cons.IH [of "Suc idx" c] by auto
qed simp

lemma name_addr_loop_quoted:
  "quote \<notin> set a \<Longrightarrow>
     name_addr_loop (a @ s) idx de us ue lt True pc
       = name_addr_loop s (idx + length a) de us ue lt True (if a = [] then pc else last a)"
proof (induction a arbitrary: idx pc)
  case (Cons c a)
  then show ?case using Cons.IH [of "Suc idx" c] by auto
qed simp

definition plain_uri :: "uri \<Rightarrow> bool" where
  "plain_uri u \<longleftrightarrow> sip_uri_wf u \<and> set (uri_String u) \<inter> set (blk @ [CHR ''<'', CHR ''>'', quote]) = {}"

definition display_wf :: "string \<Rightarrow> bool" where
  "display_wf d \<longleftrightarrow> quote \<notin> set d \<and>
     (d \<noteq> [] \<longrightarrow> hd d \<notin> set blk \<and> last d \<notin> set blk \<and> last d \<noteq> CHR 0x5C)"

lemma plain_uri_ends:
  assumes "plain_uri u"
  shows "uri_String u \<noteq> []" "Trim (uri_String u) '' <>'' = uri_String u"
    "Trim (uri_String u) blk = uri_String u" "Parse (uri_String u) = Inr u"
  using assms blk_chars(1) Parse_String [of u]
  by (auto simp: plain_uri_def disjoint_iff uri_String_sip intro!: Trim_disjoint)

text \<open>The part from the opening bracket on.\<close>

lemma name_addr_loop_bracket:
  assumes "set t \<inter> {CHR ''<'', CHR ''>'', quote} = {}"
  shows "name_addr_loop (CHR ''<'' # t @ CHR ''>'' # r) n de us ue False False pc
    = (Some n, Suc n, Suc n + length t, False, False)"
  using name_addr_loop_skip [OF assms, of "CHR ''>'' # r" "Suc n" "Some n" "Suc n" ue True False "CHR ''<''"]
  by simp

lemma ParseNameAddr_bracket:
  assumes u: "plain_uri u" and d: "display_wf d" and dt: "Trim x (CHR '' '' # [quote]) = d"
    and l: "\<And>ue. name_addr_loop (x @ CHR ''<'' # uri_String u @ CHR ''>'' # r) 0 None 0 ue
        False False (CHR 0x00)
      = (Some (length x), Suc (length x), Suc (length x) + length (uri_String u), False, False)"
  shows "ParseNameAddr (x @ CHR ''<'' # uri_String u @ CHR ''>'' # r)
    = (Some \<lparr>na_DisplayName = d, na_Uri = Some u\<rparr>, TrimLeft r '' <>'')"
proof -
  have "Trim d blk = d" using d by (intro Trim_id) (auto simp: display_wf_def)
  moreover have "x = [] \<Longrightarrow> d = []" using dt by simp
  ultimately show ?thesis
    using plain_uri_ends [OF u] dt
    by (auto simp: ParseNameAddr_def l NewNameAddrUriString_def NewNameAddr_def TrimLeft_def)
qed

lemma token_chars:
  assumes "validToken d"
  shows "set d \<inter> set (blk @ [CHR ''<'', CHR ''>'', quote]) = {}"
proof -
  have "list_all (\<lambda>c. \<not> validHeaderFieldByte c) (blk @ [CHR ''<'', CHR ''>'', quote])" by code_simp
  with assms show ?thesis by (auto simp: validToken_def list_all_iff)
qed

lemma plain_uri_brackets: "plain_uri u \<Longrightarrow> set (uri_String u) \<inter> {CHR ''<'', CHR ''>'', quote} = {}"
  by (auto simp: plain_uri_def)

lemma Trim_blank_quote:
  assumes "d \<noteq> []" "hd d \<notin> {CHR '' '', quote}" "last d \<notin> {CHR '' '', quote}"
    and "set t \<subseteq> {CHR '' '', quote}"
  shows "Trim (d @ t) (CHR '' '' # [quote]) = d"
proof -
  have "TrimLeft (d @ t) (CHR '' '' # [quote]) = d @ t"
    using assms by (cases d) (auto simp: TrimLeft_def)
  moreover have "dropWhile (\<lambda>c. c = CHR '' '' \<or> c = quote) (rev t @ rev d)
      = dropWhile (\<lambda>c. c = CHR '' '' \<or> c = quote) (rev d)"
    using assms(4) by (intro dropWhile_append2) auto
  moreover have "dropWhile (\<lambda>c. c = CHR '' '' \<or> c = quote) (rev d) = rev d"
    using assms by (cases d rule: rev_cases) auto
  ultimately show ?thesis by (simp add: Trim_def TrimRight_def)
qed

lemma ParseNameAddr_token:
  assumes u: "plain_uri u" and d: "validToken d" "display_wf d" "d \<noteq> []"
  shows "ParseNameAddr (d @ '' <'' @ uri_String u @ ''>'' @ r)
    = (Some \<lparr>na_DisplayName = d, na_Uri = Some u\<rparr>, TrimLeft r '' <>'')"
proof -
  have t: "set d \<inter> {CHR ''<'', CHR ''>'', quote, CHR '' ''} = {}"
    using token_chars [OF d(1)] blk_chars(1) by auto
  then have "Trim (d @ '' '') (CHR '' '' # [quote]) = d"
    using d(3) by (intro Trim_blank_quote) (auto simp: hd_in_set last_in_set disjoint_iff)
  moreover have "set (d @ '' '') \<inter> {CHR ''<'', CHR ''>'', quote} = {}" using t by auto
  ultimately show ?thesis
    using ParseNameAddr_bracket [OF u d(2), of "d @ '' ''" r]
      name_addr_loop_skip [of "d @ '' ''"] name_addr_loop_bracket [OF plain_uri_brackets [OF u]]
    by simp
qed

lemma ParseNameAddr_quoted:
  assumes u: "plain_uri u" and d: "display_wf d" "d \<noteq> []"
  shows "ParseNameAddr ([quote] @ d @ [quote] @ '' <'' @ uri_String u @ ''>'' @ r)
    = (Some \<lparr>na_DisplayName = d, na_Uri = Some u\<rparr>, TrimLeft r '' <>'')"
proof -
  let ?x = "[quote] @ d @ [quote] @ '' ''"
  have m: "hd d \<in> set d" "last d \<in> set d" using d(2) by auto
  have e: "hd d \<notin> {CHR '' '', quote}" "last d \<notin> {CHR '' '', quote}" "last d \<noteq> CHR 0x5C" "quote \<notin> set d"
    using d blk_chars(1) m unfolding display_wf_def by (metis insertE singletonD)+
  have "Trim ?x (CHR '' '' # [quote]) = Trim (d @ [quote] @ '' '') (CHR '' '' # [quote])" by simp
  also have "\<dots> = d" using e d(2) by (intro Trim_blank_quote) auto
  finally have "Trim ?x (CHR '' '' # [quote]) = d" .
  moreover have "name_addr_loop (?x @ CHR ''<'' # uri_String u @ CHR ''>'' # r) 0 None 0 ue False False (CHR 0x00)
      = (Some (length ?x), Suc (length ?x), Suc (length ?x) + length (uri_String u), False, False)" for ue
    using e d(2) name_addr_loop_quoted [OF e(4)] name_addr_loop_bracket [OF plain_uri_brackets [OF u]]
    by simp
  ultimately show ?thesis
    using ParseNameAddr_bracket [OF u d(1), of ?x r] by simp
qed

lemma ParseNameAddr_angle:
  assumes u: "plain_uri u"
  shows "ParseNameAddr (''<'' @ uri_String u @ ''>'' @ r)
    = (Some \<lparr>na_DisplayName = [], na_Uri = Some u\<rparr>, TrimLeft r '' <>'')"
  using ParseNameAddr_bracket [OF u, of "[]" "[]" r] name_addr_loop_bracket [OF plain_uri_brackets [OF u]]
  by (simp add: display_wf_def)

lemma ParseNameAddr_bare:
  assumes u: "plain_uri u"
  shows "ParseNameAddr (uri_String u) = (Some \<lparr>na_DisplayName = [], na_Uri = Some u\<rparr>, [])"
  using name_addr_loop_skip [OF plain_uri_brackets [OF u], of "[]"] plain_uri_ends [OF u]
  by (simp add: ParseNameAddr_def NewNameAddrUriString_def NewNameAddr_def TrimLeft_def)

text \<open>Whether \<open>String\<close> prints the URI alone, without angle brackets.\<close>

definition prints_bare :: "name_addr \<Rightarrow> uri \<Rightarrow> bool" where
  "prints_bare a u \<longleftrightarrow> na_DisplayName a = [] \<and> u_RawParameter u = []
     \<and> validToken (userinfo_String (u_User u)) \<and> validToken (u_Host u)"

definition name_addr_wf :: "name_addr \<Rightarrow> bool" where
  "name_addr_wf a \<longleftrightarrow> display_wf (na_DisplayName a) \<and>
     (case na_Uri a of None \<Rightarrow> False | Some u \<Rightarrow> plain_uri u)"

text \<open>Parsing a printed address, followed by header parameters unless it is printed bare.\<close>

lemma ParseNameAddr_String:
  assumes w: "name_addr_wf a" and u: "na_Uri a = Some u" and r: "prints_bare a u \<longrightarrow> r = []"
  shows "\<exists>s. name_addr_String (Some a) = Inr s \<and> ParseNameAddr (s @ r) = (Some a, TrimLeft r '' <>'')"
proof -
  have a: "a = \<lparr>na_DisplayName = na_DisplayName a, na_Uri = Some u\<rparr>"
    using u by (cases a) simp
  have pu: "plain_uri u" and d: "display_wf (na_DisplayName a)"
    using w u by (auto simp: name_addr_wf_def)
  show ?thesis
  proof (cases "na_DisplayName a = []")
    case True
    then show ?thesis
      using ParseNameAddr_angle [OF pu, of r] ParseNameAddr_bare [OF pu] u a r
      by (auto simp: name_addr_String_def prints_bare_def Let_def TrimLeft_def)
  next
    case False
    then show ?thesis
      using ParseNameAddr_token [OF pu _ d False, of r] ParseNameAddr_quoted [OF pu d False, of r] u a
      by (auto simp: name_addr_String_def Let_def)
  qed
qed

section \<open>To and From\<close>

definition to_wf :: "to_header \<Rightarrow> bool" where
  "to_wf t \<longleftrightarrow>
     (case to_Addr t of None \<Rightarrow> False
      | Some a \<Rightarrow> name_addr_wf a \<and>
          (case na_Uri a of None \<Rightarrow> True | Some u \<Rightarrow> prints_bare a u \<longrightarrow> to_RawParameter t = []))
     \<and> (to_RawParameter t \<noteq> [] \<longrightarrow> hd (to_RawParameter t) \<notin> set (blk @ '';'')
          \<and> last (to_RawParameter t) \<notin> set (blk @ '';''))"

lemma ParseTo_String:
  assumes w: "to_wf t" shows "\<exists>s. to_String t = Inr s \<and> ParseTo s = t"
proof -
  obtain a u where a: "to_Addr t = Some a" "na_Uri a = Some u"
    using w by (auto simp: to_wf_def name_addr_wf_def split: option.splits)
  let ?p = "to_RawParameter t"
  let ?r = "(if ?p = [] then [] else '';'' @ ?p)"
  obtain s where s: "name_addr_String (Some a) = Inr s"
    "ParseNameAddr (s @ ?r) = (Some a, TrimLeft ?r '' <>'')"
    using ParseNameAddr_String [of a u ?r] w a by (auto simp: to_wf_def)
  have 1: "TrimLeft ?r '' <>'' = ?r" by (simp add: TrimLeft_def)
  have "Trim ?p '' ;'' = ?p" "Trim ?p (blk @ '';'') = ?p"
    using w blk_chars(1) by (auto simp: to_wf_def intro!: Trim_id)
  then have 2: "Trim (Trim ?r '' ;'') (blk @ '';'') = ?p" by simp
  show ?thesis
    using s 1 2 a by (cases t) (auto simp: to_String_def ParseTo_def ParseFrom_def NewToHeader_def)
qed

text \<open>
  Header parameters after an address printed bare come back as parameters of the URI, and
  the header has none.
\<close>

lemma ParseTo_bare:
  assumes u: "plain_uri (u\<lparr>u_RawParameter := p\<rparr>)" and p: "p \<noteq> []"
    and n: "u_RawParameter u = []" "u_RawQuery u = []" "\<not> u_ForceQuery u"
  shows "ParseTo (uri_String u @ '';'' @ p)
    = \<lparr>to_Addr = Some \<lparr>na_DisplayName = [], na_Uri = Some (u\<lparr>u_RawParameter := p\<rparr>)\<rparr>, to_RawParameter = []\<rparr>"
proof -
  let ?v = "u\<lparr>u_RawParameter := p\<rparr>"
  have w: "sip_uri_wf ?v" using u by (simp add: plain_uri_def)
  then have "sip_uri_wf u"
    using n by (simp add: sip_uri_wf_def text_wf_def stringContainsCTLByte_def)
  then have "uri_String u @ '';'' @ p = uri_String ?v"
    using w n p by (auto simp: uri_String_sip authority_text_def hostport_text_def query_text_def
        split: option.splits)
  then show ?thesis
    using ParseNameAddr_bare [OF u] by (simp add: ParseTo_def ParseFrom_def NewToHeader_def)
qed

end
