(* ===== verification/Message_Facts.thy ===== *)
theory Message_Facts
  imports Message Header_Facts
begin

text \<open>
  What writing and reading promise for whole messages: the header section a message is
  written to is read back into the same structures, for requests and responses.
\<close>

section \<open>Values that fit on a line\<close>

definition text_line :: "string \<Rightarrow> bool" where
  "text_line s \<longleftrightarrow> s \<noteq> [] \<and> set s \<inter> {CR, LF} = {} \<and> \<not> is_blank (hd s) \<and> \<not> is_blank (last s)"

lemma line_wf_text: "line_wf (k, v) \<longleftrightarrow> validToken k \<and> k \<noteq> [] \<and> text_line v"
  by (auto simp: line_wf_def text_line_def)

lemma blk_is_blank: "is_blank c \<Longrightarrow> c \<in> set blk"
  by (auto simp: is_blank_def blk_def)

text \<open>A Via value that fits on a line: no line end inside.\<close>

definition via_line_wf :: "via \<Rightarrow> bool" where
  "via_line_wf v \<longleftrightarrow> set (via_SentProtocol v @ via_SentBy v @ via_RawParameter v) \<inter> {CR, LF} = {}"

lemma via_text_line: "via_wf x \<Longrightarrow> via_line_wf x \<Longrightarrow> text_line (via_String x)"
proof -
  assume x: "via_wf x" "via_line_wf x"
  have "set (via_String x) \<inter> {CR, LF} = {}"
    using x by (auto simp: via_line_wf_def via_String_def CR_def LF_def)
  then show ?thesis
    using via_String_ends [OF x(1)] blk_is_blank by (auto simp: text_line_def)
qed

lemma via_field_wf: "via_wf x \<Longrightarrow> via_line_wf x \<Longrightarrow> field_wf (''Via'', via_String x)"
proof -
  assume x: "via_wf x" "via_line_wf x"
  have "validToken ''Via''" by code_simp
  then show ?thesis using via_text_line [OF x] by (simp add: field_wf_def line_wf_text)
qed

section \<open>Contact\<close>

definition contact_wf :: "contact \<Rightarrow> bool" where
  "contact_wf c \<longleftrightarrow> c = contact_star \<or>
     \<not> co_Star c \<and> CHR '','' \<notin> set (co_RawParameter c) \<and> to_wf \<lparr>to_Addr = co_Addr c, to_RawParameter = co_RawParameter c\<rparr>"

lemma ParseNameAddr_star:
  "ParseNameAddr ''*'' = (Some \<lparr>na_DisplayName = [], na_Uri = Some (new_uri\<lparr>u_Path := ''*''\<rparr>)\<rparr>, [])"
  by code_simp

lemma ParseContacts_Nil [simp]: "ParseContacts [] cons = Inr cons"
  by (simp add: ParseContacts.simps)

lemma ParseContacts_star: "ParseContacts ''*'' cons = Inr (cons @ [contact_star])"
  by (simp add: ParseContacts.simps [of "''*''"] ParseNameAddr_star params_and_trail_def Let_def
      newContactHeader_def ContactHeaders_Add_def)

lemma params_and_trail_one: "CHR '','' \<notin> set s \<Longrightarrow> params_and_trail s = (Trim s (CHR 0x09 # '' ;''), [])"
  by (simp add: params_and_trail_def)

lemma ParseContacts_String:
  assumes w: "contact_wf c" shows "\<exists>s. contact_String c = Inr s \<and> ParseContacts s cons = Inr (cons @ [c])"
proof (cases "c = contact_star")
  case True
  then show ?thesis using ParseContacts_star by (simp add: contact_String_def contact_star_def)
next
  case False
  let ?p = "co_RawParameter c"
  let ?r = "(if ?p = [] then [] else '';'' @ ?p)"
  have tw: "to_wf \<lparr>to_Addr = co_Addr c, to_RawParameter = ?p\<rparr>" "\<not> co_Star c" "CHR '','' \<notin> set ?p"
    using w False by (auto simp: contact_wf_def)
  then obtain a u where a: "co_Addr c = Some a" "na_Uri a = Some u" "name_addr_wf a"
      "prints_bare a u \<longrightarrow> ?p = []"
    by (auto simp: to_wf_def name_addr_wf_def split: option.splits)
  obtain s where s: "name_addr_String (Some a) = Inr s" "ParseNameAddr (s @ ?r) = (Some a, TrimLeft ?r '' <>'')"
    using ParseNameAddr_String [of a u ?r] a by auto
  have 1: "TrimLeft ?r '' <>'' = ?r" by (simp add: TrimLeft_def)
  have "?p \<noteq> [] \<longrightarrow> hd ?p \<notin> set (blk @ '';'') \<and> last ?p \<notin> set (blk @ '';'')"
    using tw(1) by (simp add: to_wf_def)
  then have "Trim ?p (blk @ '';'') = ?p" "Trim ?p (CHR 0x09 # '' ;'') = ?p"
    by (auto simp: blk_def intro!: Trim_id)
  then have 2: "Trim (Trim ?r (CHR 0x09 # '' ;'')) (blk @ '';'') = ?p" by simp
  have pu: "u_Path u = []" using a by (simp add: name_addr_wf_def plain_uri_def sip_uri_wf_def)
  have ne: "s \<noteq> []" using s(1) a by (auto simp: name_addr_String_def Let_def name_addr_wf_def
      dest: plain_uri_ends split: if_splits)
  have nc: "CHR '','' \<notin> set ?r" using tw(3) by simp
  have "c = \<lparr>co_Star = False, co_Addr = Some a, co_RawParameter = ?p\<rparr>" using tw(2) a by (cases c) simp
  then have "newContactHeader (Some a) (Trim ?r (CHR 0x09 # '' ;'')) False = Inr c"
    using 2 pu a by (simp add: newContactHeader_def)
  then have "ParseContacts (s @ ?r) cons = Inr (cons @ [c])"
    using s(2) 1 ne params_and_trail_one [OF nc]
    by (subst ParseContacts.simps) (simp add: ContactHeaders_Add_def)
  moreover have "contact_String c = Inr (s @ ?r)" using s(1) tw(2) a by (simp add: contact_String_def)
  ultimately show ?thesis by blast
qed

section \<open>The fields a message is written as\<close>

definition contact_text :: "contact \<Rightarrow> string" where
  "contact_text c = (case contact_String c of Inr s \<Rightarrow> s | Inl _ \<Rightarrow> [])"

definition opt_field :: "string \<Rightarrow> ('a \<Rightarrow> string) \<Rightarrow> 'a option \<Rightarrow> (string \<times> string) list" where
  "opt_field k f v = (case v of None \<Rightarrow> [] | Some x \<Rightarrow> [(k, f x)])"

definition list_field :: "string \<Rightarrow> ('a \<Rightarrow> string) \<Rightarrow> 'a list option \<Rightarrow> (string \<times> string) list" where
  "list_field k f v = (case v of None \<Rightarrow> [] | Some xs \<Rightarrow> map (\<lambda>x. (k, f x)) xs)"

definition own_pairs :: "message \<Rightarrow> (string \<times> string) list" where
  "own_pairs m =
     opt_field ''To'' (\<lambda>t. fmt_Stringer (to_String t)) (m_To m)
     @ opt_field ''From'' (\<lambda>t. fmt_Stringer (to_String t)) (m_From m)
     @ list_field ''Via'' via_String (map_option rev (m_Via m))
     @ opt_field ''Max-Forwards'' max_forwards_String (m_MaxForwards m)
     @ opt_field ''Call-ID'' call_id_String (m_CallID m)
     @ opt_field ''CSeq'' cseq_String (m_CSeq m)
     @ list_field ''Contact'' contact_text (m_Contact m)"

definition other_block :: "kvs \<Rightarrow> string \<Rightarrow> (string \<times> string) list" where
  "other_block h lkey = map (Pair (written_key (orig_key h lkey))) (hdr_Values h lkey)"

definition other_pairs :: "string list \<Rightarrow> kvs \<Rightarrow> (string \<times> string) list" where
  "other_pairs ignores h =
     concat (map (other_block h)
       (filter (\<lambda>l. l \<notin> set ignores) (sort (map (\<lambda>(k, vs). ToLower k) h))))"

definition written_pairs :: "message \<Rightarrow> (string \<times> string) list" where
  "written_pairs m = own_pairs m @ other_pairs (write_ignores m) (m_Header m)"

lemma other_fields_pairs: "other_fields ignores h = concat (map write_field (other_pairs ignores h))"
proof -
  have "concat (map (\<lambda>l. if l \<in> set ignores then []
        else concat (map (\<lambda>v. written_key (orig_key h l) @ '': '' @ v @ crlf) (hdr_Values h l))) ls)
      = concat (map write_field (concat (map (other_block h) (filter (\<lambda>l. l \<notin> set ignores) ls))))" for ls
    by (induction ls) (auto simp: other_block_def write_field_def comp_def)
  then show ?thesis by (simp add: other_fields_def other_pairs_def)
qed

lemma contact_text_ok: "contact_wf c \<Longrightarrow> contact_String c = Inr (contact_text c)"
  using ParseContacts_String [of c "[]"] by (auto simp: contact_text_def)

lemma contacts_written:
  "\<forall>c \<in> set cs. contact_wf c \<Longrightarrow>
     ContactHeaders_WriteHeader False cs = Inr (concat (map (\<lambda>c. write_field (''Contact'', contact_text c)) cs))"
proof (induction cs)
  case (Cons c cs)
  then show ?case
    by (simp add: contact_text_ok write_field_def crlf_def CR_def LF_def)
qed simp

lemma vias_written:
  "ViaHeaders_WriteHeader False vs = concat (map (\<lambda>x. write_field (''Via'', via_String x)) (rev vs))"
  by (simp add: ViaHeaders_WriteHeader_def write_field_def crlf_def CR_def LF_def comp_def)

lemma writeHeader_pairs:
  assumes "case m_Contact m of None \<Rightarrow> True | Some cs \<Rightarrow> \<forall>c \<in> set cs. contact_wf c"
  shows "writeHeader False m = Inr (concat (map write_field (written_pairs m)))"
  using assms
  by (auto simp: writeHeader_def own_fields_def written_pairs_def own_pairs_def opt_field_def list_field_def
      other_fields_pairs contacts_written vias_written write_field_def comp_def split: option.splits)

section \<open>Parsing the fields back\<close>

lemma parse_contacts_back:
  "\<forall>c \<in> set cs. contact_wf c \<Longrightarrow> parse_each ParseContacts (map contact_text cs) acc = Inr (acc @ cs)"
proof (induction cs arbitrary: acc)
  case (Cons c cs)
  then show ?case using ParseContacts_String [of c acc] by (auto simp: contact_text_def)
qed simp

lemma parse_vias_back:
  "\<forall>x \<in> set xs. via_wf x \<Longrightarrow> parse_each ParseVias (map via_String xs) acc = Inr (rev xs @ acc)"
  by (induction xs arbitrary: acc) (simp_all add: ParseVias_String ViaHeaders_Append_def)

definition reserved :: "string list" where
  "reserved = [''to'', ''from'', ''via'', ''max-forwards'', ''call-id'', ''cseq'', ''contact'']"

definition cseq_wf :: "cseq \<Rightarrow> bool" where
  "cseq_wf c \<longleftrightarrow> in_int64 (cs_Sequence c) \<and> cs_Sequence c < 2 ^ 32 \<and> cs_Method c \<noteq> []
     \<and> hd (cs_Method c) \<notin> set blk \<and> last (cs_Method c) \<notin> set blk"

definition call_id_wf :: "call_id \<Rightarrow> bool" where
  "call_id_wf c \<longleftrightarrow> CHR ''@'' \<notin> set (ci_Identifier c) \<and> Trim (ci_Identifier c) blk = ci_Identifier c
     \<and> Trim (ci_Host c) blk = ci_Host c"

definition opt_all :: "('a \<Rightarrow> bool) \<Rightarrow> 'a option \<Rightarrow> bool" where
  "opt_all P v = (case v of None \<Rightarrow> True | Some x \<Rightarrow> P x)"

text \<open>Each structure is one its parser reads back from its text.\<close>

definition own_wf :: "message \<Rightarrow> bool" where
  "own_wf m \<longleftrightarrow> opt_all to_wf (m_To m) \<and> opt_all to_wf (m_From m)
     \<and> opt_all (\<lambda>v. v \<noteq> [] \<and> list_all via_wf v) (m_Via m)
     \<and> opt_all (\<lambda>f. in_int64 (mf_Remains f)) (m_MaxForwards m)
     \<and> opt_all call_id_wf (m_CallID m) \<and> opt_all cseq_wf (m_CSeq m)
     \<and> opt_all (\<lambda>cs. cs \<noteq> [] \<and> list_all contact_wf cs) (m_Contact m)"

text \<open>
  The other fields: canonical names, each once, none of which names a structure that the
  message lacks.
\<close>

definition others_wf :: "message \<Rightarrow> bool" where
  "others_wf m \<longleftrightarrow> distinct (map fst (m_Header m))
     \<and> list_all (\<lambda>k. validToken k \<and> 2 \<le> length k \<and> canonicalMIMEHeaderKey k = k
          \<and> (ToLower k \<in> set reserved \<longrightarrow> ToLower k \<in> set (write_ignores m))) (map fst (m_Header m))"

definition message_wf :: "message \<Rightarrow> bool" where
  "message_wf m \<longleftrightarrow> own_wf m \<and> others_wf m \<and> list_all (\<lambda>f. text_line (snd f)) (written_pairs m)"

section \<open>Looking the fields up\<close>

lemma concat_map_one:
  "distinct L \<Longrightarrow> (\<forall>y \<in> set L. y \<noteq> x \<longrightarrow> g y = []) \<Longrightarrow>
     concat (map g L) = (if x \<in> set L then g x else [])"
  by (induction L) auto

definition key_wf :: "string \<Rightarrow> bool" where
  "key_wf k \<longleftrightarrow> validToken k \<and> 2 \<le> length k \<and> canonicalMIMEHeaderKey k = k"

lemma key_lower: "key_wf k \<Longrightarrow> canonicalMIMEHeaderKey (ToLower k) = k"
  using canonicalMIMEHeaderKey_case [of k "ToLower k"] by (simp add: key_wf_def)

lemma key_lower_inj: "key_wf k \<Longrightarrow> key_wf k' \<Longrightarrow> ToLower k = ToLower k' \<Longrightarrow> k = k'"
  using key_lower by metis

lemma orig_key_lower:
  assumes "\<forall>k \<in> fst ` set h. key_wf k" "k \<in> fst ` set h"
  shows "orig_key h (ToLower k) = k"
proof -
  let ?m = "map_of (rev (map (\<lambda>(k, vs). (ToLower k, k)) h))"
  have "ToLower k \<in> fst ` set (rev (map (\<lambda>(k, vs). (ToLower k, k)) h))" using assms(2) by force
  then have "?m (ToLower k) \<noteq> None" by (simp only: map_of_eq_None_iff not_not)
  then obtain k' where k': "?m (ToLower k) = Some k'" by blast
  have "(ToLower k, k') \<in> set (map (\<lambda>(k, vs). (ToLower k, k)) h)"
    using map_of_SomeD [OF k'] by (simp only: set_rev)
  then obtain vs where "(k', vs) \<in> set h" and l: "ToLower k' = ToLower k" by auto
  then have "k' \<in> fst ` set h" by (metis fst_conv image_eqI)
  then have "k' = k" using assms l key_lower_inj by blast
  with k' show ?thesis by (simp add: orig_key_def)
qed

lemma written_key_canonical: "key_wf k \<Longrightarrow> canonicalMIMEHeaderKey (written_key k) = k"
proof -
  have "canonicalMIMEHeaderKey ''CSeq'' = ''Cseq''" "canonicalMIMEHeaderKey ''Call-ID'' = ''Call-Id''"
    by code_simp+
  then show "key_wf k \<Longrightarrow> ?thesis" by (auto simp: written_key_def key_wf_def)
qed

lemma other_block_key:
  assumes "\<forall>k \<in> fst ` set h. key_wf k" "k \<in> fst ` set h"
  shows "other_block h (ToLower k) = map (Pair (written_key k)) (kv_values h k)"
  using assms orig_key_lower [OF assms] key_lower [of k]
  by (auto simp: other_block_def hdr_Values_def CanonicalMIMEHeaderKey_eq)

lemma other_pairs_lookup:
  assumes h: "\<forall>k \<in> fst ` set h. key_wf k" "distinct (map fst h)" and k: "key_wf k"
  shows "map snd (filter (\<lambda>f. canonicalMIMEHeaderKey (fst f) = k) (other_pairs ig h))
    = (if ToLower k \<in> set ig then [] else kv_values h k)"
proof -
  let ?L = "filter (\<lambda>l. l \<notin> set ig) (sort (map (\<lambda>(k, vs). ToLower k) h))"
  let ?g = "\<lambda>l. map snd (filter (\<lambda>f. canonicalMIMEHeaderKey (fst f) = k) (other_block h l))"
  have ls: "set ?L = {l \<in> ToLower ` fst ` set h. l \<notin> set ig}" by force
  have "inj_on ToLower (fst ` set h)" using h key_lower_inj by (intro inj_onI) blast
  then have "distinct (map ToLower (map fst h))" using h(2) by (simp only: distinct_map set_map)
  moreover have m: "map (\<lambda>(k, vs). ToLower k) h = map ToLower (map fst h)" by auto
  ultimately have d: "distinct ?L" unfolding m by simp
  have g: "?g (ToLower k') = (if k' = k then kv_values h k else [])" if "k' \<in> fst ` set h" for k'
    using that h written_key_canonical [of k'] other_block_key [OF h(1) that] by (auto simp: filter_map comp_def)
  have "?g l = []" if "l \<in> set ?L" "l \<noteq> ToLower k" for l
  proof -
    have "l \<in> ToLower ` fst ` set h" using that(1) by (simp only: ls mem_Collect_eq)
    then obtain k' where k': "k' \<in> fst ` set h" "l = ToLower k'" by (rule imageE)
    then have "k' \<noteq> k" using that(2) by blast
    then show ?thesis unfolding k'(2) g [OF k'(1)] by (simp only: if_False)
  qed
  then have "\<forall>l \<in> set ?L. l \<noteq> ToLower k \<longrightarrow> ?g l = []" by blast
  then have "concat (map ?g ?L) = (if ToLower k \<in> set ?L then ?g (ToLower k) else [])"
    by (rule concat_map_one [OF d])
  moreover have "map snd (filter (\<lambda>f. canonicalMIMEHeaderKey (fst f) = k) (other_pairs ig h)) = concat (map ?g ?L)"
    by (simp add: other_pairs_def filter_concat map_concat comp_def)
  moreover have mem: "ToLower k \<in> ToLower ` fst ` set h \<longleftrightarrow> k \<in> fst ` set h"
    using h(1) k key_lower_inj by blast
  moreover have "ToLower k \<in> set ?L \<longleftrightarrow> k \<in> fst ` set h \<and> ToLower k \<notin> set ig"
    by (simp only: ls mem_Collect_eq mem)
  moreover have "kv_values h k = []" if "k \<notin> fst ` set h"
    using that by (simp add: kv_values_def map_of_eq_None_iff [THEN iffD2])
  ultimately show ?thesis using g [of k] by (cases "k \<in> fst ` set h") (simp_all only: if_True if_False refl simp_thms if_cancel split: if_split, blast+)
qed

section \<open>The structures are read back\<close>

lemma own_keys:
  "canonicalMIMEHeaderKey ''To'' = ''To''" "canonicalMIMEHeaderKey ''From'' = ''From''"
  "canonicalMIMEHeaderKey ''Via'' = ''Via''" "canonicalMIMEHeaderKey ''Max-Forwards'' = ''Max-Forwards''"
  "canonicalMIMEHeaderKey ''Call-ID'' = ''Call-Id''" "canonicalMIMEHeaderKey ''CSeq'' = ''Cseq''"
  "canonicalMIMEHeaderKey ''Contact'' = ''Contact''"
  by code_simp+

lemma struct_keys:
  "canonicalMIMEHeaderKey ''to'' = ''To''" "canonicalMIMEHeaderKey ''from'' = ''From''"
  "canonicalMIMEHeaderKey ''via'' = ''Via''" "canonicalMIMEHeaderKey ''max-forwards'' = ''Max-Forwards''"
  "canonicalMIMEHeaderKey ''call-id'' = ''Call-Id''" "canonicalMIMEHeaderKey ''cseq'' = ''Cseq''"
  by code_simp+

lemma reserved_keys:
  "k \<in> {''To'', ''From'', ''Via'', ''Max-Forwards'', ''Call-Id'', ''Cseq'', ''Contact''} \<Longrightarrow>
     key_wf k \<and> ToLower k \<in> set reserved"
proof -
  have "list_all (\<lambda>k. key_wf k \<and> ToLower k \<in> set reserved)
      [''To'', ''From'', ''Via'', ''Max-Forwards'', ''Call-Id'', ''Cseq'', ''Contact'']" by code_simp
  then have "\<forall>k \<in> {''To'', ''From'', ''Via'', ''Max-Forwards'', ''Call-Id'', ''Cseq'', ''Contact''}.
      key_wf k \<and> ToLower k \<in> set reserved" by (simp only: list_all_iff list.set)
  then show "k \<in> {''To'', ''From'', ''Via'', ''Max-Forwards'', ''Call-Id'', ''Cseq'', ''Contact''} \<Longrightarrow> ?thesis"
    by (rule bspec)
qed

definition field_values :: "(string \<times> string) list \<Rightarrow> string \<Rightarrow> string list" where
  "field_values fs k = map snd (filter (\<lambda>f. canonicalMIMEHeaderKey (fst f) = k) fs)"

lemma field_values_append: "field_values (a @ b) k = field_values a k @ field_values b k"
  by (simp add: field_values_def)

lemma field_values_opt:
  "field_values (opt_field key f v) k
     = (if canonicalMIMEHeaderKey key = k then (case v of None \<Rightarrow> [] | Some x \<Rightarrow> [f x]) else [])"
  by (simp add: field_values_def opt_field_def split: option.split)

lemma field_values_list:
  "field_values (list_field key f v) k
     = (if canonicalMIMEHeaderKey key = k then (case v of None \<Rightarrow> [] | Some xs \<Rightarrow> map f xs) else [])"
  by (simp add: field_values_def list_field_def filter_map comp_def split: option.split)

lemmas own_lookup = own_pairs_def field_values_append field_values_opt field_values_list own_keys

lemma others_wfD:
  assumes "others_wf m"
  shows "\<forall>k \<in> fst ` set (m_Header m). key_wf k" "distinct (map fst (m_Header m))"
    "k \<in> fst ` set (m_Header m) \<Longrightarrow> ToLower k \<in> set reserved \<Longrightarrow> ToLower k \<in> set (write_ignores m)"
  using assms by (auto simp: others_wf_def key_wf_def list_all_iff)

lemma other_values:
  assumes "others_wf m" "key_wf k"
  shows "field_values (other_pairs (write_ignores m) (m_Header m)) k
    = (if ToLower k \<in> set reserved then [] else kv_values (m_Header m) k)"
proof -
  have "kv_values (m_Header m) k = []" if "k \<notin> fst ` set (m_Header m)"
    using that by (simp add: kv_values_def map_of_eq_None_iff [THEN iffD2])
  moreover have "ToLower k \<in> set (write_ignores m) \<Longrightarrow> ToLower k \<in> set reserved"
    by (auto simp: write_ignores_def reserved_def split: if_splits)
  ultimately show ?thesis
    unfolding field_values_def other_pairs_lookup [OF others_wfD(1,2) [OF assms(1)] assms(2)]
    using others_wfD(3) [OF assms(1), of k] by auto
qed

lemma written_values:
  assumes "others_wf m" "key_wf k"
  shows "kv_values (fields_map (written_pairs m)) k = field_values (own_pairs m) k
    @ (if ToLower k \<in> set reserved then [] else kv_values (m_Header m) k)"
  using other_values [OF assms]
  by (simp add: fields_map_values written_pairs_def field_values_def)

lemma own_lookups:
  assumes "others_wf m" and h: "h = fields_map (written_pairs m)"
  shows "hdr_Values h ''to'' = (case m_To m of None \<Rightarrow> [] | Some t \<Rightarrow> [fmt_Stringer (to_String t)])"
    "hdr_Values h ''from'' = (case m_From m of None \<Rightarrow> [] | Some t \<Rightarrow> [fmt_Stringer (to_String t)])"
    "hdr_Values h ''via'' = (case m_Via m of None \<Rightarrow> [] | Some vs \<Rightarrow> map via_String (rev vs))"
    "hdr_Values h ''max-forwards'' = (case m_MaxForwards m of None \<Rightarrow> [] | Some f \<Rightarrow> [max_forwards_String f])"
    "hdr_Values h ''call-id'' = (case m_CallID m of None \<Rightarrow> [] | Some c \<Rightarrow> [call_id_String c])"
    "hdr_Values h ''cseq'' = (case m_CSeq m of None \<Rightarrow> [] | Some c \<Rightarrow> [cseq_String c])"
    "hdr_Values h ''Contact'' = (case m_Contact m of None \<Rightarrow> [] | Some cs \<Rightarrow> map contact_text cs)"
  using reserved_keys written_values [OF assms(1)]
  by (simp_all add: hdr_Values_def CanonicalMIMEHeaderKey_eq struct_keys own_keys(7) h own_lookup
      split: option.split)

lemma header_field_values:
  "header_field h key p d = (case hdr_Values h key of [] \<Rightarrow> d | v # vs \<Rightarrow> if v \<noteq> [] then p v else d)"
  by (simp add: header_field_def hdr_Get_def hdr_Values_def kv_get_def split: list.split)

lemma hdr_Get_values: "hdr_Get h key = (case hdr_Values h key of [] \<Rightarrow> [] | v # vs \<Rightarrow> v)"
  by (simp add: hdr_Get_def hdr_Values_def kv_get_def)

lemma opt_field_line:
  "list_all P (opt_field k f v @ r) \<longleftrightarrow> opt_all (\<lambda>x. P (k, f x)) v \<and> list_all P r"
  by (simp add: opt_field_def opt_all_def split: option.split)

lemma own_text_nonempty:
  assumes "list_all (\<lambda>f. text_line (snd f)) (own_pairs m)"
  shows "opt_all (\<lambda>t. fmt_Stringer (to_String t) \<noteq> []) (m_To m)"
    "opt_all (\<lambda>t. fmt_Stringer (to_String t) \<noteq> []) (m_From m)"
    "opt_all (\<lambda>t. max_forwards_String t \<noteq> []) (m_MaxForwards m)"
    "opt_all (\<lambda>t. call_id_String t \<noteq> []) (m_CallID m)"
    "opt_all (\<lambda>t. cseq_String t \<noteq> []) (m_CSeq m)"
  using assms
  by (auto simp: own_pairs_def opt_field_def opt_all_def text_line_def split: option.splits)

lemma ParseTo_text: "to_wf t \<Longrightarrow> ParseTo (fmt_Stringer (to_String t)) = t"
  using ParseTo_String [of t] by auto

text \<open>The structures of the message, as \<open>parseHeader\<close> sets them.\<close>

definition with_structs :: "message \<Rightarrow> message \<Rightarrow> message" where
  "with_structs m x =
     x\<lparr>m_To := m_To m, m_From := m_From m, m_CallID := m_CallID m, m_CSeq := m_CSeq m,
       m_MaxForwards := m_MaxForwards m, m_Via := m_Via m, m_Contact := m_Contact m\<rparr>"

definition no_structs :: "message \<Rightarrow> bool" where
  "no_structs x \<longleftrightarrow> m_To x = None \<and> m_From x = None \<and> m_CallID x = None \<and> m_CSeq x = None
     \<and> m_MaxForwards x = None \<and> m_Via x = None \<and> m_Contact x = None"

lemma parse_structs:
  assumes w: "message_wf m" and x: "no_structs x" and h: "m_Header x = fields_map (written_pairs m)"
  shows "header_field (m_Header x) ''to'' (\<lambda>v. Some (ParseTo v)) (m_To x) = m_To m"
    "header_field (m_Header x) ''from'' (\<lambda>v. Some (ParseFrom v)) (m_From x) = m_From m"
    "header_field (m_Header x) ''call-id'' (\<lambda>v. Some (ParseCallID v)) (m_CallID x) = m_CallID m"
    "header_field (m_Header x) ''max-forwards'' ParseMaxForwards (m_MaxForwards x) = m_MaxForwards m"
    "(if hdr_Get (m_Header x) ''cseq'' \<noteq> [] then ParseCSeq (hdr_Get (m_Header x) ''cseq'') else Inr (m_CSeq x))
      = Inr (m_CSeq m)"
proof -
  have o: "others_wf m" "own_wf m" "list_all (\<lambda>f. text_line (snd f)) (own_pairs m)"
    using w by (auto simp: message_wf_def written_pairs_def)
  note n = own_text_nonempty [OF o(3)] and l = own_lookups [OF o(1) h]
  show "header_field (m_Header x) ''to'' (\<lambda>v. Some (ParseTo v)) (m_To x) = m_To m"
    using n(1) o(2) x by (cases "m_To m")
      (simp_all add: header_field_values l no_structs_def own_wf_def opt_all_def ParseTo_text)
  show "header_field (m_Header x) ''from'' (\<lambda>v. Some (ParseFrom v)) (m_From x) = m_From m"
    using n(2) o(2) x ParseTo_text by (cases "m_From m")
      (simp_all add: header_field_values l no_structs_def own_wf_def opt_all_def ParseTo_def)
  show "header_field (m_Header x) ''call-id'' (\<lambda>v. Some (ParseCallID v)) (m_CallID x) = m_CallID m"
    using n(4) o(2) x by (cases "m_CallID m")
      (simp_all add: header_field_values l no_structs_def own_wf_def opt_all_def call_id_wf_def ParseCallID_String)
  show "header_field (m_Header x) ''max-forwards'' ParseMaxForwards (m_MaxForwards x) = m_MaxForwards m"
    using n(3) o(2) x by (cases "m_MaxForwards m")
      (simp_all add: header_field_values l no_structs_def own_wf_def opt_all_def ParseMaxForwards_String)
  show "(if hdr_Get (m_Header x) ''cseq'' \<noteq> [] then ParseCSeq (hdr_Get (m_Header x) ''cseq'') else Inr (m_CSeq x))
      = Inr (m_CSeq m)"
    using n(5) o(2) x by (cases "m_CSeq m")
      (simp_all add: hdr_Get_values l no_structs_def own_wf_def opt_all_def cseq_wf_def ParseCSeq_String)
qed

lemma parse_lists:
  assumes w: "message_wf m" and x: "no_structs x" and h: "m_Header x = fields_map (written_pairs m)"
  shows "(if hdr_Values (m_Header x) ''via'' = [] then Inr (m_Via x)
      else bindR (parse_each ParseVias (hdr_Values (m_Header x) ''via'') NewViaHeaders) (\<lambda>v. Inr (Some v))) = Inr (m_Via m)"
    "(if hdr_Values (m_Header x) ''Contact'' = [] then Inr (m_Contact x)
      else bindR (parse_each ParseContacts (hdr_Values (m_Header x) ''Contact'') []) (\<lambda>c. Inr (Some c))) = Inr (m_Contact m)"
proof -
  have o: "others_wf m" "own_wf m" using w by (auto simp: message_wf_def)
  note l = own_lookups [OF o(1) h]
  show "(if hdr_Values (m_Header x) ''via'' = [] then Inr (m_Via x)
      else bindR (parse_each ParseVias (hdr_Values (m_Header x) ''via'') NewViaHeaders) (\<lambda>v. Inr (Some v))) = Inr (m_Via m)"
    using o(2) x parse_vias_back [of "rev (the (m_Via m))" "[]"] by (cases "m_Via m")
      (auto simp add: l no_structs_def own_wf_def opt_all_def list_all_iff NewViaHeaders_def)
  show "(if hdr_Values (m_Header x) ''Contact'' = [] then Inr (m_Contact x)
      else bindR (parse_each ParseContacts (hdr_Values (m_Header x) ''Contact'') []) (\<lambda>c. Inr (Some c))) = Inr (m_Contact m)"
    using o(2) x parse_contacts_back [of "the (m_Contact m)" "[]"] by (cases "m_Contact m")
      (auto simp add: l no_structs_def own_wf_def opt_all_def list_all_iff)
qed

lemma parseHeader_written:
  assumes "message_wf m" and "no_structs x" and "m_Header x = fields_map (written_pairs m)"
  shows "parseHeader x = Inr (with_structs m x)"
  unfolding parseHeader_def Let_def parse_structs [OF assms] parse_lists [OF assms] bindR_simps
  by (simp add: with_structs_def)

section \<open>Whole messages\<close>

lemma written_key_token: "key_wf k \<Longrightarrow> validToken (written_key k) \<and> 2 \<le> length (written_key k)"
proof -
  have "validToken ''CSeq''" "validToken ''Call-ID''" by code_simp+
  then show "key_wf k \<Longrightarrow> ?thesis" by (simp add: written_key_def key_wf_def)
qed

lemma own_pairs_keys: "f \<in> set (own_pairs m) \<Longrightarrow> validToken (fst f) \<and> 2 \<le> length (fst f)"
proof -
  have "list_all (\<lambda>k. validToken k \<and> 2 \<le> length k)
      [''To'', ''From'', ''Via'', ''Max-Forwards'', ''Call-ID'', ''CSeq'', ''Contact'']" by code_simp
  then show "f \<in> set (own_pairs m) \<Longrightarrow> ?thesis"
    by (auto simp: own_pairs_def opt_field_def list_field_def split: option.splits)
qed

lemma other_pairs_keys:
  assumes "others_wf m" "f \<in> set (other_pairs (write_ignores m) (m_Header m))"
  shows "validToken (fst f) \<and> 2 \<le> length (fst f)"
proof -
  obtain l where "l \<in> ToLower ` fst ` set (m_Header m)" "f \<in> set (other_block (m_Header m) l)"
    using assms(2) by (force simp: other_pairs_def)
  then obtain k where "k \<in> fst ` set (m_Header m)" "f \<in> set (other_block (m_Header m) (ToLower k))" by blast
  then show ?thesis
    using other_block_key [OF others_wfD(1) [OF assms(1)]] others_wfD(1) [OF assms(1)] written_key_token
    by auto
qed

lemma written_fields_wf:
  assumes "message_wf m" shows "\<forall>f \<in> set (written_pairs m). field_wf f"
proof
  fix f assume f: "f \<in> set (written_pairs m)"
  then have "validToken (fst f) \<and> 2 \<le> length (fst f)"
    using assms own_pairs_keys [of f m] other_pairs_keys [of m f] unfolding written_pairs_def message_wf_def set_append
    by blast
  moreover have "text_line (snd f)" using assms f by (simp add: message_wf_def list_all_iff)
  ultimately show "field_wf f" using line_wf_text [of "fst f" "snd f"] by (auto simp: field_wf_def)
qed

lemma writeHeader_wf: "message_wf m \<Longrightarrow> writeHeader False m = Inr (concat (map write_field (written_pairs m)))"
  by (rule writeHeader_pairs) (auto simp: message_wf_def own_wf_def opt_all_def list_all_iff split: option.splits)

text \<open>The body the reader asks for fits into its slice and has come in with the buffer.\<close>

definition body_wf :: "(string \<Rightarrow> nat) \<Rightarrow> message \<Rightarrow> bool" where
  "body_wf Buffered m \<longleftrightarrow>
     (let b = (case m_Body m of None \<Rightarrow> [] | Some b \<Rightarrow> b) in
      m_ContentLength m = int (length b) \<and> length b \<le> 4096
      \<and> (Buffered b = 0 \<or> length b \<le> Buffered b) \<and> (m_Body m \<noteq> Some []))"

lemma written_body_wf: "body_wf B m \<Longrightarrow> written_body m = Inr (case m_Body m of None \<Rightarrow> [] | Some b \<Rightarrow> b)"
  by (auto simp: body_wf_def written_body_def slice_def Let_def split: option.splits)

lemma read_body_wf:
  "body_wf B m \<Longrightarrow> read_body B (case m_Body m of None \<Rightarrow> [] | Some b \<Rightarrow> b) = (case m_Body m of None \<Rightarrow> [] | Some b \<Rightarrow> b)"
  by (auto simp: body_wf_def read_body_def Let_def split: option.splits)

lemma readMessage_written:
  assumes w: "message_wf m" and b: "body_wf B m" and l: "LF \<notin> set line"
    and first: "read_first_line line (CreateMessage addr) = Inr (Inr x)" and x: "no_structs x"
  shows "readMessage B (CreateMessage addr)
      (line @ crlf @ concat (map write_field (written_pairs m)) @ crlf @ (case m_Body m of None \<Rightarrow> [] | Some b \<Rightarrow> b))
    = Inr (Inr ((with_structs m x)\<lparr>m_Header := fields_map (written_pairs m), m_Body := m_Body m,
        m_ContentLength := m_ContentLength m\<rparr>))"
proof -
  let ?h = "fields_map (written_pairs m)"
  have "parseHeader (x\<lparr>m_Header := ?h\<rparr>) = Inr (with_structs m (x\<lparr>m_Header := ?h\<rparr>))"
    using w x by (intro parseHeader_written) (simp_all add: no_structs_def)
  moreover have "with_structs m (x\<lparr>m_Header := ?h\<rparr>) = (with_structs m x)\<lparr>m_Header := ?h\<rparr>"
    by (simp add: with_structs_def)
  ultimately show ?thesis
    using readLineSlice_crlf [OF l] first read_body_wf [OF b] b
    by (auto simp: readMessage_def ReadMIMEHeader_written [OF written_fields_wf [OF w]] body_wf_def Let_def
        split: option.splits)
qed

lemma parseRequestLine_three:
  "CHR '' '' \<notin> set a \<Longrightarrow> CHR '' '' \<notin> set b \<Longrightarrow> parseRequestLine (a @ '' '' @ b @ '' '' @ c) = Some (a, b, c)"
  by (simp add: parseRequestLine_def)

lemma method_chars: "validMethod a \<Longrightarrow> CHR '' '' \<notin> set a \<and> LF \<notin> set a"
  using token_char by (auto simp: validMethod_def validToken_def is_blank_def)

definition request_line_wf :: "message \<Rightarrow> bool" where
  "request_line_wf m \<longleftrightarrow> m_Request m \<and> \<not> m_Response m \<and> validMethod (m_Method m)
     \<and> opt_all plain_uri (m_RequestURI m) \<and> m_RequestURI m \<noteq> None
     \<and> m_Proto m = ''SIP/2.0'' \<and> m_ProtoMajor m = 2 \<and> m_ProtoMinor m = 0
     \<and> m_StatusCode m = 0 \<and> m_ReasonPhrase m = []"

lemma plain_uri_line: "plain_uri u \<Longrightarrow> CHR '' '' \<notin> set (uri_String u) \<and> LF \<notin> set (uri_String u)"
  by (auto simp: plain_uri_def blk_def LF_def)

lemma sip_2_0: "sip_version (m\<lparr>m_ProtoMajor := 2, m_ProtoMinor := 0\<rparr>) = ''SIP/2.0''"
proof -
  have "''SIP/'' @ Itoa 2 @ ''.'' @ Itoa 0 = ''SIP/2.0''" by code_simp
  then show ?thesis by (simp add: sip_version_def)
qed

lemma request_first_line:
  assumes "request_line_wf m" and "m_RequestURI m = Some u"
  shows "read_first_line (m_Method m @ '' '' @ uri_String u @ '' '' @ ''SIP/2.0'') (CreateMessage addr)
    = Inr (Inr ((CreateMessage addr)\<lparr>m_Method := m_Method m, m_RequestURI := Some u, m_Request := True\<rparr>))"
proof -
  have m: "validMethod (m_Method m)" "plain_uri u" using assms by (auto simp: request_line_wf_def opt_all_def)
  then have "parseRequestLine (m_Method m @ '' '' @ uri_String u @ '' '' @ ''SIP/2.0'')
      = Some (m_Method m, uri_String u, ''SIP/2.0'')"
    using method_chars plain_uri_line by (intro parseRequestLine_three) auto
  then show ?thesis
    using m plain_uri_ends(4) [OF m(2)]
    by (simp add: read_first_line_def ParseSIPVersion_def CreateMessage_def)
qed

definition message_body :: "message \<Rightarrow> string" where
  "message_body m = (case m_Body m of None \<Rightarrow> [] | Some b \<Rightarrow> b)"

text \<open>What arrives: the message with the fields as they were read, a new address, and no context.\<close>

definition arrived :: "string \<Rightarrow> message \<Rightarrow> message" where
  "arrived addr m =
     m\<lparr>m_RemoteAddr := addr, m_Header := fields_map (written_pairs m), m_Close := False, m_ctx := None\<rparr>"

lemma request_read_back:
  assumes w: "message_wf m" and b: "body_wf B m" and r: "request_line_wf m"
  shows "\<exists>s. message_write False m = Inr s \<and> readMessage B (CreateMessage addr) s = Inr (Inr (arrived addr m))"
proof -
  obtain u where u: "m_RequestURI m = Some u" "plain_uri u"
    using r by (auto simp: request_line_wf_def opt_all_def split: option.splits)
  let ?line = "m_Method m @ '' '' @ uri_String u @ '' '' @ ''SIP/2.0''"
  let ?s = "?line @ crlf @ concat (map write_field (written_pairs m)) @ crlf @ message_body m"
  have v: "sip_version m = ''SIP/2.0''"
    using r sip_2_0 [of m] by (simp add: request_line_wf_def sip_version_def)
  have "message_write False m = Inr ?s"
    using r u v writeHeader_wf [OF w] written_body_wf [OF b]
    by (simp add: message_write_def request_line_wf_def writeRequest_def message_body_def)
  moreover have "LF \<notin> set ?line"
    using r u method_chars [of "m_Method m"] plain_uri_line [OF u(2)]
    by (auto simp: request_line_wf_def LF_def)
  then have "readMessage B (CreateMessage addr) ?s = Inr (Inr (arrived addr m))"
    using readMessage_written [OF w b _ request_first_line [OF r u(1), of addr]] r u(1)
    by (cases m) (simp add: no_structs_def CreateMessage_def message_body_def arrived_def with_structs_def
        request_line_wf_def)
  ultimately show ?thesis by blast
qed

definition status_line_wf :: "message \<Rightarrow> bool" where
  "status_line_wf m \<longleftrightarrow> m_Response m \<and> \<not> m_Request m \<and> 100 \<le> m_StatusCode m \<and> m_StatusCode m < 1000
     \<and> LF \<notin> set (reason_text m) \<and> \<not> HasPrefix (reason_text m) ''SIP/''
     \<and> m_Proto m = ''SIP/2.0'' \<and> m_ProtoMajor m = 2 \<and> m_ProtoMinor m = 0
     \<and> m_Method m = [] \<and> m_RequestURI m = None"

lemma three_digits: "100 \<le> n \<Longrightarrow> n < 1000 \<Longrightarrow> length (dec_digits n) = 3"
proof -
  assume n: "100 \<le> n" "n < 1000"
  then have "\<not> n < 10" "\<not> n div 10 < 10" "n div 10 div 10 < 10" by auto
  then show ?thesis by (simp add: dec_digits.simps [of n] dec_digits.simps [of "n div 10"] dec_digits.simps [of "n div 10 div 10"])
qed

lemma status_code_text:
  "100 \<le> n \<Longrightarrow> n < 1000 \<Longrightarrow>
     format_03d n = Itoa n \<and> length (Itoa n) = 3 \<and> CHR '' '' \<notin> set (Itoa n) \<and> Atoi (Itoa n) = Some n"
proof -
  assume n: "100 \<le> n" "n < 1000"
  then have "length (Itoa n) = 3" using three_digits [of "nat n"] by (simp add: Itoa_def)
  then show ?thesis
    using n Itoa_ends(3) [of n] ParseInt_Itoa [of n] by (simp add: format_03d_def pad_zeros_def in_int64_def)
qed

lemma response_first_line:
  assumes "status_line_wf m"
  shows "read_first_line (''SIP/2.0'' @ '' '' @ Itoa (m_StatusCode m) @ '' '' @ reason_text m) (CreateMessage addr)
    = Inr (Inr ((CreateMessage addr)\<lparr>m_ReasonPhrase := reason_text m, m_StatusCode := m_StatusCode m, m_Response := True\<rparr>))"
proof -
  have c: "length (Itoa (m_StatusCode m)) = 3" "CHR '' '' \<notin> set (Itoa (m_StatusCode m))"
    "Atoi (Itoa (m_StatusCode m)) = Some (m_StatusCode m)" "0 \<le> m_StatusCode m"
    using assms status_code_text [of "m_StatusCode m"] by (auto simp: status_line_wf_def)
  have "parseRequestLine (''SIP/2.0'' @ '' '' @ Itoa (m_StatusCode m) @ '' '' @ reason_text m)
      = Some (''SIP/2.0'', Itoa (m_StatusCode m), reason_text m)"
    by (rule parseRequestLine_three) (simp_all add: c)
  moreover have "ParseSIPVersion (reason_text m) = Inr (0, 0, False)"
    using assms by (auto simp: status_line_wf_def ParseSIPVersion_def HasPrefix_def)
  ultimately show ?thesis
    using c by (simp add: read_first_line_def ParseSIPVersion_def CreateMessage_def)
qed

lemma response_read_back:
  assumes w: "message_wf m" and b: "body_wf B m" and r: "status_line_wf m"
  shows "\<exists>s. message_write False m = Inr s \<and>
    readMessage B (CreateMessage addr) s = Inr (Inr ((arrived addr m)\<lparr>m_ReasonPhrase := reason_text m\<rparr>))"
proof -
  let ?line = "''SIP/2.0'' @ '' '' @ Itoa (m_StatusCode m) @ '' '' @ reason_text m"
  let ?s = "?line @ crlf @ concat (map write_field (written_pairs m)) @ crlf @ message_body m"
  have v: "sip_version m = ''SIP/2.0''"
    using r sip_2_0 [of m] by (simp add: status_line_wf_def sip_version_def)
  have c: "format_03d (m_StatusCode m) = Itoa (m_StatusCode m)"
    using r status_code_text [of "m_StatusCode m"] by (simp add: status_line_wf_def)
  have "message_write False m = Inr ?s"
    using r v c writeHeader_wf [OF w] written_body_wf [OF b]
    by (simp add: message_write_def status_line_wf_def writeResponse_def message_body_def)
  moreover have "LF \<notin> set (Itoa (m_StatusCode m))"
    using r dec_digits_digit [of "nat (m_StatusCode m)"]
    by (auto simp: Itoa_def status_line_wf_def is_digit_def LF_def byte_val_def)
  then have "LF \<notin> set ?line" using r by (auto simp: status_line_wf_def LF_def)
  then have "readMessage B (CreateMessage addr) ?s
      = Inr (Inr ((arrived addr m)\<lparr>m_ReasonPhrase := reason_text m\<rparr>))"
    using readMessage_written [OF w b _ response_first_line [OF r, of addr]] r
    by (cases m) (simp add: no_structs_def CreateMessage_def message_body_def arrived_def with_structs_def
        status_line_wf_def)
  ultimately show ?thesis by blast
qed

lemma arrived_other_fields:
  "message_wf m \<Longrightarrow> key_wf k \<Longrightarrow> ToLower k \<notin> set reserved \<Longrightarrow>
     kv_values (m_Header (arrived addr m)) k = kv_values (m_Header m) k"
proof -
  assume m: "message_wf m" and k: "key_wf k" "ToLower k \<notin> set reserved"
  have "\<forall>x \<in> {''To'', ''From'', ''Via'', ''Max-Forwards'', ''Call-Id'', ''Cseq'', ''Contact''}. x \<noteq> k"
    using reserved_keys k(2) by metis
  then have "''To'' \<noteq> k \<and> ''From'' \<noteq> k \<and> ''Via'' \<noteq> k \<and> ''Max-Forwards'' \<noteq> k \<and> ''Call-Id'' \<noteq> k
    \<and> ''Cseq'' \<noteq> k \<and> ''Contact'' \<noteq> k" by (simp only: ball_simps simp_thms)
  then have "field_values (own_pairs m) k = []" by (simp only: own_lookup if_False append_Nil)
  then show ?thesis
    using written_values [OF _ k(1), of m] m k by (simp add: arrived_def message_wf_def)
qed

end
