(* ===== verification/Header_Props.thy ===== *)
theory Header_Props
  imports Message_Facts
begin

text \<open>
  The properties of the header components and of the reader: field names, the Via list as a
  stack and as text, the other header fields as text, and reading a header section back from
  what was written, whatever the buffer held.
\<close>

section \<open>Field names\<close>

text \<open>
  The scan with which \<open>CanonicalMIMEHeaderKey\<close> avoids copying returns what the full
  rewriting returns, for every string, and the result is a fixed point.
\<close>

theorem canonical_key_fixpoint:
  "CanonicalMIMEHeaderKey s = canonicalMIMEHeaderKey s \<and>
     CanonicalMIMEHeaderKey (CanonicalMIMEHeaderKey s) = CanonicalMIMEHeaderKey s"
  by (simp add: CanonicalMIMEHeaderKey_eq canonicalMIMEHeaderKey_idem)

text \<open>
  A header field set under one spelling of its name is found, with that value only, under
  every spelling that differs in case, and fields with other canonical names are untouched.
\<close>

theorem header_case_insensitive:
  assumes "validToken a" and "ToLower a = ToLower b"
  shows "hdr_Values (hdr_Set h a v) b = [v] \<and>
    (\<forall>k. CanonicalMIMEHeaderKey k \<noteq> CanonicalMIMEHeaderKey b \<longrightarrow>
       hdr_Values (hdr_Set h a v) k = hdr_Values h k)"
  using canonicalMIMEHeaderKey_case [OF assms]
  by (simp add: hdr_Values_def hdr_Set_def CanonicalMIMEHeaderKey_eq)

theorem header_case_insensitive_witness:
  "hdr_Values (hdr_Set [(''To'', [''x''])] ''call-ID'' ''7'') ''CALL-id'' = [''7''] \<and>
     hdr_Values (hdr_Set [(''To'', [''x''])] ''call-ID'' ''7'') ''to'' = [''x'']"
proof -
  have "validToken ''call-ID''" "ToLower ''call-ID'' = ToLower ''CALL-id''"
    "CanonicalMIMEHeaderKey ''to'' \<noteq> CanonicalMIMEHeaderKey ''CALL-id''"
    "hdr_Values [(''To'', [''x''])] ''to'' = [''x'']" by code_simp+
  then show ?thesis
    using header_case_insensitive [of "''call-ID''" "''CALL-id''" "[(''To'', [''x''])]" "''7''"] by simp
qed

section \<open>The Via list\<close>

text \<open>
  C7: Proxies that each insert a Via on the way and each pop one on the way back leave the list
  as it was, and the topmost Via is always the last one inserted.
\<close>

theorem via_insert_pop:
  "((snd \<circ> ViaHeaders_Pop) ^^ length xs) (foldl ViaHeaders_Insert v xs) = v \<and>
     ViaHeaders_TopMost (foldl ViaHeaders_Insert v (xs @ [x])) = Some x"
  using vias.pops_pushes [of xs v] vias.top_pushes [of "xs @ [x]" v]
  unfolding vias.pushes_def by simp

text \<open>
  A Via header field that lists several values is parsed into the list of them, topmost
  first, in front of what was parsed before.
\<close>

theorem via_list_round_trip:
  "xs \<noteq> [] \<Longrightarrow> \<forall>x \<in> set xs. via_wf x \<Longrightarrow>
     ParseVias (Join (map via_String xs) '', '') v = Inr (rev xs @ v)"
  by (rule ParseVias_Join)

definition sample_via :: "string \<Rightarrow> via" where
  "sample_via b = \<lparr>via_SentProtocol = ''SIP/2.0/UDP'', via_SentBy = ''10.0.0.1:5060'',
     via_RawParameter = ''branch=z9hG4bK'' @ b\<rparr>"

theorem via_list_round_trip_witness:
  "ParseVias (''SIP/2.0/UDP 10.0.0.1:5060;branch=z9hG4bKb, SIP/2.0/UDP 10.0.0.1:5060;branch=z9hG4bKa'') []
     = Inr [sample_via ''a'', sample_via ''b'']"
proof -
  have "\<forall>x \<in> set [sample_via ''b'', sample_via ''a'']. via_wf x"
    "Join (map via_String [sample_via ''b'', sample_via ''a'']) '', '' =
       ''SIP/2.0/UDP 10.0.0.1:5060;branch=z9hG4bKb, SIP/2.0/UDP 10.0.0.1:5060;branch=z9hG4bKa''"
    by code_simp+
  then show ?thesis
    using via_list_round_trip [of "[sample_via ''b'', sample_via ''a'']" "[]"] by simp
qed

text \<open>
  A Via value without a blank after its first trimming is a runtime panic (the second
  piece of the split is indexed without a check), and so is a CSeq value.
\<close>

theorem parse_panics:
  "CHR '' '' \<notin> set (Trim s blk) \<Longrightarrow>
     ParseVias s v = (if s = [] then Inr v else Inl IndexOutOfRange) \<and> ParseCSeq s = Inl IndexOutOfRange"
  by (simp add: ParseVias_panic ParseCSeq_panic)

theorem parse_panics_witness:
  "ParseVias ''SIP/2.0/UDP'' [] = Inl IndexOutOfRange \<and> ParseCSeq ''1'' = Inl IndexOutOfRange"
proof -
  have "CHR '' '' \<notin> set (Trim ''SIP/2.0/UDP'' blk)" "CHR '' '' \<notin> set (Trim ''1'' blk)" by code_simp+
  then show ?thesis using parse_panics [of "''SIP/2.0/UDP''" "[]"] parse_panics [of "''1''" "[]"] by simp
qed

section \<open>Other header fields\<close>

text \<open>
  A CSeq below 2^32 is read back from its text, also after \<open>Increment\<close>, which counts
  modulo 2^32.
\<close>

theorem cseq_round_trip:
  assumes "0 \<le> cs_Sequence c" "cs_Sequence c < 2 ^ 32"
    and "cs_Method c \<noteq> []" "hd (cs_Method c) \<notin> set blk" "last (cs_Method c) \<notin> set blk"
  shows "ParseCSeq (cseq_String c) = Inr (Some c) \<and>
    ParseCSeq (cseq_String (fst (cseq_Increment c)))
      = Inr (Some (c\<lparr>cs_Sequence := (cs_Sequence c + 1) mod 2 ^ 32\<rparr>))"
proof -
  have r: "in_int64 n" if "0 \<le> n" "n < 2 ^ 32" for n :: int using that by (simp add: in_int64_def)
  have "0 \<le> (cs_Sequence c + 1) mod 2 ^ 32" "(cs_Sequence c + 1) mod 2 ^ 32 < 2 ^ 32" by simp_all
  then show ?thesis
    using assms r ParseCSeq_String [of c] cseq_Increment_mod [of c]
      ParseCSeq_String [of "c\<lparr>cs_Sequence := (cs_Sequence c + 1) mod 2 ^ 32\<rparr>"] by simp
qed

theorem cseq_round_trip_witness:
  "ParseCSeq (cseq_String (fst (cseq_Increment \<lparr>cs_Sequence = 4294967295, cs_Method = ''INVITE''\<rparr>)))
     = Inr (Some \<lparr>cs_Sequence = 0, cs_Method = ''INVITE''\<rparr>)"
  using cseq_round_trip [of "\<lparr>cs_Sequence = 4294967295, cs_Method = ''INVITE''\<rparr>"] by (simp add: blk_def)

text \<open>
  \<open>Decrement\<close> of Max-Forwards on every 64-bit value: it reports that the request may go
  on exactly when more than one hop is left or the value is the least integer, which wraps
  around; otherwise the header ends at 0.
\<close>

theorem max_forwards_decrement_total:
  assumes "in_int64 (mf_Remains m)"
  shows "(snd (max_forwards_Decrement m) = (1 < mf_Remains m \<or> mf_Remains m = - (2 ^ 63))) \<and>
    mf_Remains (fst (max_forwards_Decrement m)) =
      (if mf_Remains m = - (2 ^ 63) then 2 ^ 63 - 1 else max 0 (mf_Remains m - 1))"
  using max_forwards_Decrement_cases [OF assms] by auto

theorem max_forwards_decrement_total_witness:
  "max_forwards_Decrement \<lparr>mf_Remains = 70\<rparr> = (\<lparr>mf_Remains = 69\<rparr>, True) \<and>
     snd (max_forwards_Decrement \<lparr>mf_Remains = 1\<rparr>) = False"
proof -
  have "max_forwards_Decrement \<lparr>mf_Remains = 70\<rparr> = (\<lparr>mf_Remains = 69\<rparr>, True)" by code_simp
  then show ?thesis
    using max_forwards_decrement_total [of "\<lparr>mf_Remains = 1\<rparr>"] by (simp add: in_int64_def)
qed

text \<open>
  The text of a To or From header (display name quoted when it is not a token, brackets
  when the URI needs them) is parsed back to the same address and parameters.
\<close>

theorem to_round_trip: "to_wf t \<Longrightarrow> bindR (to_String t) (\<lambda>s. Inr (ParseTo s)) = Inr t"
  using ParseTo_String [of t] by auto

definition sample_to :: to_header where
  "sample_to = \<lparr>to_Addr = Some \<lparr>na_DisplayName = ''Bob Smith'',
      na_Uri = Some (new_uri\<lparr>u_Scheme := ''sip'', u_Host := ''example.com'',
        u_User := Some \<lparr>ui_username = ''bob'', ui_password = [], ui_passwordSet = False\<rparr>\<rparr>)\<rparr>,
    to_RawParameter = ''tag=a6c85cf''\<rparr>"

theorem to_round_trip_witness:
  "ParseTo ([CHR 0x22] @ ''Bob Smith'' @ [CHR 0x22] @ '' <sip:bob@example.com>;tag=a6c85cf'') = sample_to"
proof -
  have "to_wf sample_to" "to_String sample_to = Inr ([CHR 0x22] @ ''Bob Smith'' @ [CHR 0x22]
      @ '' <sip:bob@example.com>;tag=a6c85cf'')" by code_simp+
  then show ?thesis using to_round_trip [of sample_to] by simp
qed

text \<open>
  After an address printed without brackets, header parameters (a tag among them) are
  parsed into the parameters of the URI, and the header ends up with none.
\<close>

theorem to_bare_loses_tag:
  assumes "plain_uri (u\<lparr>u_RawParameter := p\<rparr>)" and "p \<noteq> []"
    and "u_RawParameter u = []" "u_RawQuery u = []" "\<not> u_ForceQuery u"
  shows "ParseTo (uri_String u @ '';'' @ p)
    = \<lparr>to_Addr = Some \<lparr>na_DisplayName = [], na_Uri = Some (u\<lparr>u_RawParameter := p\<rparr>)\<rparr>, to_RawParameter = []\<rparr>"
  using assms by (rule ParseTo_bare)

theorem to_bare_loses_tag_witness:
  "to_RawParameter (ParseTo ''sip:example.com;tag=1'') = []"
proof -
  let ?u = "new_uri\<lparr>u_Scheme := ''sip'', u_Host := ''example.com''\<rparr>"
  have "plain_uri (?u\<lparr>u_RawParameter := ''tag=1''\<rparr>)" "u_RawParameter ?u = []" "u_RawQuery ?u = []"
    "\<not> u_ForceQuery ?u" "uri_String ?u @ '';'' @ ''tag=1'' = ''sip:example.com;tag=1''" by code_simp+
  then show ?thesis using to_bare_loses_tag [of "''tag=1''" ?u] by simp
qed

section \<open>Reading a header section\<close>

text \<open>
  What \<open>ReadMIMEHeader\<close> returns does not depend on how much of the datagram happens to
  sit in the buffer, although the code takes a shortcut through it.
\<close>

theorem read_header_buffered: "ReadMIMEHeader B s = ReadMIMEHeader B' s"
  unfolding ReadMIMEHeader_def by (subst read_fields_buffered [of B "[]" s B']) (rule refl)

text \<open>
  A line whose field name is a single letter, a compact form, is read and dropped: the
  lookup of the long name is made with the index of a zero byte, never with the letter.
\<close>

theorem compact_field_dropped:
  assumes "length k = 1" and "line_wf (k, v)" and "r \<noteq> []" "\<not> is_blank (hd r)"
  shows "read_fields B m (write_field (k, v) @ r) = read_fields B m r"
proof -
  have "CHR '':'' \<notin> set k" using assms token_char by (auto simp: line_wf_def validToken_def)
  then have "IndexByte (k @ '': '' @ v) (CHR '':'') = Some (length k)" by simp
  then show ?thesis
    using readContinuedLine_field [of "(k, v)" r B] assms field_key_compact [OF assms(1)]
    by (subst read_fields.simps) (auto simp: Let_def)
qed

theorem compact_field_dropped_witness:
  "ReadMIMEHeader (\<lambda>s. 0) (''v: SIP/2.0/UDP h'' @ crlf @ crlf) = ([], None, [])"
proof -
  have "line_wf (''v'', ''SIP/2.0/UDP h'')" "crlf \<noteq> []" "\<not> is_blank (hd crlf)"
    "write_field (''v'', ''SIP/2.0/UDP h'') @ crlf = ''v: SIP/2.0/UDP h'' @ crlf @ crlf"
    "read_fields (\<lambda>s. 0) [] crlf = ([], None, [])" by code_simp+
  then show ?thesis
    using compact_field_dropped [of "''v''" "''SIP/2.0/UDP h''" crlf "\<lambda>s. 0" "[]"]
    by (simp add: ReadMIMEHeader_def is_blank_def)
qed



end
