(* ===== verification/Message_Type.thy ===== *)
theory Message_Type
  imports Message_Facts
begin

text \<open>What every message that was read has: the type invariant of \<open>readMessage\<close>.\<close>

section \<open>Header maps\<close>

definition entry_typed :: "string \<times> string list \<Rightarrow> bool" where
  "entry_typed e \<longleftrightarrow> fst e \<noteq> [] \<and> CanonicalMIMEHeaderKey (fst e) = fst e \<and> snd e \<noteq> []"

definition header_typed :: "kvs \<Rightarrow> bool" where
  "header_typed h \<longleftrightarrow> kv_wf h \<and> list_all entry_typed h"

lemma field_key_canonical: "CanonicalMIMEHeaderKey (field_key k) = field_key k"
  by (simp add: field_key_def CanonicalMIMEHeaderKey_eq canonicalMIMEHeaderKey_idem Let_def)

lemma update_typed: "list_all entry_typed h \<Longrightarrow> entry_typed (k, vs) \<Longrightarrow> list_all entry_typed (AList.update k vs h)"
  by (induction h) auto

lemma header_typed_add:
  "header_typed h \<Longrightarrow> field_key k \<noteq> [] \<Longrightarrow> header_typed (kv_add h (field_key k) v)"
  by (simp add: header_typed_def) (simp add: kv_add_def update_typed entry_typed_def field_key_canonical)

lemma read_fields_typed: "header_typed m \<Longrightarrow> header_typed (fst (read_fields B m s))"
proof (induction B m s rule: read_fields.induct)
  case (1 B m s)
  show ?case
  proof (cases "readContinuedLineSlice B mustHaveFieldNameColon s")
    case (Pair a r)
    show ?thesis
    proof (cases a)
      case (Inl e)
      then show ?thesis using Pair 1(3) by (simp add: read_fields.simps [of B m s])
    next
      case (Inr kv)
      note IH = 1(1,2) [OF Pair [symmetric] Inr]
      show ?thesis
      proof (cases "kv = [] \<or> IndexByte kv (CHR '':'') = None")
        case True
        then show ?thesis using 1(3) Pair Inr by (auto simp: read_fields.simps [of B m s] split: option.split)
      next
        case False
        then obtain i where i: "kv \<noteq> []" "IndexByte kv (CHR '':'') = Some i" by auto
        have step: "fst (read_fields B m s) =
            (if field_key (take i kv) = [] then fst (read_fields B m r)
             else fst (read_fields B (kv_add m (field_key (take i kv)) (field_value (drop (Suc i) kv))) r))"
          using Pair Inr i by (simp add: read_fields.simps [of B m s] Let_def)
        show ?thesis
          unfolding step
          using IH(1) [OF i refl _ 1(3)] IH(2) [OF i refl _ header_typed_add [OF 1(3)]] by simp
      qed
    qed
  qed
qed

lemma ReadMIMEHeader_typed: "ReadMIMEHeader B s = (h, e, r) \<Longrightarrow> header_typed h"
  using read_fields_typed [of "[]" B s]
  by (auto simp: ReadMIMEHeader_def header_typed_def split: if_splits option.splits prod.splits)

section \<open>First lines\<close>

lemma dec_value_bound: "\<forall>c \<in> set s. is_digit c \<Longrightarrow> 0 \<le> dec_value s \<and> dec_value s < 10 ^ length s"
proof (induction s rule: rev_induct)
  case (snoc c s)
  then have "0 \<le> dec_value s \<and> dec_value s < 10 ^ length s" "0 \<le> digit_val c" "digit_val c \<le> 9"
    by (auto simp: digit_val_def is_digit_def)
  then show ?case by (simp add: dec_value_snoc)
qed (simp add: dec_value_def)

lemma Atoi_three: "Atoi s = Some n \<Longrightarrow> length s = 3 \<Longrightarrow> n < 1000"
proof -
  assume a: "Atoi s = Some n" "length s = 3"
  then obtain c cs where s: "s = c # cs" by (cases s) simp_all
  define ds where "ds = (if c = CHR ''-'' \<or> c = CHR ''+'' then cs else s)"
  have ds: "\<forall>c \<in> set ds. is_digit c" "length ds \<le> 3" "n \<le> \<bar>dec_value ds\<bar>"
    using a by (auto simp: ds_def s ParseInt_def Let_def split: if_splits)
  have "dec_value ds < 10 ^ length ds" "0 \<le> dec_value ds" using dec_value_bound [OF ds(1)] by simp_all
  moreover have "(10 :: int) ^ length ds \<le> 10 ^ 3" using ds(2) by (intro power_increasing) auto
  ultimately show "n < 1000" using ds(3) by simp
qed

definition kind_typed :: "message \<Rightarrow> bool" where
  "kind_typed m \<longleftrightarrow>
     (m_Request m \<noteq> m_Response m) \<and>
     (m_Request m \<longrightarrow> validMethod (m_Method m) \<and> m_RequestURI m \<noteq> None) \<and>
     (m_Response m \<longrightarrow> 0 \<le> m_StatusCode m \<and> m_StatusCode m < 1000)"

lemma first_line_typed: "read_first_line line msg = Inr (Inr m) \<Longrightarrow> kind_typed m \<and> m_Via m = m_Via msg"
  using Atoi_three
  by (auto simp: read_first_line_def kind_typed_def bindR_def split: option.splits prod.splits sum.splits if_splits)

lemma parseHeader_keeps:
  "parseHeader m = Inr m' \<Longrightarrow> kind_typed m' = kind_typed m \<and> m_Header m' = m_Header m"
  by (auto simp: parseHeader_def kind_typed_def bindR_def Let_def split: sum.splits)

definition body_typed :: "message \<Rightarrow> bool" where
  "body_typed m \<longleftrightarrow> m_Body m \<noteq> Some [] \<and> m_ContentLength m = int (length (message_body m)) \<and> m_ContentLength m \<le> 4096"

definition message_typed :: "message \<Rightarrow> bool" where
  "message_typed m \<longleftrightarrow> kind_typed m \<and> header_typed (m_Header m) \<and> body_typed m"

lemma readMessage_typed:
  assumes "readMessage B msg s = Inr (Inr m)"
  shows "message_typed m"
proof -
  obtain line r m1 h rest m2 where
    l: "read_first_line line msg = Inr (Inr m1)" "ReadMIMEHeader B r = (h, None, rest)"
    "parseHeader (m1\<lparr>m_Header := h\<rparr>) = Inr m2"
    and m: "m = m2\<lparr>m_Body := (if read_body B rest = [] then None else Some (read_body B rest)),
       m_ContentLength := int (length (read_body B rest))\<rparr>"
    using assms by (auto simp: readMessage_def Let_def bindR_def split: option.splits prod.splits sum.splits)
  have "kind_typed m2 \<and> m_Header m2 = h"
    using parseHeader_keeps [OF l(3)] first_line_typed [OF l(1)] by (simp add: kind_typed_def)
  moreover have "header_typed h" using l(2) by (rule ReadMIMEHeader_typed)
  moreover have "length (read_body B rest) \<le> 4096" by (simp add: read_body_def)
  ultimately show ?thesis
    using m by (simp add: message_typed_def body_typed_def kind_typed_def message_body_def)
qed

end
