(* ===== verification/Message_Props.thy ===== *)
theory Message_Props
  imports Message_Type
begin

text \<open>
  The properties of messages: what one proxy writes the next one reads, and the tag that a
  response gets.
\<close>

section \<open>Writing and reading\<close>

text \<open>
  C3: A well-formed request or response that is written and read again, whatever the buffer
  of the reader held, is the same message in its first line, its To, From, Via list,
  Max-Forwards, Call-ID, CSeq and Contact structures and its body; the header map is the one
  of the written fields, in which the other fields have the values they had.
\<close>

theorem message_round_trip:
  assumes "message_wf m" and "body_wf B m" and "request_line_wf m \<or> status_line_wf m"
  shows "bindR (message_write False m) (readMessage B (CreateMessage addr))
      = Inr (Inr ((arrived addr m)\<lparr>m_ReasonPhrase := (if m_Response m then reason_text m else [])\<rparr>)) \<and>
    (\<forall>k. key_wf k \<and> ToLower k \<notin> set reserved \<longrightarrow>
      kv_values (m_Header (arrived addr m)) k = kv_values (m_Header m) k)"
proof
  show "bindR (message_write False m) (readMessage B (CreateMessage addr))
      = Inr (Inr ((arrived addr m)\<lparr>m_ReasonPhrase := (if m_Response m then reason_text m else [])\<rparr>))"
    using assms(3)
  proof
    assume r: "request_line_wf m"
    then have "(arrived addr m)\<lparr>m_ReasonPhrase := []\<rparr> = arrived addr m"
      by (cases m) (simp add: arrived_def request_line_wf_def)
    then show ?thesis
      using request_read_back [OF assms(1,2) r, of addr] r by (auto simp: request_line_wf_def)
  next
    assume r: "status_line_wf m"
    then show ?thesis
      using response_read_back [OF assms(1,2) r, of addr] by (auto simp: status_line_wf_def)
  qed
  show "\<forall>k. key_wf k \<and> ToLower k \<notin> set reserved \<longrightarrow>
      kv_values (m_Header (arrived addr m)) k = kv_values (m_Header m) k"
    using arrived_other_fields [OF assms(1)] by blast
qed

definition sample_uri_to :: "string \<Rightarrow> name_addr" where
  "sample_uri_to user = \<lparr>na_DisplayName = [], na_Uri = Some (new_uri\<lparr>u_Scheme := ''sip'',
     u_User := Some \<lparr>ui_username = user, ui_password = [], ui_passwordSet = False\<rparr>, u_Host := ''b.com'',
     u_RawParameter := ''user=phone''\<rparr>)\<rparr>"

definition sample_invite :: message where
  "sample_invite = (CreateMessage ''10.0.0.9:5060'')
     \<lparr>m_Request := True, m_Method := ''INVITE'', m_RequestURI := na_Uri (sample_uri_to ''bob''),
      m_To := Some \<lparr>to_Addr = Some (sample_uri_to ''bob''), to_RawParameter = []\<rparr>,
      m_From := Some \<lparr>to_Addr = Some (sample_uri_to ''al''), to_RawParameter = ''tag=1''\<rparr>,
      m_Via := Some [\<lparr>via_SentProtocol = ''SIP/2.0/UDP'', via_SentBy = ''a.com'', via_RawParameter = ''branch=z9hG4bK1''\<rparr>],
      m_MaxForwards := Some \<lparr>mf_Remains = 70\<rparr>, m_CallID := Some \<lparr>ci_Identifier = ''x1'', ci_Host = ''a.com''\<rparr>,
      m_CSeq := Some \<lparr>cs_Sequence = 314, cs_Method = ''INVITE''\<rparr>,
      m_Contact := Some [\<lparr>co_Star = False, co_Addr = Some (sample_uri_to ''al''), co_RawParameter = ''q=1''\<rparr>],
      m_Header := [(''Subject'', [''hello'']), (''To'', [''old''])],
      m_Body := Some ''v=0'', m_ContentLength := 3\<rparr>"

lemma sample_invite_wf:
  "message_wf sample_invite" "body_wf (\<lambda>s. 0) sample_invite" "request_line_wf sample_invite"
  by code_simp+

theorem message_round_trip_witness:
  "bindR (message_write False sample_invite) (readMessage (\<lambda>s. 0) (CreateMessage ''h:5060''))
    = Inr (Inr (arrived ''h:5060'' sample_invite)) \<and>
   kv_values (m_Header (arrived ''h:5060'' sample_invite)) ''Subject'' = [''hello'']"
proof -
  have w: "key_wf ''Subject'' \<and> ToLower ''Subject'' \<notin> set reserved" "\<not> m_Response sample_invite"
    "kv_values (m_Header sample_invite) ''Subject'' = [''hello'']"
    "(arrived ''h:5060'' sample_invite)\<lparr>m_ReasonPhrase := []\<rparr> = arrived ''h:5060'' sample_invite"
    by code_simp+
  note t = message_round_trip [OF sample_invite_wf(1,2) disjI1 [OF sample_invite_wf(3)], of "''h:5060''"]
  show ?thesis
  proof
    show "bindR (message_write False sample_invite) (readMessage (\<lambda>s. 0) (CreateMessage ''h:5060''))
        = Inr (Inr (arrived ''h:5060'' sample_invite))"
      using conjunct1 [OF t] by (simp only: w(2) if_False w(4))
    show "kv_values (m_Header (arrived ''h:5060'' sample_invite)) ''Subject'' = [''hello'']"
      using conjunct2 [OF t, rule_format, OF w(1)] by (simp only: w(3))
  qed
qed

section \<open>Tags\<close>

lemma split_amp_append:
  "set a \<inter> {CHR ''&'', CHR '';''} = {} \<Longrightarrow> s = [] \<or> hd s = CHR '';'' \<Longrightarrow>
     split_amp (a @ s) = a # (case s of [] \<Rightarrow> [] | c # r \<Rightarrow> split_amp r)"
  by (induction a) (cases s; auto)+

lemma query_pieces_grow: "\<exists>ys. kv_values (foldl query_piece m ps) k = kv_values m k @ ys"
proof (induction ps arbitrary: m)
  case (Cons p ps)
  have "\<exists>ys. kv_values (query_piece m p) k = kv_values m k @ ys"
    by (auto simp: query_piece_def split: prod.split sum.split)
  then show ?case using Cons [of "query_piece m p"] by (metis append_assoc foldl_Cons)
qed simp

lemma QueryUnescape_plain: "set x \<inter> {CHR ''%'', CHR ''+''} = {} \<Longrightarrow> QueryUnescape x = Inr x"
proof -
  assume x: "set x \<inter> {CHR ''%'', CHR ''+''} = {}"
  then have "unescape_check encodeQueryComponent x n hp = Inr (n, hp)" for n hp
    by (induction x) auto
  then show ?thesis by (simp add: QueryUnescape_def unescape_def)
qed

lemma ParseQuery_first:
  assumes "set t \<inter> {CHR ''&'', CHR '';'', CHR ''='', CHR ''%'', CHR ''+''} = {}" "s = [] \<or> hd s = CHR '';''"
  shows "kv_get (ParseQuery (''tag='' @ t @ s)) ''tag'' = t"
proof -
  have "set (''tag='' @ t) \<inter> {CHR ''&'', CHR '';''} = {}" using assms(1) by auto
  then have 1: "split_amp (''tag='' @ t @ s) = (''tag='' @ t) # (case s of [] \<Rightarrow> [] | c # r \<Rightarrow> split_amp r)"
    using split_amp_append [of "''tag='' @ t" s] assms(2) by simp
  have "query_piece [] (''tag='' @ t) = [(''tag'', [t])]"
    using assms(1) QueryUnescape_plain [of t] QueryUnescape_plain [of "''tag''"]
    by (simp add: query_piece_def split_at_def kv_add_def kv_values_def)
  moreover have "\<exists>ys. kv_values (foldl query_piece [(''tag'', [t])] ps) ''tag'' = t # ys" for ps
    using query_pieces_grow [of "[(''tag'', [t])]" ps "''tag''"] by (simp add: kv_values_def)
  ultimately have "\<exists>ys. kv_values (ParseQuery (''tag='' @ t @ s)) ''tag'' = t # ys"
    unfolding ParseQuery_def 1 foldl_Cons by metis
  then show ?thesis by (auto simp: kv_get_def)
qed

lemma TrimRight_append:
  assumes "a \<noteq> []" "last a \<notin> set cs"
  shows "\<exists>p. TrimRight (a @ b) cs = a @ p \<and> prefix p b"
proof (cases "set b \<subseteq> set cs")
  case True
  have "dropWhile (\<lambda>c. c \<in> set cs) (rev a) = rev a"
    using assms by (cases a rule: rev_cases) auto
  moreover have "dropWhile (\<lambda>c. c \<in> set cs) (rev b @ rev a) = dropWhile (\<lambda>c. c \<in> set cs) (rev a)"
    using True by (intro dropWhile_append2) auto
  ultimately have "TrimRight (a @ b) cs = a @ []" by (simp add: TrimRight_def)
  then show ?thesis by (intro exI [of _ "[]"]) simp
next
  case False
  then obtain x where x: "x \<in> set (rev b)" "x \<notin> set cs" by auto
  have "TrimRight (a @ b) cs = a @ TrimRight b cs"
    using dropWhile_append1 [of x "rev b" "\<lambda>c. c \<in> set cs" "rev a"] x by (simp add: TrimRight_def)
  moreover have "prefix (TrimRight b cs) b"
    by (metis TrimRight_def prefixI rev_append rev_rev_ident takeWhile_dropWhile_id)
  ultimately show ?thesis by blast
qed

lemma GenerateTag_chars:
  assumes "bs \<noteq> []"
  shows "GenerateTag (Some bs) \<noteq> [] \<and>
    set (GenerateTag (Some bs)) \<inter> {CHR ''&'', CHR '';'', CHR ''='', CHR ''%'', CHR ''+''} = {}"
proof -
  let ?bad = "{CHR ''&'', CHR '';'', CHR ''='', CHR ''%'', CHR ''+''}"
  have "list_all (\<lambda>c. c \<notin> ?bad) letters" by code_simp
  then have l: "set letters \<inter> ?bad = {}" unfolding list_all_iff by blast
  have "letters ! (byte_val b mod length letters) \<in> set letters" for b
    by (rule nth_mem) (simp add: letters_def)
  then have "set (GenerateTag (Some bs)) \<subseteq> set letters"
    by (auto simp: GenerateTag_def GenerateRandomString_def)
  moreover have "GenerateTag (Some bs) \<noteq> []"
    using assms by (simp add: GenerateTag_def GenerateRandomString_def)
  ultimately show ?thesis using l by blast
qed

lemma tagged_parameter:
  assumes "bs \<noteq> []"
  shows "kv_get (ParseQuery (Trim (''tag='' @ GenerateTag (Some bs) @ '';'' @ raw) '';'')) ''tag''
    = GenerateTag (Some bs)"
proof -
  let ?t = "GenerateTag (Some bs)"
  have t: "?t \<noteq> []" "set ?t \<inter> {CHR ''&'', CHR '';'', CHR ''='', CHR ''%'', CHR ''+''} = {}"
    using GenerateTag_chars [OF assms] by blast+
  have "last ?t \<in> set ?t" using t(1) by simp
  then have "last (''tag='' @ ?t) \<notin> set '';''" using t by (auto simp del: last_in_set)
  moreover have "''tag='' @ ?t \<noteq> []" by simp
  ultimately have "\<exists>p. TrimRight ((''tag='' @ ?t) @ '';'' @ raw) '';'' = (''tag='' @ ?t) @ p \<and> prefix p ('';'' @ raw)"
    by (intro TrimRight_append)
  then obtain p where p: "TrimRight ((''tag='' @ ?t) @ '';'' @ raw) '';'' = (''tag='' @ ?t) @ p" "prefix p ('';'' @ raw)"
    by (elim exE conjE)
  have "Trim (''tag='' @ ?t @ '';'' @ raw) '';'' = ''tag='' @ ?t @ p"
    using p(1) by (simp add: Trim_def TrimLeft_def)
  moreover have "p = [] \<or> hd p = CHR '';''" using p(2) by (cases p) auto
  ultimately show ?thesis using ParseQuery_first [OF t(2), of p] by simp
qed

text \<open>
  C23: Every message that is read from a datagram is well typed. It is a request with a method
  that is a token and a URI, or a response with a code of at most three digits, and not both;
  its header has no name twice, every name is canonical and not empty and has a value; its
  content length is the length of its body, of at most 4096 bytes, and a body that is empty is nil.
\<close>

theorem read_message_type:
  assumes "readMessage Buffered msg s = Inr (Inr m)"
  shows "message_typed m"
  using readMessage_typed [OF assms] .

definition sample_datagram :: string where
  "sample_datagram = ''OPTIONS sip:bob@b.com SIP/2.0'' @ crlf @ ''call-id: 1@a'' @ crlf @ ''X: '' @ crlf @ crlf @ ''hi''"

definition sample_read :: message where
  "sample_read = (case readMessage (\<lambda>s. 0) (CreateMessage ''h:5060'') sample_datagram of Inr (Inr m) \<Rightarrow> m | _ \<Rightarrow> sample_invite)"

theorem read_message_type_witness:
  "message_typed sample_read \<and> m_Method sample_read = ''OPTIONS'' \<and> m_Body sample_read = Some ''hi''"
proof -
  have "readMessage (\<lambda>s. 0) (CreateMessage ''h:5060'') sample_datagram = Inr (Inr sample_read)"
    "m_Method sample_read = ''OPTIONS''" "m_Body sample_read = Some ''hi''" by code_simp+
  then show ?thesis using read_message_type by blast
qed

text \<open>
  \<open>AddToTag\<close> gives a message with a To header a tag: the one it had, or a fresh random one
  that the parameters of the header then show; a second call changes nothing.
\<close>

theorem add_to_tag_once:
  assumes "m_To msg = Some t" and "bs \<noteq> []"
  shows "\<exists>r t'. AddToTag (Some bs) msg = Inr r \<and> m_To r = Some t' \<and> to_Addr t' = to_Addr t \<and>
    kv_get (to_Parameter t') ''tag''
      = (if kv_get (to_Parameter t) ''tag'' = [] then GenerateTag (Some bs) else kv_get (to_Parameter t) ''tag'') \<and>
    AddToTag rnd r = Inr r"
  using assms tagged_parameter [OF assms(2), of "to_RawParameter t"] GenerateTag_chars [OF assms(2)]
  by (cases "kv_get (to_Parameter t) ''tag'' = []") (auto simp: AddToTag_def to_Parameter_def)

theorem add_to_tag_once_witness:
  "\<exists>r t'. AddToTag (Some ''abc'') sample_invite = Inr r \<and> m_To r = Some t' \<and>
     kv_get (to_Parameter t') ''tag'' = ''YZa''"
proof -
  have "m_To sample_invite = Some \<lparr>to_Addr = Some (sample_uri_to ''bob''), to_RawParameter = []\<rparr>"
    "GenerateTag (Some ''abc'') = ''YZa''" by code_simp+
  moreover have "kv_get (to_Parameter \<lparr>to_Addr = Some (sample_uri_to ''bob''), to_RawParameter = []\<rparr>) ''tag'' = []"
    by code_simp
  ultimately show ?thesis
    using add_to_tag_once [of sample_invite _ "''abc''" None] by force
qed

end
