(* ===== verification/Transaction.thy ===== *)
theory Transaction
  imports Message
begin

text \<open>
  What client and server transactions share, from \<open>src/sip/transaction.go\<close>: the states,
  the timer values of \<open>sip.go\<close> in milliseconds, the retransmission loops as an interface
  with its three instances, the mutex and channels of the base transaction, and the keys
  under which transactions are stored.
\<close>

section \<open>States and timers\<close>

datatype transactionState =
    TransactionStateInit | TransactionStateTrying | TransactionStateCalling
  | TransactionStateProceeding | TransactionStateCompleted | TransactionStateConfirmed
  | TransactionStateTerminated | TransactionStateClosed

fun state_num :: "transactionState \<Rightarrow> nat" where
  "state_num TransactionStateInit = 0"
| "state_num TransactionStateTrying = 1"
| "state_num TransactionStateCalling = 2"
| "state_num TransactionStateProceeding = 3"
| "state_num TransactionStateCompleted = 4"
| "state_num TransactionStateConfirmed = 5"
| "state_num TransactionStateTerminated = 6"
| "state_num TransactionStateClosed = 7"

definition T1 :: nat where "T1 = 500"
definition T2 :: nat where "T2 = 4000"
definition T4 :: nat where "T4 = 5000"

definition TimerA :: nat where "TimerA = T1"
definition TimerB :: nat where "TimerB = 64 * T1"
definition TimerD :: nat where "TimerD = 32000"
definition TimerE :: nat where "TimerE = T1"
definition TimerF :: nat where "TimerF = 64 * T1"
definition TimerG :: nat where "TimerG = T1"
definition TimerH :: nat where "TimerH = 64 * T1"
definition TimerI :: nat where "TimerI = T4"
definition TimerJ :: nat where "TimerJ = 64 * T1"
definition TimerK :: nat where "TimerK = T4"
definition Timer100Try :: nat where "Timer100Try = 200"

lemmas timer_defs = T1_def T2_def T4_def TimerA_def TimerB_def TimerD_def TimerE_def TimerF_def
  TimerG_def TimerH_def TimerI_def TimerJ_def TimerK_def Timer100Try_def

text \<open>How a retransmission interval grows: without bound for Timer A, up to T2 for E and G.\<close>

definition next_unbounded :: "nat \<Rightarrow> nat" where
  "next_unbounded t = t * 2"

definition next_capped :: "nat \<Rightarrow> nat" where
  "next_capped t = (let t' = t * 2 in if t' > T2 then T2 else t')"

section \<open>Retransmission loops\<close>

text \<open>
  Each of the loops races a retransmission timer against a timeout: when the retransmission
  timer fires first, the time left to the timeout shrinks by the interval and the interval
  grows. The interface asks that intervals stay positive; the lemmas say that the loop
  reaches the timeout after exactly the total time.
\<close>

locale retransmission =
  fixes grow :: "nat \<Rightarrow> nat" and first :: nat and total :: nat
  assumes first_pos: "0 < first" and grow_pos: "0 < t \<Longrightarrow> 0 < grow t"
begin

text \<open>The interval and the time left after \<open>k\<close> retransmissions.\<close>

definition after :: "nat \<Rightarrow> nat \<times> nat" where
  "after k = ((\<lambda>(t, left). (grow t, left - t)) ^^ k) (first, total)"

text \<open>A retransmission can follow the \<open>k\<close>-th.\<close>

definition fires :: "nat \<Rightarrow> bool" where
  "fires k \<longleftrightarrow> fst (after k) \<le> snd (after k)"

lemma after_0: "after 0 = (first, total)"
  by (simp add: after_def)

lemma after_Suc: "after (Suc k) = (grow (fst (after k)), snd (after k) - fst (after k))"
  by (simp add: after_def split_beta)

lemma interval_pos: "0 < fst (after k)"
  by (induction k) (simp_all add: after_0 after_Suc first_pos grow_pos)

lemma elapsed: "\<forall>j < k. fires j \<Longrightarrow> (\<Sum>j<k. fst (after j)) + snd (after k) = total"
proof (induction k)
  case (Suc k)
  then have "fst (after k) \<le> snd (after k)" by (simp add: fires_def)
  then show ?case using Suc by (simp add: after_Suc)
qed (simp add: after_0)

lemma loop_ends: "\<exists>k \<le> total. \<not> fires k"
proof (rule ccontr)
  assume "\<not> ?thesis"
  then have f: "\<forall>j < Suc total. fires j" by (simp add: less_Suc_eq_le)
  have "k \<le> (\<Sum>j<k. fst (after j))" for k
  proof (induction k)
    case (Suc k)
    then show ?case using interval_pos [of k] by simp
  qed simp
  from this [of "Suc total"] elapsed [OF f] show False by simp
qed

end

interpretation timerAB: retransmission next_unbounded TimerA TimerB
  by unfold_locales (simp_all add: timer_defs next_unbounded_def)

interpretation timerEF: retransmission next_capped TimerE TimerF
  by unfold_locales (simp_all add: timer_defs next_capped_def Let_def)

interpretation timerGH: retransmission next_capped TimerG TimerH
  by unfold_locales (simp_all add: timer_defs next_capped_def Let_def)

text \<open>The waiting time of a loop up to the \<open>k\<close>-th retransmission, and the schedules in numbers.\<close>

definition fire_times :: "(nat \<Rightarrow> nat \<times> nat) \<Rightarrow> nat \<Rightarrow> nat" where
  "fire_times aft k = sum_list (map (\<lambda>j. fst (aft j)) [0..<k])"

lemma fire_times_Suc: "fire_times aft (Suc k) = fire_times aft k + fst (aft k)"
  by (simp add: fire_times_def)

lemma fire_times_0 [simp]: "fire_times aft 0 = 0"
  by (simp add: fire_times_def)

lemma timerAB_table:
  "timerAB.after 0 = (500, 32000)"
  "timerAB.after 1 = (1000, 31500)"
  "timerAB.after 2 = (2000, 30500)"
  "timerAB.after 3 = (4000, 28500)"
  "timerAB.after 4 = (8000, 24500)"
  "timerAB.after 5 = (16000, 16500)"
  "timerAB.after 6 = (32000, 500)"
proof -
  show 0: "timerAB.after 0 = (500, 32000)" by (rule trans [OF timerAB.after_0]) (simp add: timer_defs)
  show 1: "timerAB.after 1 = (1000, 31500)" using timerAB.after_Suc [of 0] 0 by (simp add: next_unbounded_def timer_defs)
  show 2: "timerAB.after 2 = (2000, 30500)" using timerAB.after_Suc [of 1] 1 by (simp add: next_unbounded_def timer_defs numeral_2_eq_2)
  show 3: "timerAB.after 3 = (4000, 28500)" using timerAB.after_Suc [of 2] 2 by (simp add: next_unbounded_def timer_defs)
  show 4: "timerAB.after 4 = (8000, 24500)" using timerAB.after_Suc [of 3] 3 by (simp add: next_unbounded_def timer_defs)
  show 5: "timerAB.after 5 = (16000, 16500)" using timerAB.after_Suc [of 4] 4 by (simp add: next_unbounded_def timer_defs)
  show 6: "timerAB.after 6 = (32000, 500)" using timerAB.after_Suc [of 5] 5 by (simp add: next_unbounded_def timer_defs)
qed

lemma timerEF_table:
  "timerEF.after 0 = (500, 32000)"
  "timerEF.after 1 = (1000, 31500)"
  "timerEF.after 2 = (2000, 30500)"
  "timerEF.after 3 = (4000, 28500)"
  "timerEF.after 4 = (4000, 24500)"
  "timerEF.after 5 = (4000, 20500)"
  "timerEF.after 6 = (4000, 16500)"
  "timerEF.after 7 = (4000, 12500)"
  "timerEF.after 8 = (4000, 8500)"
  "timerEF.after 9 = (4000, 4500)"
  "timerEF.after 10 = (4000, 500)"
proof -
  show 0: "timerEF.after 0 = (500, 32000)" by (rule trans [OF timerEF.after_0]) (simp add: timer_defs)
  show 1: "timerEF.after 1 = (1000, 31500)" using timerEF.after_Suc [of 0] 0 by (simp add: next_capped_def timer_defs)
  show 2: "timerEF.after 2 = (2000, 30500)" using timerEF.after_Suc [of 1] 1 by (simp add: next_capped_def timer_defs numeral_2_eq_2)
  show 3: "timerEF.after 3 = (4000, 28500)" using timerEF.after_Suc [of 2] 2 by (simp add: next_capped_def timer_defs)
  show 4: "timerEF.after 4 = (4000, 24500)" using timerEF.after_Suc [of 3] 3 by (simp add: next_capped_def timer_defs)
  show 5: "timerEF.after 5 = (4000, 20500)" using timerEF.after_Suc [of 4] 4 by (simp add: next_capped_def timer_defs)
  show 6: "timerEF.after 6 = (4000, 16500)" using timerEF.after_Suc [of 5] 5 by (simp add: next_capped_def timer_defs)
  show 7: "timerEF.after 7 = (4000, 12500)" using timerEF.after_Suc [of 6] 6 by (simp add: next_capped_def timer_defs)
  show 8: "timerEF.after 8 = (4000, 8500)" using timerEF.after_Suc [of 7] 7 by (simp add: next_capped_def timer_defs)
  show 9: "timerEF.after 9 = (4000, 4500)" using timerEF.after_Suc [of 8] 8 by (simp add: next_capped_def timer_defs)
  show 10: "timerEF.after 10 = (4000, 500)" using timerEF.after_Suc [of 9] 9 by (simp add: next_capped_def timer_defs)
qed

lemma timerGH_table:
  "timerGH.after 0 = (500, 32000)"
  "timerGH.after 1 = (1000, 31500)"
  "timerGH.after 2 = (2000, 30500)"
  "timerGH.after 3 = (4000, 28500)"
  "timerGH.after 4 = (4000, 24500)"
  "timerGH.after 5 = (4000, 20500)"
  "timerGH.after 6 = (4000, 16500)"
  "timerGH.after 7 = (4000, 12500)"
  "timerGH.after 8 = (4000, 8500)"
  "timerGH.after 9 = (4000, 4500)"
  "timerGH.after 10 = (4000, 500)"
proof -
  show 0: "timerGH.after 0 = (500, 32000)" by (rule trans [OF timerGH.after_0]) (simp add: timer_defs)
  show 1: "timerGH.after 1 = (1000, 31500)" using timerGH.after_Suc [of 0] 0 by (simp add: next_capped_def timer_defs)
  show 2: "timerGH.after 2 = (2000, 30500)" using timerGH.after_Suc [of 1] 1 by (simp add: next_capped_def timer_defs numeral_2_eq_2)
  show 3: "timerGH.after 3 = (4000, 28500)" using timerGH.after_Suc [of 2] 2 by (simp add: next_capped_def timer_defs)
  show 4: "timerGH.after 4 = (4000, 24500)" using timerGH.after_Suc [of 3] 3 by (simp add: next_capped_def timer_defs)
  show 5: "timerGH.after 5 = (4000, 20500)" using timerGH.after_Suc [of 4] 4 by (simp add: next_capped_def timer_defs)
  show 6: "timerGH.after 6 = (4000, 16500)" using timerGH.after_Suc [of 5] 5 by (simp add: next_capped_def timer_defs)
  show 7: "timerGH.after 7 = (4000, 12500)" using timerGH.after_Suc [of 6] 6 by (simp add: next_capped_def timer_defs)
  show 8: "timerGH.after 8 = (4000, 8500)" using timerGH.after_Suc [of 7] 7 by (simp add: next_capped_def timer_defs)
  show 9: "timerGH.after 9 = (4000, 4500)" using timerGH.after_Suc [of 8] 8 by (simp add: next_capped_def timer_defs)
  show 10: "timerGH.after 10 = (4000, 500)" using timerGH.after_Suc [of 9] 9 by (simp add: next_capped_def timer_defs)
qed

lemma timerAB_race: "k \<le> 6 \<Longrightarrow>
    (fst (timerAB.after k) \<le> snd (timerAB.after k) \<longleftrightarrow> k < 6) \<and> (snd (timerAB.after k) \<le> fst (timerAB.after k) \<longleftrightarrow> k = 6)"
proof -
  assume "k \<le> 6"
  then have "k \<in> set [0..<7]" by simp
  moreover have "[0..<7] = [0,1,2,3,4,5,6]" by code_simp
  ultimately have "k \<in> set [0,1,2,3,4,5,6]" by (simp only:)
  moreover have "\<forall>k \<in> set [0,1,2,3,4,5,6]. (fst (timerAB.after k) \<le> snd (timerAB.after k) \<longleftrightarrow> k < 6)
      \<and> (snd (timerAB.after k) \<le> fst (timerAB.after k) \<longleftrightarrow> k = 6)"
    by (simp add: timerAB_table [simplified])
  ultimately show ?thesis by blast
qed

lemma timerAB_times: "fire_times timerAB.after 6 = 31500"
proof -
  have "[0..<6] = [0,1,2,3,4,5]" by code_simp
  then show ?thesis by (simp add: fire_times_def timerAB_table [simplified])
qed

lemma timerEF_race: "k \<le> 10 \<Longrightarrow>
    (fst (timerEF.after k) \<le> snd (timerEF.after k) \<longleftrightarrow> k < 10) \<and> (snd (timerEF.after k) \<le> fst (timerEF.after k) \<longleftrightarrow> k = 10)"
proof -
  assume "k \<le> 10"
  then have "k \<in> set [0..<11]" by simp
  moreover have "[0..<11] = [0,1,2,3,4,5,6,7,8,9,10]" by code_simp
  ultimately have "k \<in> set [0,1,2,3,4,5,6,7,8,9,10]" by (simp only:)
  moreover have "\<forall>k \<in> set [0,1,2,3,4,5,6,7,8,9,10]. (fst (timerEF.after k) \<le> snd (timerEF.after k) \<longleftrightarrow> k < 10)
      \<and> (snd (timerEF.after k) \<le> fst (timerEF.after k) \<longleftrightarrow> k = 10)"
    by (simp add: timerEF_table [simplified])
  ultimately show ?thesis by blast
qed

lemma timerEF_times: "fire_times timerEF.after 10 = 31500"
proof -
  have "[0..<10] = [0,1,2,3,4,5,6,7,8,9]" by code_simp
  then show ?thesis by (simp add: fire_times_def timerEF_table [simplified])
qed

lemma timerGH_race: "k \<le> 10 \<Longrightarrow>
    (fst (timerGH.after k) \<le> snd (timerGH.after k) \<longleftrightarrow> k < 10) \<and> (snd (timerGH.after k) \<le> fst (timerGH.after k) \<longleftrightarrow> k = 10)"
proof -
  assume "k \<le> 10"
  then have "k \<in> set [0..<11]" by simp
  moreover have "[0..<11] = [0,1,2,3,4,5,6,7,8,9,10]" by code_simp
  ultimately have "k \<in> set [0,1,2,3,4,5,6,7,8,9,10]" by (simp only:)
  moreover have "\<forall>k \<in> set [0,1,2,3,4,5,6,7,8,9,10]. (fst (timerGH.after k) \<le> snd (timerGH.after k) \<longleftrightarrow> k < 10)
      \<and> (snd (timerGH.after k) \<le> fst (timerGH.after k) \<longleftrightarrow> k = 10)"
    by (simp add: timerGH_table [simplified])
  ultimately show ?thesis by blast
qed

lemma timerGH_times: "fire_times timerGH.after 10 = 31500"
proof -
  have "[0..<10] = [0,1,2,3,4,5,6,7,8,9]" by code_simp
  then show ?thesis by (simp add: fire_times_def timerGH_table [simplified])
qed

lemma timerAB_sends: "map (\<lambda>j. fire_times timerAB.after (Suc j)) [0..<6] = [500, 1500, 3500, 7500, 15500, 31500]"
proof -
  have f1: "fire_times timerAB.after (Suc 0) = 500" using fire_times_Suc [of timerAB.after 0] timerAB_table(1) by simp
  have f2: "fire_times timerAB.after (Suc 1) = 1500" using fire_times_Suc [of timerAB.after 1] timerAB_table(2) f1 by (simp)
  have f3: "fire_times timerAB.after (Suc 2) = 3500" using fire_times_Suc [of timerAB.after 2] timerAB_table(3) f2 by (simp add: numeral_2_eq_2)
  have f4: "fire_times timerAB.after (Suc 3) = 7500" using fire_times_Suc [of timerAB.after 3] timerAB_table(4) f3 by (simp)
  have f5: "fire_times timerAB.after (Suc 4) = 15500" using fire_times_Suc [of timerAB.after 4] timerAB_table(5) f4 by (simp)
  have f6: "fire_times timerAB.after (Suc 5) = 31500" using fire_times_Suc [of timerAB.after 5] timerAB_table(6) f5 by (simp)
  have "[0..<6] = [0, 1, 2, 3, 4, 5]" by code_simp
  then show ?thesis using f1 f2 f3 f4 f5 f6 by (simp only: list.map)
qed

lemma timerEF_sends: "map (\<lambda>j. fire_times timerEF.after (Suc j)) [0..<10] = [500, 1500, 3500, 7500, 11500, 15500, 19500, 23500, 27500, 31500]"
proof -
  have f1: "fire_times timerEF.after (Suc 0) = 500" using fire_times_Suc [of timerEF.after 0] timerEF_table(1) by simp
  have f2: "fire_times timerEF.after (Suc 1) = 1500" using fire_times_Suc [of timerEF.after 1] timerEF_table(2) f1 by (simp)
  have f3: "fire_times timerEF.after (Suc 2) = 3500" using fire_times_Suc [of timerEF.after 2] timerEF_table(3) f2 by (simp add: numeral_2_eq_2)
  have f4: "fire_times timerEF.after (Suc 3) = 7500" using fire_times_Suc [of timerEF.after 3] timerEF_table(4) f3 by (simp)
  have f5: "fire_times timerEF.after (Suc 4) = 11500" using fire_times_Suc [of timerEF.after 4] timerEF_table(5) f4 by (simp)
  have f6: "fire_times timerEF.after (Suc 5) = 15500" using fire_times_Suc [of timerEF.after 5] timerEF_table(6) f5 by (simp)
  have f7: "fire_times timerEF.after (Suc 6) = 19500" using fire_times_Suc [of timerEF.after 6] timerEF_table(7) f6 by (simp)
  have f8: "fire_times timerEF.after (Suc 7) = 23500" using fire_times_Suc [of timerEF.after 7] timerEF_table(8) f7 by (simp)
  have f9: "fire_times timerEF.after (Suc 8) = 27500" using fire_times_Suc [of timerEF.after 8] timerEF_table(9) f8 by (simp)
  have f10: "fire_times timerEF.after (Suc 9) = 31500" using fire_times_Suc [of timerEF.after 9] timerEF_table(10) f9 by (simp)
  have "[0..<10] = [0, 1, 2, 3, 4, 5, 6, 7, 8, 9]" by code_simp
  then show ?thesis using f1 f2 f3 f4 f5 f6 f7 f8 f9 f10 by (simp only: list.map)
qed

lemma timerGH_sends: "map (\<lambda>j. fire_times timerGH.after (Suc j)) [0..<10] = [500, 1500, 3500, 7500, 11500, 15500, 19500, 23500, 27500, 31500]"
proof -
  have f1: "fire_times timerGH.after (Suc 0) = 500" using fire_times_Suc [of timerGH.after 0] timerGH_table(1) by simp
  have f2: "fire_times timerGH.after (Suc 1) = 1500" using fire_times_Suc [of timerGH.after 1] timerGH_table(2) f1 by (simp)
  have f3: "fire_times timerGH.after (Suc 2) = 3500" using fire_times_Suc [of timerGH.after 2] timerGH_table(3) f2 by (simp add: numeral_2_eq_2)
  have f4: "fire_times timerGH.after (Suc 3) = 7500" using fire_times_Suc [of timerGH.after 3] timerGH_table(4) f3 by (simp)
  have f5: "fire_times timerGH.after (Suc 4) = 11500" using fire_times_Suc [of timerGH.after 4] timerGH_table(5) f4 by (simp)
  have f6: "fire_times timerGH.after (Suc 5) = 15500" using fire_times_Suc [of timerGH.after 5] timerGH_table(6) f5 by (simp)
  have f7: "fire_times timerGH.after (Suc 6) = 19500" using fire_times_Suc [of timerGH.after 6] timerGH_table(7) f6 by (simp)
  have f8: "fire_times timerGH.after (Suc 7) = 23500" using fire_times_Suc [of timerGH.after 7] timerGH_table(8) f7 by (simp)
  have f9: "fire_times timerGH.after (Suc 8) = 27500" using fire_times_Suc [of timerGH.after 8] timerGH_table(9) f8 by (simp)
  have f10: "fire_times timerGH.after (Suc 9) = 31500" using fire_times_Suc [of timerGH.after 9] timerGH_table(10) f9 by (simp)
  have "[0..<10] = [0, 1, 2, 3, 4, 5, 6, 7, 8, 9]" by code_simp
  then show ?thesis using f1 f2 f3 f4 f5 f6 f7 f8 f9 f10 by (simp only: list.map)
qed

section \<open>Keys\<close>

record client_key =
  ck_viaBranch :: string
  ck_cseqMethod :: string

record server_key =
  sk_viaBranch :: string
  sk_sentBy :: string
  sk_method :: string

definition UpdateMethod :: "server_key \<Rightarrow> string \<Rightarrow> server_key" where
  "UpdateMethod t s = t\<lparr>sk_method := s\<rparr>"

definition GenerateClientTransactionKey :: "message \<Rightarrow> (protocol_error + client_key) run" where
  "GenerateClientTransactionKey msg =
     bindR (GetTopMostVia msg) (\<lambda>r.
       case r of
         Inl e \<Rightarrow> Inr (Inl e)
       | Inr (_, _, params) \<Rightarrow>
           (case kv_values params ''branch'' of
              [] \<Rightarrow> Inr (Inl ErrHeaderParseError)
            | b # _ \<Rightarrow>
                (case GetCSeq msg of
                   Inl e \<Rightarrow> Inr (Inl e)
                 | Inr (method, _) \<Rightarrow> Inr (Inr \<lparr>ck_viaBranch = b, ck_cseqMethod = method\<rparr>))))"

definition GenerateServerTransactionKey :: "message \<Rightarrow> (protocol_error + server_key) run" where
  "GenerateServerTransactionKey msg =
     bindR (GetTopMostVia msg) (\<lambda>r.
       case r of
         Inl e \<Rightarrow> Inr (Inl e)
       | Inr (_, sentBy, params) \<Rightarrow>
           (case kv_values params ''branch'' of
              [] \<Rightarrow> Inr (Inl ErrHeaderParseError)
            | b # _ \<Rightarrow>
                (let method = (if m_Method msg = ''ACK'' then ''INVITE'' else m_Method msg)
                 in Inr (Inr \<lparr>sk_viaBranch = b, sk_sentBy = sentBy, sk_method = method\<rparr>))))"

section \<open>The mutex and channels of the base transaction\<close>

text \<open>
  A call either returns, or waits for a mutex that is held, or holds the mutex and waits for
  the controller to take the message from \<open>TuChan\<close>. Sending on the closed channel panics.
\<close>

record base_txn =
  bt_Mu :: bool
  bt_State :: transactionState
  bt_TuClosed :: bool
  bt_DelClosed :: bool

datatype 'a call = Returns 'a | WaitsForMutex 'a | HandsOver message 'a

definition base_WriteMessage :: "message \<Rightarrow> base_txn \<Rightarrow> base_txn call run" where
  "base_WriteMessage msg t =
     (if bt_Mu t then Inr (WaitsForMutex t)
      else if state_num TransactionStateTerminated \<le> state_num (bt_State t) then Inr (Returns t)
      else if bt_TuClosed t then Inl SendOnClosedChannel
      else Inr (HandsOver msg (t\<lparr>bt_Mu := True\<rparr>)))"

text \<open>Nothing happens in state Closed; the two channels are closed at most once.\<close>

definition DestroyChanel :: "base_txn \<Rightarrow> base_txn call run" where
  "DestroyChanel t =
     (if bt_Mu t then Inr (WaitsForMutex t)
      else if bt_State t = TransactionStateClosed then Inr (Returns t)
      else if bt_DelClosed t \<or> bt_TuClosed t then Inl CloseOfClosedChannel
      else Inr (Returns (t\<lparr>bt_State := TransactionStateClosed, bt_DelClosed := True, bt_TuClosed := True\<rparr>)))"

end
