(* ===== verification/ClientTxn.thy ===== *)
theory ClientTxn
  imports Transaction
begin

text \<open>
  The client transaction of \<open>src/sip/transaction.go\<close> as a state machine. The control point
  says at which \<open>select\<close> the controller goroutine waits; an event is what the select takes:
  a closed \<open>DelChan\<close>, a message or the end of \<open>TuChan\<close> or \<open>resChan\<close>, or a timer. A step
  runs the code from that select to the next one. \<open>c_now\<close> is the time in milliseconds and
  \<open>c_log\<close> what the transaction did, both kept for the statements.

  The timers of the calling and trying loops are started anew in every iteration, as
  \<open>time.After\<close> does; timers D and K run from the moment the state is entered (\<open>deadline\<close>).
\<close>

datatype client_pc =
    CStart
  | CInviteWaitTu
  | CCalling nat nat
  | CInviteProceeding
  | CInviteCompleted nat
  | CNonInviteWaitTu
  | CTrying nat nat
  | CNonInviteCompleted nat
  | CDone

datatype client_effect =
    Transmit message
  | HandleInTransaction message
  | ErrorInform "protocol_error option"
  | DeleteClientTransaction client_key

record client_txn =
  c_Invite :: bool
  c_State :: transactionState
  c_Err :: "protocol_error option"
  c_TuClosed :: bool
  c_DelClosed :: bool
  c_resChan :: bool
  c_Key :: client_key
  c_Request :: message
  c_ack :: "message option"
  c_ProvisionalRes :: "message option"
  c_FinalRes :: "message option"
  c_informs :: bool
  c_pc :: client_pc
  c_now :: nat
  c_log :: "(nat \<times> client_effect) list"

definition newClientTransaction :: "bool \<Rightarrow> client_key \<Rightarrow> message \<Rightarrow> bool \<Rightarrow> client_txn" where
  "newClientTransaction isInvite key msg f =
     \<lparr>c_Invite = isInvite, c_State = TransactionStateInit, c_Err = None, c_TuClosed = False,
      c_DelClosed = False, c_resChan = True, c_Key = key, c_Request = msg, c_ack = None,
      c_ProvisionalRes = None, c_FinalRes = None, c_informs = f, c_pc = CStart, c_now = 0, c_log = []\<rparr>"

definition c_do :: "client_effect \<Rightarrow> client_txn \<Rightarrow> client_txn" where
  "c_do e c = c\<lparr>c_log := c_log c @ [(c_now c, e)]\<rparr>"

definition c_goto :: "client_pc \<Rightarrow> client_txn \<Rightarrow> client_txn" where
  "c_goto p c = c\<lparr>c_pc := p\<rparr>"

text \<open>
  \<open>resChan\<close> is nil after the first call, so a second one closes a nil channel. The deletion
  from the table is deferred to the end.
\<close>

definition client_Destroy :: "client_txn \<Rightarrow> client_txn run" where
  "client_Destroy c =
     (if \<not> c_resChan c then Inl CloseOfNilChannel
      else if c_State c \<noteq> TransactionStateClosed \<and> (c_DelClosed c \<or> c_TuClosed c) then Inl CloseOfClosedChannel
      else
        (let c1 = (if c_State c = TransactionStateClosed then c\<lparr>c_resChan := False\<rparr>
                   else c\<lparr>c_resChan := False, c_State := TransactionStateClosed, c_DelClosed := True,
                          c_TuClosed := True\<rparr>);
             c2 = (if c_Err c1 \<noteq> None \<and> c_informs c1 then c_do (ErrorInform (c_Err c1)) c1 else c1)
         in Inr (c_do (DeleteClientTransaction (c_Key c2)) c2)))"

definition c_destroy_and_return :: "client_txn \<Rightarrow> client_txn run" where
  "c_destroy_and_return c = bindR (client_Destroy c) (\<lambda>c'. Inr (c_goto CDone c'))"

definition client_controllerTerminated :: "client_txn \<Rightarrow> client_txn run" where
  "client_controllerTerminated c = c_destroy_and_return (c\<lparr>c_State := TransactionStateTerminated\<rparr>)"

definition nonInviteControllerCompleted_enter :: "client_txn \<Rightarrow> client_txn" where
  "nonInviteControllerCompleted_enter c =
     c_goto (CNonInviteCompleted (c_now c + TimerK)) (c\<lparr>c_State := TransactionStateCompleted\<rparr>)"

text \<open>\<open>WriteMessage(t.ack)\<close> is reached with an ACK only.\<close>

definition c_transmit_ack :: "client_txn \<Rightarrow> client_txn run" where
  "c_transmit_ack c = bindR (deref (c_ack c)) (\<lambda>a. Inr (c_do (Transmit a) c))"

definition inviteControllerCompleted_enter :: "client_txn \<Rightarrow> client_txn run" where
  "inviteControllerCompleted_enter c =
     bindR (c_transmit_ack (c\<lparr>c_State := TransactionStateCompleted\<rparr>)) (\<lambda>c1.
       Inr (c_goto (CInviteCompleted (c_now c + TimerD)) c1))"

definition nonInviteControllerProceeding_enter :: "client_txn \<Rightarrow> client_txn" where
  "nonInviteControllerProceeding_enter c =
     c_goto (CTrying TimerE TimerF) (c\<lparr>c_State := TransactionStateProceeding\<rparr>)"

definition inviteControllerProceeding_enter :: "client_txn \<Rightarrow> client_txn" where
  "inviteControllerProceeding_enter c =
     c_goto CInviteProceeding (c\<lparr>c_State := TransactionStateProceeding\<rparr>)"

text \<open>
  The end of both INVITE loops for a response of 300 to 699: an ACK is built for it, or the
  transaction is destroyed with the error. The random bytes of the ACK do not show in it.
\<close>

definition c_ack_final :: "message \<Rightarrow> client_txn \<Rightarrow> client_txn run" where
  "c_ack_final msg c =
     bindR (GenerateAckFromRequestAndResponse None None (c_Request c) msg) (\<lambda>r.
       case r of
         Inl e \<Rightarrow> c_destroy_and_return (c\<lparr>c_Err := Some e\<rparr>)
       | Inr a \<Rightarrow> inviteControllerCompleted_enter (c\<lparr>c_ack := Some a\<rparr>))"

definition c_calling_response :: "message \<Rightarrow> client_txn \<Rightarrow> client_txn run" where
  "c_calling_response msg c =
     (let code = m_StatusCode msg in
      if \<not> m_Response msg then c_destroy_and_return (c\<lparr>c_Err := Some ErrTransactionUnexpectedMessage\<rparr>)
      else if 100 \<le> code \<and> code < 700 then
        (if 200 \<le> code \<and> code < 300 then client_controllerTerminated (c\<lparr>c_FinalRes := Some msg\<rparr>)
         else if 300 \<le> code \<and> code < 700
         then c_ack_final msg (c\<lparr>c_FinalRes := Some msg, c_Err := Some (Non2XXResponse code)\<rparr>)
         else Inr (inviteControllerProceeding_enter (c\<lparr>c_ProvisionalRes := Some msg\<rparr>)))
      else Inr c)"

definition c_proceeding_response :: "message option \<Rightarrow> client_txn \<Rightarrow> client_txn run" where
  "c_proceeding_response m c =
     (case m of
        None \<Rightarrow> c_destroy_and_return (c\<lparr>c_Err := Some ErrTransactionUnexpectedMessage\<rparr>)
      | Some msg \<Rightarrow>
          (let code = m_StatusCode msg in
           if \<not> m_Response msg then c_destroy_and_return (c\<lparr>c_Err := Some ErrTransactionUnexpectedMessage\<rparr>)
           else if 100 \<le> code \<and> code < 200 then Inr (c\<lparr>c_ProvisionalRes := Some msg\<rparr>)
           else if 200 \<le> code \<and> code < 300 then client_controllerTerminated (c\<lparr>c_FinalRes := Some msg\<rparr>)
           else if 300 \<le> code \<and> code < 700 then c_ack_final msg (c\<lparr>c_FinalRes := Some msg\<rparr>)
           else Inr c))"

text \<open>Every status outside 100 to 199 ends the loop, one below 100 or above 699 as well.\<close>

definition c_trying_response :: "message \<Rightarrow> client_txn \<Rightarrow> client_txn run" where
  "c_trying_response msg c =
     (let code = m_StatusCode msg in
      if \<not> m_Response msg then c_destroy_and_return c
      else if 100 \<le> code \<and> code < 200
      then Inr (nonInviteControllerProceeding_enter (c\<lparr>c_ProvisionalRes := Some msg\<rparr>))
      else
        (let c1 = (if 300 \<le> code \<and> code < 700 then c\<lparr>c_Err := Some (Non2XXResponse code)\<rparr> else c)
         in Inr (nonInviteControllerCompleted_enter (c1\<lparr>c_FinalRes := Some msg\<rparr>))))"

text \<open>The first select of both controllers; a nil message is dereferenced.\<close>

definition c_submit :: "message option \<Rightarrow> client_txn \<Rightarrow> client_txn run" where
  "c_submit m c =
     bindR (deref m) (\<lambda>msg.
       if \<not> m_Request msg \<or> (m_Method msg = ''INVITE'') \<noteq> c_Invite c
       then c_destroy_and_return (c\<lparr>c_Err := Some ErrTransactionUnexpectedMessage\<rparr>)
       else
         (let c1 = c_do (Transmit msg) (c\<lparr>c_Request := msg\<rparr>)
          in Inr (if c_Invite c then c_goto (CCalling TimerA TimerB) c1
                  else nonInviteControllerProceeding_enter c1)))"

datatype client_event =
    CGo
  | CDel
  | CTu "message option"
  | CRes "message option"
  | CRetransmit
  | CTimeout
  | CLinger
  | CDestroy

text \<open>
  \<open>Handle\<close> gives a response to the controller and then hands it to the core; the response
  is logged before what the controller does with it.
\<close>

definition client_controller :: "client_event \<Rightarrow> client_txn \<Rightarrow> client_txn run" where
  "client_controller ev c =
     (case (c_pc c, ev) of
        (CStart, CGo) \<Rightarrow>
          Inr (if c_Invite c then c_goto CInviteWaitTu (c\<lparr>c_State := TransactionStateCalling\<rparr>)
               else c_goto CNonInviteWaitTu (c\<lparr>c_State := TransactionStateTrying\<rparr>))
      | (CInviteWaitTu, CTu m) \<Rightarrow> c_submit m c
      | (CNonInviteWaitTu, CTu m) \<Rightarrow> c_submit m c
      | (CCalling a b, CDel) \<Rightarrow> Inr (c_goto CDone (c\<lparr>c_Err := Some ErrTransactionClosed\<rparr>))
      | (_, CDel) \<Rightarrow> Inr (c_goto CDone c)
      | (CCalling a b, CRetransmit) \<Rightarrow>
          Inr (c_goto (CCalling (next_unbounded a) (b - a)) (c_do (Transmit (c_Request c)) c))
      | (CCalling a b, CTimeout) \<Rightarrow> client_controllerTerminated (c\<lparr>c_Err := Some ErrTransactionTimedOut\<rparr>)
      | (CCalling a b, CRes None) \<Rightarrow> Inr (c_goto CDone c)
      | (CCalling a b, CRes (Some msg)) \<Rightarrow> c_calling_response msg c
      | (CInviteProceeding, CRes m) \<Rightarrow> c_proceeding_response m c
      | (CInviteCompleted dl, CLinger) \<Rightarrow> client_controllerTerminated c
      | (CInviteCompleted dl, CRes None) \<Rightarrow> Inr (c_goto CDone c)
      | (CInviteCompleted dl, CRes (Some msg)) \<Rightarrow>
          (if 300 \<le> m_StatusCode msg \<and> m_StatusCode msg < 700 then c_transmit_ack c else Inr c)
      | (CTrying e f, CRetransmit) \<Rightarrow>
          Inr (c_goto (CTrying (next_capped e) (f - e)) (c_do (Transmit (c_Request c)) c))
      | (CTrying e f, CTimeout) \<Rightarrow> client_controllerTerminated (c\<lparr>c_Err := Some ErrTransactionTimedOut\<rparr>)
      | (CTrying e f, CRes None) \<Rightarrow> Inr (c_goto CDone c)
      | (CTrying e f, CRes (Some msg)) \<Rightarrow> c_trying_response msg c
      | (CNonInviteCompleted dl, CLinger) \<Rightarrow> client_controllerTerminated c
      | (CNonInviteCompleted dl, CRes None) \<Rightarrow> Inr (c_goto CDone c)
      | (CNonInviteCompleted dl, CRes (Some msg)) \<Rightarrow> Inr c
      | _ \<Rightarrow> Inr c)"

definition client_run :: "nat \<Rightarrow> client_event \<Rightarrow> client_txn \<Rightarrow> client_txn run" where
  "client_run d ev c0 =
     (let c = c0\<lparr>c_now := c_now c0 + d\<rparr> in
      case ev of
        CDestroy \<Rightarrow> client_Destroy c
      | CRes (Some msg) \<Rightarrow> client_controller ev (c_do (HandleInTransaction msg) c)
      | _ \<Rightarrow> client_controller ev c)"

text \<open>Which event the select can take after \<open>d\<close> milliseconds.\<close>

definition c_channels :: "client_event \<Rightarrow> client_txn \<Rightarrow> bool" where
  "c_channels ev c \<longleftrightarrow>
     (case ev of CDel \<Rightarrow> c_DelClosed c | CRes None \<Rightarrow> \<not> c_resChan c | CRes (Some _) \<Rightarrow> c_resChan c | _ \<Rightarrow> False)"

definition client_enabled :: "nat \<Rightarrow> client_event \<Rightarrow> client_txn \<Rightarrow> bool" where
  "client_enabled d ev c \<longleftrightarrow>
     ev = CDestroy \<or>
     (case c_pc c of
        CStart \<Rightarrow> ev = CGo
      | CInviteWaitTu \<Rightarrow>
          (case ev of CDel \<Rightarrow> c_DelClosed c | CTu None \<Rightarrow> c_TuClosed c | CTu (Some _) \<Rightarrow> \<not> c_TuClosed c | _ \<Rightarrow> False)
      | CNonInviteWaitTu \<Rightarrow>
          (case ev of CDel \<Rightarrow> c_DelClosed c | CTu None \<Rightarrow> c_TuClosed c | CTu (Some _) \<Rightarrow> \<not> c_TuClosed c | _ \<Rightarrow> False)
      | CCalling a b \<Rightarrow>
          d \<le> a \<and> d \<le> b \<and> (case ev of CRetransmit \<Rightarrow> d = a | CTimeout \<Rightarrow> d = b | _ \<Rightarrow> c_channels ev c)
      | CInviteProceeding \<Rightarrow> c_channels ev c
      | CInviteCompleted dl \<Rightarrow>
          c_now c + d \<le> dl \<and> (case ev of CLinger \<Rightarrow> c_now c + d = dl | _ \<Rightarrow> c_channels ev c)
      | CTrying e f \<Rightarrow>
          d \<le> e \<and> d \<le> f \<and> (case ev of CRetransmit \<Rightarrow> d = e | CTimeout \<Rightarrow> d = f | _ \<Rightarrow> c_channels ev c)
      | CNonInviteCompleted dl \<Rightarrow>
          c_now c + d \<le> dl \<and> (case ev of CLinger \<Rightarrow> c_now c + d = dl | _ \<Rightarrow> c_channels ev c)
      | CDone \<Rightarrow> False)"

text \<open>The transaction on its own, with nobody calling \<open>Destroy\<close> from outside.\<close>

inductive client_step :: "client_txn \<Rightarrow> nat \<Rightarrow> client_event \<Rightarrow> client_txn \<Rightarrow> bool" where
  own: "client_enabled d ev c \<Longrightarrow> ev \<noteq> CDestroy \<Longrightarrow> client_run d ev c = Inr c' \<Longrightarrow> client_step c d ev c'"

inductive client_reach :: "client_txn \<Rightarrow> client_txn \<Rightarrow> bool" for c0 where
  start: "client_reach c0 c0"
| step: "client_reach c0 c \<Longrightarrow> client_step c d ev c' \<Longrightarrow> client_reach c0 c'"

inductive_cases client_stepE [elim!]: "client_step c d ev c'"
inductive_simps client_step_iff: "client_step c d ev c'"

end
