(* ===== verification/ClientTxn_Facts.thy ===== *)
theory ClientTxn_Facts
  imports ClientTxn
begin

text \<open>
  The schedule of a client transaction that hears nothing, and the invariant of one that
  nobody destroys from outside.
\<close>

section \<open>A transaction that hears nothing\<close>

definition quiet_event :: "client_event \<Rightarrow> bool" where
  "quiet_event ev \<longleftrightarrow> (case ev of CRes (Some _) \<Rightarrow> False | _ \<Rightarrow> True)"

inductive client_quiet :: "client_txn \<Rightarrow> client_txn \<Rightarrow> bool" for c0 where
  start: "client_quiet c0 c0"
| step: "client_quiet c0 c \<Longrightarrow> quiet_event ev \<Longrightarrow> client_step c d ev c' \<Longrightarrow> client_quiet c0 c'"

text \<open>After \<open>k\<close> retransmissions of a loop with the given control points and schedule.\<close>

definition quiet_sent :: "(nat \<Rightarrow> nat \<Rightarrow> client_pc) \<Rightarrow> (nat \<Rightarrow> nat \<times> nat) \<Rightarrow> client_txn \<Rightarrow> nat \<Rightarrow> client_txn" where
  "quiet_sent pc aft c k =
     c\<lparr>c_pc := pc (fst (aft k)) (snd (aft k)), c_now := c_now c + fire_times aft k,
       c_log := c_log c @ map (\<lambda>j. (c_now c + fire_times aft (Suc j), Transmit (c_Request c))) [0..<k]\<rparr>"

definition quiet_end :: "(nat \<Rightarrow> nat \<times> nat) \<Rightarrow> client_txn \<Rightarrow> nat \<Rightarrow> client_txn" where
  "quiet_end aft c n =
     c\<lparr>c_pc := CDone, c_now := c_now c + 64 * T1, c_State := TransactionStateClosed,
       c_Err := Some ErrTransactionTimedOut, c_resChan := False, c_DelClosed := True, c_TuClosed := True,
       c_log := c_log c @ map (\<lambda>j. (c_now c + fire_times aft (Suc j), Transmit (c_Request c))) [0..<n]
         @ (if c_informs c then [(c_now c + 64 * T1, ErrorInform (Some ErrTransactionTimedOut))] else [])
         @ [(c_now c + 64 * T1, DeleteClientTransaction (c_Key c))]\<rparr>"

definition c_open :: "client_txn \<Rightarrow> bool" where
  "c_open c \<longleftrightarrow> c_resChan c \<and> \<not> c_DelClosed c \<and> \<not> c_TuClosed c"

lemma quiet_calling_step:
  assumes o: "c_open c" and k: "k \<le> 6" and q: "quiet_event ev"
    and s: "client_step (quiet_sent CCalling timerAB.after c k) d ev c'"
  shows "k < 6 \<and> c' = quiet_sent CCalling timerAB.after c (Suc k) \<or> k = 6 \<and> c' = quiet_end timerAB.after c 6"
proof -
  let ?c = "quiet_sent CCalling timerAB.after c k"
  have en: "client_enabled d ev ?c" "ev \<noteq> CDestroy" "client_run d ev ?c = Inr c'" using s by auto
  then consider "ev = CRetransmit" "d = fst (timerAB.after k)" "d \<le> snd (timerAB.after k)"
    | "ev = CTimeout" "d = snd (timerAB.after k)" "d \<le> fst (timerAB.after k)"
    using o q by (auto simp: client_enabled_def quiet_sent_def c_channels_def c_open_def quiet_event_def
        split: client_event.splits option.splits)
  then show ?thesis
  proof cases
    case 1
    then have "k < 6" using timerAB_race [OF k] by simp
    moreover have "c' = quiet_sent CCalling timerAB.after c (Suc k)"
      using en(3) 1 by (cases c) (auto simp: client_run_def client_controller_def quiet_sent_def c_do_def c_goto_def
          timerAB.after_Suc fire_times_Suc add.assoc)
    ultimately show ?thesis by blast
  next
    case 2
    then have k6: "k = 6" using timerAB_race [OF k] by simp
    have "d = 500" using 2 k6 timerAB_table(7) by simp
    then have "c' = quiet_end timerAB.after c 6"
      using en(3) 2 k6 o timerAB_times by (cases c) (auto simp: client_run_def client_controller_def quiet_sent_def quiet_end_def
          c_goto_def client_controllerTerminated_def c_destroy_and_return_def client_Destroy_def c_do_def
          c_open_def Let_def T1_def split: if_splits)
    then show ?thesis using k6 by blast
  qed
qed

lemma quiet_trying_step:
  assumes o: "c_open c" and k: "k \<le> 10" and q: "quiet_event ev"
    and s: "client_step (quiet_sent CTrying timerEF.after c k) d ev c'"
  shows "k < 10 \<and> c' = quiet_sent CTrying timerEF.after c (Suc k) \<or> k = 10 \<and> c' = quiet_end timerEF.after c 10"
proof -
  let ?c = "quiet_sent CTrying timerEF.after c k"
  have en: "client_enabled d ev ?c" "ev \<noteq> CDestroy" "client_run d ev ?c = Inr c'" using s by auto
  then consider "ev = CRetransmit" "d = fst (timerEF.after k)" "d \<le> snd (timerEF.after k)"
    | "ev = CTimeout" "d = snd (timerEF.after k)" "d \<le> fst (timerEF.after k)"
    using o q by (auto simp: client_enabled_def quiet_sent_def c_channels_def c_open_def quiet_event_def
        split: client_event.splits option.splits)
  then show ?thesis
  proof cases
    case 1
    then have "k < 10" using timerEF_race [OF k] by simp
    moreover have "c' = quiet_sent CTrying timerEF.after c (Suc k)"
      using en(3) 1 by (cases c) (auto simp: client_run_def client_controller_def quiet_sent_def c_do_def c_goto_def
          timerEF.after_Suc fire_times_Suc add.assoc)
    ultimately show ?thesis by blast
  next
    case 2
    then have k10: "k = 10" using timerEF_race [OF k] by simp
    have "d = 500" using 2 k10 timerEF_table(11) by simp
    then have "c' = quiet_end timerEF.after c 10"
      using en(3) 2 k10 o timerEF_times by (cases c) (auto simp: client_run_def client_controller_def quiet_sent_def quiet_end_def
          c_goto_def client_controllerTerminated_def c_destroy_and_return_def client_Destroy_def c_do_def
          c_open_def Let_def T1_def split: if_splits)
    then show ?thesis using k10 by blast
  qed
qed

lemma quiet_calling_reach:
  assumes o: "c_open c" and r: "client_quiet (quiet_sent CCalling timerAB.after c 0) c'"
  shows "(\<exists>k \<le> 6. c' = quiet_sent CCalling timerAB.after c k) \<or> c' = quiet_end timerAB.after c 6"
  using r
proof induction
  case (step c1 ev d c2)
  then show ?case
  proof (elim disjE exE conjE)
    fix k assume "k \<le> 6" "c1 = quiet_sent CCalling timerAB.after c k"
    with step show ?thesis using quiet_calling_step [OF o, of k] by (metis Suc_leI)
  next
    assume "c1 = quiet_end timerAB.after c 6"
    with step show ?thesis by (auto simp: quiet_end_def client_enabled_def)
  qed
qed blast

lemma quiet_trying_reach:
  assumes o: "c_open c" and r: "client_quiet (quiet_sent CTrying timerEF.after c 0) c'"
  shows "(\<exists>k \<le> 10. c' = quiet_sent CTrying timerEF.after c k) \<or> c' = quiet_end timerEF.after c 10"
  using r
proof induction
  case (step c1 ev d c2)
  then show ?case
  proof (elim disjE exE conjE)
    fix k assume "k \<le> 10" "c1 = quiet_sent CTrying timerEF.after c k"
    with step show ?thesis using quiet_trying_step [OF o, of k] by (metis Suc_leI)
  next
    assume "c1 = quiet_end timerEF.after c 10"
    with step show ?thesis by (auto simp: quiet_end_def client_enabled_def)
  qed
qed blast

text \<open>The timers keep running: the timeout is reached.\<close>

lemma quiet_next:
  "client_quiet a b \<Longrightarrow> quiet_event ev \<Longrightarrow> ev \<noteq> CDestroy \<Longrightarrow> client_enabled d ev b \<Longrightarrow>
     client_run d ev b = Inr c \<Longrightarrow> client_quiet a c"
  by (rule client_quiet.step, assumption, assumption) (rule client_step.own)

lemma quiet_calling_run:
  assumes o: "c_open c" and k: "k \<le> 6"
  shows "client_quiet (quiet_sent CCalling timerAB.after c 0) (quiet_sent CCalling timerAB.after c k)"
  using k
proof (induction k)
  case (Suc k)
  let ?c = "quiet_sent CCalling timerAB.after c k"
  have r: "fst (timerAB.after k) \<le> snd (timerAB.after k)" using Suc.prems timerAB_race [of k] by simp
  have "client_enabled (fst (timerAB.after k)) CRetransmit ?c"
    using r by (simp add: client_enabled_def quiet_sent_def)
  moreover have "client_run (fst (timerAB.after k)) CRetransmit ?c = Inr (quiet_sent CCalling timerAB.after c (Suc k))"
    by (cases c) (simp add: client_run_def client_controller_def quiet_sent_def c_do_def c_goto_def
        timerAB.after_Suc fire_times_Suc add.assoc)
  moreover have "client_quiet (quiet_sent CCalling timerAB.after c 0) ?c" using Suc by simp
  ultimately show ?case
    using quiet_next [of "quiet_sent CCalling timerAB.after c 0" ?c CRetransmit] by (simp add: quiet_event_def)
qed (rule client_quiet.start)

lemma quiet_trying_run:
  assumes o: "c_open c" and k: "k \<le> 10"
  shows "client_quiet (quiet_sent CTrying timerEF.after c 0) (quiet_sent CTrying timerEF.after c k)"
  using k
proof (induction k)
  case (Suc k)
  let ?c = "quiet_sent CTrying timerEF.after c k"
  have r: "fst (timerEF.after k) \<le> snd (timerEF.after k)" using Suc.prems timerEF_race [of k] by simp
  have "client_enabled (fst (timerEF.after k)) CRetransmit ?c"
    using r by (simp add: client_enabled_def quiet_sent_def)
  moreover have "client_run (fst (timerEF.after k)) CRetransmit ?c = Inr (quiet_sent CTrying timerEF.after c (Suc k))"
    by (cases c) (simp add: client_run_def client_controller_def quiet_sent_def c_do_def c_goto_def
        timerEF.after_Suc fire_times_Suc add.assoc)
  moreover have "client_quiet (quiet_sent CTrying timerEF.after c 0) ?c" using Suc by simp
  ultimately show ?case
    using quiet_next [of "quiet_sent CTrying timerEF.after c 0" ?c CRetransmit] by (simp add: quiet_event_def)
qed (rule client_quiet.start)

lemma quiet_timeout:
  assumes o: "c_open c"
  shows "client_quiet (quiet_sent CCalling timerAB.after c 0) (quiet_end timerAB.after c 6)"
    "client_quiet (quiet_sent CTrying timerEF.after c 0) (quiet_end timerEF.after c 10)"
proof -
  let ?a = "quiet_sent CCalling timerAB.after c 6" and ?e = "quiet_sent CTrying timerEF.after c 10"
  note defs = client_run_def client_controller_def quiet_sent_def quiet_end_def c_goto_def client_controllerTerminated_def
    c_destroy_and_return_def client_Destroy_def c_do_def c_open_def Let_def T1_def
  have "client_run 500 CTimeout ?a = Inr (quiet_end timerAB.after c 6)"
    using o timerAB_times by (cases c) (auto simp: defs)
  moreover have "client_enabled 500 CTimeout ?a"
    using timerAB_table(7) by (simp add: client_enabled_def quiet_sent_def)
  ultimately show "client_quiet (quiet_sent CCalling timerAB.after c 0) (quiet_end timerAB.after c 6)"
    using quiet_calling_run [OF o, of 6] quiet_next [of "quiet_sent CCalling timerAB.after c 0" ?a CTimeout]
    by (simp add: quiet_event_def)
  have "client_run 500 CTimeout ?e = Inr (quiet_end timerEF.after c 10)"
    using o timerEF_times by (cases c) (auto simp: defs)
  moreover have "client_enabled 500 CTimeout ?e"
    using timerEF_table(11) by (simp add: client_enabled_def quiet_sent_def)
  ultimately show "client_quiet (quiet_sent CTrying timerEF.after c 0) (quiet_end timerEF.after c 10)"
    using quiet_trying_run [OF o, of 10] quiet_next [of "quiet_sent CTrying timerEF.after c 0" ?e CTimeout]
    by (simp add: quiet_event_def)
qed

section \<open>The invariant\<close>

fun is_delete :: "client_effect \<Rightarrow> bool" where
  "is_delete (DeleteClientTransaction k) = True" | "is_delete _ = False"

fun is_inform :: "client_effect \<Rightarrow> bool" where
  "is_inform (ErrorInform e) = True" | "is_inform _ = False"

definition deletes :: "client_txn \<Rightarrow> nat" where
  "deletes c = length (filter (is_delete \<circ> snd) (c_log c))"

definition informs :: "client_txn \<Rightarrow> nat" where
  "informs c = length (filter (is_inform \<circ> snd) (c_log c))"

fun pc_state :: "client_pc \<Rightarrow> transactionState" where
  "pc_state CStart = TransactionStateInit"
| "pc_state CInviteWaitTu = TransactionStateCalling"
| "pc_state (CCalling a b) = TransactionStateCalling"
| "pc_state CInviteProceeding = TransactionStateProceeding"
| "pc_state (CInviteCompleted dl) = TransactionStateCompleted"
| "pc_state CNonInviteWaitTu = TransactionStateTrying"
| "pc_state (CTrying e f) = TransactionStateProceeding"
| "pc_state (CNonInviteCompleted dl) = TransactionStateCompleted"
| "pc_state CDone = TransactionStateClosed"

definition client_alive :: "client_txn \<Rightarrow> bool" where
  "client_alive c \<longleftrightarrow> c_open c \<and> deletes c = 0 \<and> informs c = 0"

definition client_finished :: "client_txn \<Rightarrow> bool" where
  "client_finished c \<longleftrightarrow> \<not> c_resChan c \<and> c_DelClosed c \<and> c_TuClosed c \<and> deletes c = 1
     \<and> informs c = (if c_Err c \<noteq> None \<and> c_informs c then 1 else 0)"

text \<open>Whether a transaction is an INVITE transaction shows in its control point.\<close>

definition pc_invite :: "client_txn \<Rightarrow> bool" where
  "pc_invite c \<longleftrightarrow> (case c_pc c of CInviteWaitTu \<Rightarrow> c_Invite c | CNonInviteWaitTu \<Rightarrow> \<not> c_Invite c | _ \<Rightarrow> True)"

definition client_inv :: "client_txn \<Rightarrow> bool" where
  "client_inv c \<longleftrightarrow> c_State c = pc_state (c_pc c) \<and> pc_invite c
     \<and> (if c_pc c = CDone then client_finished c else client_alive c)
     \<and> (case c_pc c of CInviteCompleted dl \<Rightarrow> c_ack c \<noteq> None | _ \<Rightarrow> True)"

lemmas client_fact_defs = client_inv_def pc_invite_def client_alive_def client_finished_def c_open_def deletes_def informs_def

lemma destroy_alive:
  assumes "client_alive c" "c_State c \<noteq> TransactionStateClosed"
  shows "\<exists>c'. c_destroy_and_return c = Inr c' \<and> client_inv c'"
  using assms
  by (auto simp: c_destroy_and_return_def client_Destroy_def client_fact_defs c_do_def c_goto_def Let_def)

lemma terminated_alive:
  assumes "client_alive c" shows "\<exists>c'. client_controllerTerminated c = Inr c' \<and> client_inv c'"
  using assms destroy_alive [of "c\<lparr>c_State := TransactionStateTerminated\<rparr>"]
  by (simp add: client_controllerTerminated_def client_fact_defs)

lemma alive_do: "\<not> is_delete e \<Longrightarrow> \<not> is_inform e \<Longrightarrow> client_alive (c_do e c) = client_alive c"
  by (simp add: client_fact_defs c_do_def)

lemma c_do_fields [simp]:
  "c_State (c_do e c) = c_State c" "c_pc (c_do e c) = c_pc c" "c_ack (c_do e c) = c_ack c"
  "c_Invite (c_do e c) = c_Invite c" "c_Request (c_do e c) = c_Request c"
  by (simp_all add: c_do_def)

lemma alive_update [simp]:
  "client_alive (c\<lparr>c_State := s\<rparr>) = client_alive c" "client_alive (c\<lparr>c_Err := e\<rparr>) = client_alive c"
  "client_alive (c\<lparr>c_Request := m\<rparr>) = client_alive c" "client_alive (c\<lparr>c_ack := a\<rparr>) = client_alive c"
  "client_alive (c\<lparr>c_ProvisionalRes := a\<rparr>) = client_alive c" "client_alive (c\<lparr>c_FinalRes := a\<rparr>) = client_alive c"
  "client_alive (c\<lparr>c_now := t\<rparr>) = client_alive c" "client_alive (c_goto p c) = client_alive c"
  by (simp_all add: client_fact_defs c_goto_def)

text \<open>The ACK generation panics only on a request without a Via list.\<close>

lemma ack_runs:
  "m_Via req \<noteq> None \<Longrightarrow> \<exists>r. GenerateAckFromRequestAndResponse x y req res = Inr r"
  by (auto simp: GenerateAckFromRequestAndResponse_def Let_def split: option.split)

definition runs_to_inv :: "bool \<Rightarrow> client_txn run \<Rightarrow> bool" where
  "runs_to_inv v r \<longleftrightarrow> (case r of Inl _ \<Rightarrow> \<not> v | Inr c \<Rightarrow> client_inv c)"

lemma runs_to_inv_Inr [simp]: "runs_to_inv v (Inr c) = client_inv c"
  by (simp add: runs_to_inv_def)

lemma runs_destroy: "client_alive c \<Longrightarrow> c_State c \<noteq> TransactionStateClosed \<Longrightarrow> runs_to_inv v (c_destroy_and_return c)"
  using destroy_alive [of c] by (auto simp: runs_to_inv_def)

lemma runs_terminated: "client_alive c \<Longrightarrow> runs_to_inv v (client_controllerTerminated c)"
  using terminated_alive [of c] by (auto simp: runs_to_inv_def)

lemma runs_ack:
  assumes "client_alive c" "c_State c \<noteq> TransactionStateClosed" "v \<longrightarrow> m_Via (c_Request c) \<noteq> None"
  shows "runs_to_inv v (c_ack_final msg c)"
proof (cases "GenerateAckFromRequestAndResponse None None (c_Request c) msg")
  case (Inl e)
  then have "\<not> v" using assms(3) ack_runs [of "c_Request c"] by (metis sum.distinct(1))
  then show ?thesis using Inl by (simp add: c_ack_final_def runs_to_inv_def)
next
  case (Inr r)
  show ?thesis
  proof (cases r)
    case (Inl e)
    then show ?thesis using Inr assms by (simp add: c_ack_final_def runs_destroy)
  next
    case (Inr a)
    then show ?thesis using \<open>GenerateAckFromRequestAndResponse None None (c_Request c) msg = Inr r\<close> assms
      by (simp add: c_ack_final_def inviteControllerCompleted_enter_def c_transmit_ack_def c_do_def
          c_goto_def client_fact_defs)
  qed
qed

lemma inv_goto:
  "client_alive c \<Longrightarrow> c_State c = pc_state p \<Longrightarrow> p \<noteq> CDone \<Longrightarrow> (\<forall>dl. p \<noteq> CInviteCompleted dl) \<Longrightarrow> pc_invite (c_goto p c) \<Longrightarrow>
     client_inv (c_goto p c)"
  by (simp add: client_inv_def c_goto_def client_alive_def c_open_def deletes_def informs_def split: client_pc.split)

lemma state_not_closed: "client_inv c \<Longrightarrow> c_pc c \<noteq> CDone \<Longrightarrow> c_State c \<noteq> TransactionStateClosed"
  by (cases "c_pc c") (auto simp: client_inv_def)

lemma inv_same:
  "client_inv c \<Longrightarrow> c_pc c \<noteq> CDone \<Longrightarrow> client_alive c' \<Longrightarrow> c_State c' = c_State c \<Longrightarrow> c_pc c' = c_pc c \<Longrightarrow>
     c_ack c' = c_ack c \<Longrightarrow> c_Invite c' = c_Invite c \<Longrightarrow> client_inv c'"
  by (auto simp: client_inv_def pc_invite_def split: client_pc.splits)

lemma runs_submit:
  assumes "client_inv c" "c_pc c = CInviteWaitTu \<or> c_pc c = CNonInviteWaitTu"
  shows "runs_to_inv v (c_submit (Some m) c)"
proof -
  have a: "client_alive c" "c_State c \<noteq> TransactionStateClosed" "c_State c = pc_state (c_pc c)" "pc_invite c"
    using assms state_not_closed [of c] by (auto simp: client_inv_def)
  have "client_inv (c_goto (CCalling TimerA TimerB) (c_do (Transmit m) (c\<lparr>c_Request := m\<rparr>)))" if "c_Invite c"
    using a assms that by (intro inv_goto) (auto simp: alive_do pc_invite_def c_goto_def)
  moreover have "client_inv (nonInviteControllerProceeding_enter (c_do (Transmit m) (c\<lparr>c_Request := m\<rparr>)))"
    using a unfolding nonInviteControllerProceeding_enter_def by (intro inv_goto) (auto simp: alive_do pc_invite_def c_goto_def)
  ultimately show ?thesis
    using a by (auto simp: c_submit_def Let_def intro: runs_destroy)
qed

lemma runs_calling_response:
  assumes "client_inv c" "c_pc c = CCalling a b" "v \<longrightarrow> m_Via (c_Request c) \<noteq> None"
  shows "runs_to_inv v (c_calling_response m c)"
proof -
  have al: "client_alive c" "c_State c \<noteq> TransactionStateClosed"
    using assms state_not_closed [of c] by (auto simp: client_inv_def)
  have "client_inv (inviteControllerProceeding_enter (c\<lparr>c_ProvisionalRes := Some m\<rparr>))"
    using al unfolding inviteControllerProceeding_enter_def by (intro inv_goto) (auto simp: pc_invite_def c_goto_def)
  then show ?thesis
    using al assms by (auto simp: c_calling_response_def Let_def intro!: runs_destroy runs_terminated runs_ack)
qed

lemma runs_proceeding_response:
  assumes "client_inv c" "c_pc c = CInviteProceeding" "v \<longrightarrow> m_Via (c_Request c) \<noteq> None"
  shows "runs_to_inv v (c_proceeding_response (Some m) c)"
proof -
  have al: "client_alive c" "c_State c \<noteq> TransactionStateClosed"
    using assms state_not_closed [of c] by (auto simp: client_inv_def)
  have "client_inv (c\<lparr>c_ProvisionalRes := Some m\<rparr>)"
    using al assms by (intro inv_same [OF assms(1)]) auto
  then show ?thesis
    using al assms by (auto simp: c_proceeding_response_def Let_def intro!: runs_destroy runs_terminated runs_ack)
qed

lemma runs_trying_response:
  assumes "client_inv c" "c_pc c = CTrying e f"
  shows "runs_to_inv v (c_trying_response m c)"
proof -
  have al: "client_alive c" "c_State c \<noteq> TransactionStateClosed"
    using assms state_not_closed [of c] by (auto simp: client_inv_def)
  have "client_inv (nonInviteControllerProceeding_enter (c\<lparr>c_ProvisionalRes := Some m\<rparr>))"
    using al unfolding nonInviteControllerProceeding_enter_def by (intro inv_goto) (auto simp: pc_invite_def c_goto_def)
  moreover have "client_inv (nonInviteControllerCompleted_enter (c'\<lparr>c_FinalRes := Some m\<rparr>))" if "client_alive c'" for c'
    using that unfolding nonInviteControllerCompleted_enter_def by (intro inv_goto) (auto simp: pc_invite_def c_goto_def)
  ultimately show ?thesis
    using al by (auto simp: c_trying_response_def Let_def intro!: runs_destroy)
qed

lemma runs_transmit_ack:
  assumes "client_inv c" "c_pc c = CInviteCompleted dl" shows "runs_to_inv v (c_transmit_ack c)"
proof -
  obtain a where a: "c_ack c = Some a" using assms by (auto simp: client_inv_def)
  have "client_inv (c_do (Transmit a) c)"
    using assms by (intro inv_same [OF assms(1)]) (auto simp: alive_do client_inv_def)
  then show ?thesis by (simp add: c_transmit_ack_def a)
qed

lemma controller_inv:
  assumes i: "client_inv c" "c_pc c \<noteq> CDone" and v: "v \<longrightarrow> m_Via (c_Request c) \<noteq> None"
    and e: "ev \<notin> {CDel, CRes None, CTu None, CDestroy}"
  shows "runs_to_inv v (client_controller ev c)"
proof -
  have al: "client_alive c" "c_State c = pc_state (c_pc c)" using i by (auto simp: client_inv_def)
  have same: "client_inv (c\<lparr>c_Err := x\<rparr>)" for x using i al by (intro inv_same [OF i(1)]) auto
  show ?thesis
  proof (cases ev)
    case CGo
    have "client_inv (c_goto CInviteWaitTu (c\<lparr>c_State := TransactionStateCalling\<rparr>))" if "c_Invite c"
      using al that by (intro inv_goto) (simp_all add: pc_invite_def c_goto_def)
    moreover have "client_inv (c_goto CNonInviteWaitTu (c\<lparr>c_State := TransactionStateTrying\<rparr>))" if "\<not> c_Invite c"
      using al that by (intro inv_goto) (simp_all add: pc_invite_def c_goto_def)
    ultimately show ?thesis using i CGo by (auto simp: client_controller_def split: client_pc.split)
  next
    case (CTu m)
    then obtain msg where "m = Some msg" using e by (cases m) auto
    then show ?thesis
      using i CTu runs_submit [of c v msg] by (auto simp: client_controller_def split: client_pc.splits)
  next
    case (CRes m)
    then obtain msg where "m = Some msg" using e by (cases m) auto
    then show ?thesis
      using i CRes v runs_calling_response [OF i(1) _ v, of _ _ msg] runs_proceeding_response [OF i(1) _ v, of msg]
        runs_trying_response [OF i(1), of _ _ v msg] runs_transmit_ack [OF i(1)]
      by (auto simp: client_controller_def split: client_pc.split)
  next
    case CRetransmit
    have "client_inv (c_goto (CCalling a b) (c_do (Transmit (c_Request c)) c))" if "c_pc c = CCalling a' b'" for a b a' b'
      using al that by (intro inv_goto) (auto simp: alive_do pc_invite_def c_goto_def)
    moreover have "client_inv (c_goto (CTrying a b) (c_do (Transmit (c_Request c)) c))" if "c_pc c = CTrying a' b'" for a b a' b'
      using al that by (intro inv_goto) (auto simp: alive_do pc_invite_def c_goto_def)
    ultimately show ?thesis using i CRetransmit by (auto simp: client_controller_def split: client_pc.split)
  next
    case CTimeout
    then show ?thesis using i al by (auto simp: client_controller_def intro!: runs_terminated split: client_pc.split)
  next
    case CLinger
    then show ?thesis using i al by (auto simp: client_controller_def intro!: runs_terminated split: client_pc.split)
  qed (use e in auto)
qed

lemma enabled_alive:
  assumes "client_inv c" "client_enabled d ev c" "ev \<noteq> CDestroy"
  shows "c_pc c \<noteq> CDone \<and> ev \<notin> {CDel, CRes None, CTu None, CDestroy}"
proof -
  have "c_pc c \<noteq> CDone" using assms by (auto simp: client_enabled_def)
  then have "c_open c" using assms(1) by (simp add: client_inv_def client_alive_def)
  then show ?thesis
    using assms by (auto simp: client_enabled_def c_channels_def c_open_def split: client_pc.splits)
qed

lemma run_inv:
  assumes i: "client_inv c" and e: "client_enabled d ev c" "ev \<noteq> CDestroy"
    and v: "v \<longrightarrow> m_Via (c_Request c) \<noteq> None"
  shows "runs_to_inv v (client_run d ev c)"
proof -
  note en = enabled_alive [OF i(1) e]
  have al: "client_alive c" using i en by (simp add: client_inv_def)
  let ?c = "c\<lparr>c_now := c_now c + d\<rparr>"
  have 1: "client_inv ?c" using i al en by (intro inv_same [OF i(1)]) auto
  have 2: "client_inv (c_do (HandleInTransaction m) ?c)" for m
    using al en by (intro inv_same [OF i(1)]) (auto simp: alive_do)
  have "runs_to_inv v (client_controller ev ?c)" "runs_to_inv v (client_controller ev (c_do (HandleInTransaction m) ?c))" for m
    using controller_inv [OF 1, of v] controller_inv [OF 2, of _ v] en v by auto
  then show ?thesis using e by (auto simp: client_run_def Let_def split: client_event.split option.split)
qed

lemma step_inv: "client_inv c \<Longrightarrow> client_step c d ev c' \<Longrightarrow> client_inv c'"
  using run_inv [of c d ev False] by (auto simp: runs_to_inv_def)

lemma new_inv: "client_inv (newClientTransaction isInvite key msg f)"
  by (simp add: client_fact_defs newClientTransaction_def)

lemma reach_inv: "client_reach c0 c \<Longrightarrow> client_inv c0 \<Longrightarrow> client_inv c"
proof (induction rule: client_reach.induct)
  case (step c d ev c')
  then show ?case by (intro step_inv [OF _ step.hyps(2)])
qed

end
