(* ===== verification/ClientTxn_End.thy ===== *)
theory ClientTxn_End
  imports ClientTxn_Facts
begin

text \<open>Why a client transaction comes to an end: a measure that every step without a response decreases.\<close>

text \<open>
  What is left of a transaction without a response: the time to its timeout while it sends,
  and the number of control points it can still go through otherwise.
\<close>

definition client_left :: "client_txn \<Rightarrow> nat" where
  "client_left c =
     (case c_pc c of
        CStart \<Rightarrow> TimerB + TimerF + 3
      | CInviteWaitTu \<Rightarrow> TimerB + 2
      | CNonInviteWaitTu \<Rightarrow> TimerF + 2
      | CCalling a b \<Rightarrow> b + 1
      | CTrying e f \<Rightarrow> f + 1
      | CDone \<Rightarrow> 0
      | _ \<Rightarrow> 1)"

text \<open>The waiting times are positive, and no deadline has passed.\<close>

definition timers_ok :: "client_txn \<Rightarrow> bool" where
  "timers_ok c =
     (case c_pc c of
        CCalling a b \<Rightarrow> 0 < a
      | CTrying e f \<Rightarrow> 0 < e
      | CInviteCompleted dl \<Rightarrow> c_now c \<le> dl
      | CNonInviteCompleted dl \<Rightarrow> c_now c \<le> dl
      | _ \<Rightarrow> True)"

lemma destroy_done: "c_destroy_and_return c = Inr c' \<Longrightarrow> c_pc c' = CDone"
  by (auto simp: c_destroy_and_return_def c_goto_def)

lemma terminated_done: "client_controllerTerminated c = Inr c' \<Longrightarrow> c_pc c' = CDone"
  by (auto simp: client_controllerTerminated_def destroy_done)

lemma ack_final_pc: "c_ack_final m c = Inr c' \<Longrightarrow> c_pc c' = CDone \<or> c_pc c' = CInviteCompleted (c_now c' + TimerD)"
  by (auto simp: c_ack_final_def inviteControllerCompleted_enter_def c_transmit_ack_def deref_def c_goto_def c_do_def
      bindR_def destroy_done split: sum.splits option.splits)

lemma submit_pc:
  "c_submit m c = Inr c' \<Longrightarrow> c_pc c' = CDone \<or> c_Invite c \<and> c_pc c' = CCalling TimerA TimerB \<or>
     \<not> c_Invite c \<and> c_pc c' = CTrying TimerE TimerF"
  by (cases m; auto simp: c_submit_def deref_def nonInviteControllerProceeding_enter_def c_goto_def destroy_done Let_def
      split: if_splits)

lemmas pc_facts = destroy_done terminated_done

lemma next_positive: "0 < t \<Longrightarrow> 0 < next_unbounded t" "0 < t \<Longrightarrow> 0 < next_capped t"
  by (simp_all add: next_unbounded_def next_capped_def Let_def T2_def)

lemma calling_timers:
  assumes "c_pc c = CCalling a b" and "0 < a" and "client_enabled d ev c" and "client_run d ev c = Inr c'"
  shows "timers_ok c' \<and> (quiet_event ev \<longrightarrow> ev \<noteq> CDestroy \<longrightarrow> client_left c' < client_left c)"
  using assms
  by (cases ev)
     (auto simp: client_enabled_def client_run_def client_controller_def c_goto_def c_do_def timers_ok_def
       client_left_def next_positive quiet_event_def c_channels_def c_calling_response_def Let_def
       inviteControllerProceeding_enter_def client_Destroy_def
       dest!: terminated_done destroy_done ack_final_pc split: if_splits option.splits)

lemma trying_timers:
  assumes "c_pc c = CTrying e f" and "0 < e" and "client_enabled d ev c" and "ev \<noteq> CDestroy" and "client_run d ev c = Inr c'"
  shows "timers_ok c' \<and> (quiet_event ev \<longrightarrow> client_left c' < client_left c)"
  using assms
  by (cases ev)
     (auto simp: client_enabled_def client_run_def client_controller_def c_goto_def c_do_def timers_ok_def
       client_left_def next_positive quiet_event_def c_channels_def c_trying_response_def Let_def
       nonInviteControllerProceeding_enter_def nonInviteControllerCompleted_enter_def timer_defs
       dest!: terminated_done destroy_done ack_final_pc split: if_splits option.splits)

lemma submit_timers:
  assumes "c_pc c = CInviteWaitTu \<and> c_Invite c \<or> c_pc c = CNonInviteWaitTu \<and> \<not> c_Invite c"
    and "client_enabled d ev c" and "ev \<noteq> CDestroy" and "client_run d ev c = Inr c'"
  shows "timers_ok c' \<and> client_left c' < client_left c"
proof (cases ev)
  case (CTu m)
  then have "c_submit m (c\<lparr>c_now := c_now c + d\<rparr>) = Inr c'"
    using assms(1,4) by (auto simp: client_run_def client_controller_def)
  then show ?thesis
    using assms(1) submit_pc [of m "c\<lparr>c_now := c_now c + d\<rparr>" c']
    by (auto simp: timers_ok_def client_left_def timer_defs)
qed (use assms in \<open>auto simp: client_enabled_def client_run_def client_controller_def c_goto_def timers_ok_def
    client_left_def\<close>)

lemma other_timers:
  assumes "c_pc c = CStart \<or> c_pc c = CInviteProceeding \<or> c_pc c = CInviteCompleted dl \<or> c_pc c = CNonInviteCompleted dl"
    and "timers_ok c" and "client_enabled d ev c" and "ev \<noteq> CDestroy" and "client_run d ev c = Inr c'"
  shows "timers_ok c' \<and> (quiet_event ev \<longrightarrow> client_left c' < client_left c)"
  using assms
  by (cases ev)
     (auto simp: client_enabled_def client_run_def client_controller_def c_goto_def c_do_def timers_ok_def
       client_left_def quiet_event_def c_channels_def c_proceeding_response_def Let_def c_transmit_ack_def deref_def
       timer_defs dest!: terminated_done destroy_done ack_final_pc split: if_splits option.splits)

lemma step_timers:
  assumes "client_inv c" and "timers_ok c" and "client_step c d ev c'"
  shows "timers_ok c' \<and> (quiet_event ev \<longrightarrow> client_left c' < client_left c)"
proof -
  have s: "client_enabled d ev c" "ev \<noteq> CDestroy" "client_run d ev c = Inr c'" using assms(3) by auto
  show ?thesis
  proof (cases "c_pc c")
    case (CCalling a b)
    then show ?thesis using calling_timers [OF CCalling _ s(1,3)] assms(2) s(2) by (simp add: timers_ok_def)
  next
    case (CTrying e f)
    then show ?thesis using trying_timers [OF CTrying _ s] assms(2) by (simp add: timers_ok_def)
  next
    case CInviteWaitTu
    then show ?thesis using submit_timers [OF _ s] assms(1) by (simp add: client_inv_def pc_invite_def)
  next
    case CNonInviteWaitTu
    then show ?thesis using submit_timers [OF _ s] assms(1) by (simp add: client_inv_def pc_invite_def)
  next
    case CDone
    then show ?thesis using s by (simp add: client_enabled_def)
  qed (use other_timers [OF _ assms(2) s] in auto)
qed

lemma reach_timers:
  "client_reach (newClientTransaction i key msg f) c \<Longrightarrow> client_inv c \<and> timers_ok c"
proof (induction rule: client_reach.induct)
  case start
  show ?case using new_inv by (simp add: timers_ok_def newClientTransaction_def)
next
  case (step c d ev c')
  then show ?case using step_timers [OF _ _ step.hyps(2)] step_inv [OF _ step.hyps(2)] by simp
qed

text \<open>A transaction that waits for nobody else can go on.\<close>

lemma own_step:
  assumes "client_inv c" and "timers_ok c" and "m_Via (c_Request c) \<noteq> None"
    and "c_pc c \<notin> {CInviteWaitTu, CNonInviteWaitTu, CInviteProceeding, CDone}"
  shows "\<exists>d ev c'. quiet_event ev \<and> client_step c d ev c'"
proof -
  have "\<exists>d ev. quiet_event ev \<and> ev \<noteq> CDestroy \<and> client_enabled d ev c"
  proof (cases "c_pc c")
    case CStart
    then show ?thesis by (intro exI [of _ 0] exI [of _ CGo]) (simp add: quiet_event_def client_enabled_def)
  next
    case (CCalling a b)
    then show ?thesis
      by (intro exI [of _ "min a b"] exI [of _ "if a \<le> b then CRetransmit else CTimeout"])
        (simp add: quiet_event_def client_enabled_def)
  next
    case (CTrying e f)
    then show ?thesis
      by (intro exI [of _ "min e f"] exI [of _ "if e \<le> f then CRetransmit else CTimeout"])
        (simp add: quiet_event_def client_enabled_def)
  next
    case (CInviteCompleted dl)
    then show ?thesis using assms(2)
      by (intro exI [of _ "dl - c_now c"] exI [of _ CLinger]) (simp add: quiet_event_def client_enabled_def timers_ok_def)
  next
    case (CNonInviteCompleted dl)
    then show ?thesis using assms(2)
      by (intro exI [of _ "dl - c_now c"] exI [of _ CLinger]) (simp add: quiet_event_def client_enabled_def timers_ok_def)
  qed (use assms(4) in simp_all)
  then obtain d ev where ev: "quiet_event ev" "ev \<noteq> CDestroy" "client_enabled d ev c" by blast
  then obtain c' where "client_run d ev c = Inr c'"
    using run_inv [OF assms(1) ev(3,2), of True] assms(3) by (auto simp: runs_to_inv_def split: sum.splits)
  then show ?thesis using ev client_step.own by blast
qed

end
