(* ===== verification/ServerTxn.thy ===== *)
theory ServerTxn
  imports Transaction
begin

text \<open>
  The server transaction of \<open>src/sip/transaction.go\<close>, modelled like the client
  transaction: control points, events and steps. Its loops read responses of the
  transaction user and the ACK from \<open>TuChan\<close>; after \<open>Destroy\<close> that channel is closed and
  delivers nil. \<open>s_call\<close> and \<open>server_Handle\<close> are the calls other goroutines make under the
  mutex of the transaction.
\<close>

datatype server_pc =
    SStart
  | SInviteFirst
  | SInviteNext
  | SInviteCompleted nat nat
  | SInviteConfirmed nat
  | SNonInviteFirst
  | SNonInviteProceeding
  | SNonInviteCompleted nat
  | SDone

datatype server_effect =
    STransmit message
  | DeleteServerTransaction server_key

record server_txn =
  s_Invite :: bool
  s_State :: transactionState
  s_Err :: "protocol_error option"
  s_Mu :: bool
  s_TuClosed :: bool
  s_DelClosed :: bool
  s_Key :: server_key
  s_Request :: message
  s_ProvisionalRes :: "message option"
  s_FinalRes :: "message option"
  s_pc :: server_pc
  s_now :: nat
  s_log :: "(nat \<times> server_effect) list"

definition newServerTransaction :: "bool \<Rightarrow> server_key \<Rightarrow> message \<Rightarrow> server_txn" where
  "newServerTransaction isInvite key msg =
     \<lparr>s_Invite = isInvite, s_State = TransactionStateInit, s_Err = None, s_Mu = False,
      s_TuClosed = False, s_DelClosed = False, s_Key = key, s_Request = msg, s_ProvisionalRes = None,
      s_FinalRes = None, s_pc = SStart, s_now = 0, s_log = []\<rparr>"

definition NewServerInviteTransaction :: "server_key \<Rightarrow> message \<Rightarrow> server_txn" where
  "NewServerInviteTransaction key msg = newServerTransaction True key msg"

definition NewServerNonInviteTransaction :: "server_key \<Rightarrow> message \<Rightarrow> server_txn" where
  "NewServerNonInviteTransaction key msg = newServerTransaction False key msg"

definition s_do :: "server_effect \<Rightarrow> server_txn \<Rightarrow> server_txn" where
  "s_do e s = s\<lparr>s_log := s_log s @ [(s_now s, e)]\<rparr>"

definition s_goto :: "server_pc \<Rightarrow> server_txn \<Rightarrow> server_txn" where
  "s_goto p s = s\<lparr>s_pc := p\<rparr>"

text \<open>\<open>Destroy\<close> when the mutex is free.\<close>

definition server_Destroy :: "server_txn \<Rightarrow> server_txn run" where
  "server_Destroy s =
     (if s_State s = TransactionStateClosed then Inr (s_do (DeleteServerTransaction (s_Key s)) s)
      else if s_DelClosed s \<or> s_TuClosed s then Inl CloseOfClosedChannel
      else Inr (s_do (DeleteServerTransaction (s_Key s))
        (s\<lparr>s_State := TransactionStateClosed, s_DelClosed := True, s_TuClosed := True\<rparr>)))"

definition s_destroy_and_return :: "server_txn \<Rightarrow> server_txn run" where
  "s_destroy_and_return s = bindR (server_Destroy s) (\<lambda>s'. Inr (s_goto SDone s'))"

definition server_controllerTerminated :: "server_txn \<Rightarrow> server_txn run" where
  "server_controllerTerminated s = s_destroy_and_return (s\<lparr>s_State := TransactionStateTerminated\<rparr>)"

definition server_inviteControllerConfirmed :: "server_txn \<Rightarrow> server_txn" where
  "server_inviteControllerConfirmed s =
     s_goto (SInviteConfirmed (s_now s + TimerI)) (s\<lparr>s_State := TransactionStateConfirmed\<rparr>)"

definition server_inviteControllerCompleted :: "server_txn \<Rightarrow> server_txn" where
  "server_inviteControllerCompleted s =
     s_goto (SInviteCompleted TimerG TimerH) (s\<lparr>s_State := TransactionStateCompleted\<rparr>)"

definition server_nonInviteControllerCompleted :: "server_txn \<Rightarrow> server_txn" where
  "server_nonInviteControllerCompleted s =
     s_goto (SNonInviteCompleted (s_now s + TimerJ)) (s\<lparr>s_State := TransactionStateCompleted\<rparr>)"

definition server_nonInviteControllerProceeding :: "server_txn \<Rightarrow> server_txn" where
  "server_nonInviteControllerProceeding s =
     s_goto SNonInviteProceeding (s\<lparr>s_State := TransactionStateProceeding\<rparr>)"

definition s_provisional :: "message \<Rightarrow> server_txn \<Rightarrow> server_txn" where
  "s_provisional msg s = s_do (STransmit msg) (s\<lparr>s_ProvisionalRes := Some msg\<rparr>)"

definition s_final :: "message \<Rightarrow> server_txn \<Rightarrow> server_txn" where
  "s_final msg s = s_do (STransmit msg) (s\<lparr>s_FinalRes := Some msg\<rparr>)"

text \<open>
  The first select of the INVITE controller: a response of the user, or 200 ms without one,
  after which the controller answers 100 itself. A response outside 101 to 699 is dropped
  and the second loop entered.
\<close>

definition s_invite_first :: "message \<Rightarrow> server_txn \<Rightarrow> server_txn run" where
  "s_invite_first msg s =
     (let code = m_StatusCode msg in
      if \<not> m_Response msg then s_destroy_and_return (s\<lparr>s_Err := Some ErrTransactionUnexpectedMessage\<rparr>)
      else if 100 < code \<and> code < 200 then Inr (s_goto SInviteNext (s_provisional msg s))
      else if 200 \<le> code \<and> code < 300 then server_controllerTerminated (s_final msg s)
      else if 300 \<le> code \<and> code < 700 then Inr (server_inviteControllerCompleted (s_final msg s))
      else Inr (s_goto SInviteNext s))"

text \<open>
  The second loop. A final response is taken up to 600 only; every other response, one of
  100 and those from 601 to 699 among them, ends the controller without closing anything.
\<close>

definition s_invite_next :: "message \<Rightarrow> server_txn \<Rightarrow> server_txn run" where
  "s_invite_next msg s =
     (let code = m_StatusCode msg in
      if \<not> m_Response msg then s_destroy_and_return s
      else if 100 < code \<and> code < 200 then Inr (s_provisional msg s)
      else if 200 \<le> code \<and> code < 300 then server_controllerTerminated (s_final msg s)
      else if 300 \<le> code \<and> code \<le> 600 then Inr (server_inviteControllerCompleted (s_final msg s))
      else Inr (s_goto SDone s))"

text \<open>The non-INVITE controller sends whatever response it gets before it looks at the code.\<close>

definition s_noninvite_first :: "message \<Rightarrow> server_txn \<Rightarrow> server_txn run" where
  "s_noninvite_first msg s =
     (let code = m_StatusCode msg in
      if \<not> m_Response msg then s_destroy_and_return (s\<lparr>s_Err := Some ErrTransactionUnexpectedMessage\<rparr>)
      else
        (let s1 = s_do (STransmit msg) s in
         if 100 < code \<and> code < 200
         then Inr (server_nonInviteControllerProceeding (s1\<lparr>s_ProvisionalRes := Some msg\<rparr>))
         else if 200 \<le> code \<and> code < 700
         then Inr (server_nonInviteControllerCompleted (s1\<lparr>s_FinalRes := Some msg\<rparr>))
         else Inr (s_goto SDone s1)))"

definition s_noninvite_proceeding :: "message \<Rightarrow> server_txn \<Rightarrow> server_txn run" where
  "s_noninvite_proceeding msg s =
     (let code = m_StatusCode msg in
      if \<not> m_Response msg then s_destroy_and_return (s\<lparr>s_Err := Some ErrTransactionUnexpectedMessage\<rparr>)
      else
        (let s1 = s_do (STransmit msg) s in
         if 100 < code \<and> code < 200 then Inr (s1\<lparr>s_ProvisionalRes := Some msg\<rparr>)
         else if 200 \<le> code \<and> code < 700
         then Inr (server_nonInviteControllerCompleted (s1\<lparr>s_FinalRes := Some msg\<rparr>))
         else Inr s1))"

definition is_ack :: "message \<Rightarrow> bool" where
  "is_ack msg \<longleftrightarrow> m_Request msg \<and> m_Method msg = ''ACK''"

datatype server_event =
    SGo
  | SDel
  | STu "message option"
  | STrying
  | SRetransmit
  | STimeout
  | SLinger
  | SDestroy

definition server_controller :: "server_event \<Rightarrow> server_txn \<Rightarrow> server_txn run" where
  "server_controller ev s =
     (case (s_pc s, ev) of
        (SStart, SGo) \<Rightarrow>
          Inr (if s_Invite s then s_goto SInviteFirst (s\<lparr>s_State := TransactionStateProceeding\<rparr>)
               else s_goto SNonInviteFirst (s\<lparr>s_State := TransactionStateTrying\<rparr>))
      | (SStart, _) \<Rightarrow> Inr s
      | (SDone, _) \<Rightarrow> Inr s
      | (SInviteCompleted g h, SDel) \<Rightarrow> Inr s
      | (_, SDel) \<Rightarrow> Inr (s_goto SDone s)
      | (SInviteFirst, STrying) \<Rightarrow>
          bindR (GenerateResponseFromRequest (s_Request s)) (\<lambda>provRes.
            Inr (s_goto SInviteNext (s_provisional provRes s)))
      | (SInviteFirst, STu (Some msg)) \<Rightarrow> s_invite_first msg s
      | (SInviteNext, STu (Some msg)) \<Rightarrow> s_invite_next msg s
      | (SInviteCompleted g h, SRetransmit) \<Rightarrow>
          bindR (deref (s_FinalRes s)) (\<lambda>f.
            Inr (s_goto (SInviteCompleted (next_capped g) (h - g)) (s_do (STransmit f) s)))
      | (SInviteCompleted g h, STimeout) \<Rightarrow> server_controllerTerminated s
      | (SInviteCompleted g h, STu (Some msg)) \<Rightarrow>
          Inr (if is_ack msg then server_inviteControllerConfirmed s else s)
      | (SInviteConfirmed dl, STu (Some msg)) \<Rightarrow> Inr s
      | (SInviteConfirmed dl, SLinger) \<Rightarrow> server_controllerTerminated s
      | (SNonInviteFirst, STu (Some msg)) \<Rightarrow> s_noninvite_first msg s
      | (SNonInviteProceeding, STu (Some msg)) \<Rightarrow> s_noninvite_proceeding msg s
      | (SNonInviteCompleted dl, SLinger) \<Rightarrow> server_controllerTerminated s
      | (SNonInviteCompleted dl, STu _) \<Rightarrow> Inr s
      | (_, STu None) \<Rightarrow> Inr (s_goto SDone s)
      | _ \<Rightarrow> Inr s)"

definition server_run :: "nat \<Rightarrow> server_event \<Rightarrow> server_txn \<Rightarrow> server_txn run" where
  "server_run d ev s0 =
     (let s = s0\<lparr>s_now := s_now s0 + d\<rparr> in
      case ev of SDestroy \<Rightarrow> server_Destroy s | _ \<Rightarrow> server_controller ev s)"

text \<open>
  Which event the select can take after \<open>d\<close> milliseconds. A message comes from a call that
  holds the mutex and hands it over (\<open>s_call\<close>, \<open>server_Handle\<close>).
\<close>

definition s_tu :: "server_event \<Rightarrow> server_txn \<Rightarrow> bool" where
  "s_tu ev s \<longleftrightarrow> (case ev of STu None \<Rightarrow> s_TuClosed s | STu (Some _) \<Rightarrow> \<not> s_TuClosed s | _ \<Rightarrow> False)"

definition server_enabled :: "nat \<Rightarrow> server_event \<Rightarrow> server_txn \<Rightarrow> bool" where
  "server_enabled d ev s \<longleftrightarrow>
     ev = SDestroy \<or>
     (case s_pc s of
        SStart \<Rightarrow> ev = SGo
      | SInviteFirst \<Rightarrow> d \<le> Timer100Try \<and>
          (case ev of SDel \<Rightarrow> s_DelClosed s | STrying \<Rightarrow> d = Timer100Try | _ \<Rightarrow> s_tu ev s)
      | SInviteNext \<Rightarrow> (case ev of SDel \<Rightarrow> s_DelClosed s | _ \<Rightarrow> s_tu ev s)
      | SInviteCompleted g h \<Rightarrow>
          d \<le> g \<and> d \<le> h \<and> (case ev of SRetransmit \<Rightarrow> d = g | STimeout \<Rightarrow> d = h | _ \<Rightarrow> s_tu ev s)
      | SInviteConfirmed dl \<Rightarrow> s_now s + d \<le> dl \<and>
          (case ev of SDel \<Rightarrow> s_DelClosed s | SLinger \<Rightarrow> s_now s + d = dl | _ \<Rightarrow> s_tu ev s)
      | SNonInviteFirst \<Rightarrow> (case ev of SDel \<Rightarrow> s_DelClosed s | _ \<Rightarrow> s_tu ev s)
      | SNonInviteProceeding \<Rightarrow> (case ev of SDel \<Rightarrow> s_DelClosed s | _ \<Rightarrow> s_tu ev s)
      | SNonInviteCompleted dl \<Rightarrow> s_now s + d \<le> dl \<and>
          (case ev of SDel \<Rightarrow> s_DelClosed s | SLinger \<Rightarrow> s_now s + d = dl | _ \<Rightarrow> False)
      | SDone \<Rightarrow> False)"

text \<open>The transaction on its own, with nobody calling \<open>Destroy\<close> from outside.\<close>

inductive server_step :: "server_txn \<Rightarrow> nat \<Rightarrow> server_event \<Rightarrow> server_txn \<Rightarrow> bool" where
  own: "server_enabled d ev s \<Longrightarrow> ev \<noteq> SDestroy \<Longrightarrow> server_run d ev s = Inr s' \<Longrightarrow> server_step s d ev s'"

inductive server_reach :: "server_txn \<Rightarrow> server_txn \<Rightarrow> bool" for s0 where
  start: "server_reach s0 s0"
| step: "server_reach s0 s \<Longrightarrow> server_step s d ev s' \<Longrightarrow> server_reach s0 s'"

inductive_cases server_stepE [elim!]: "server_step s d ev s'"

section \<open>Calls from other goroutines\<close>

text \<open>\<open>WriteMessage\<close> of the base transaction on the fields of a server transaction.\<close>

definition s_call :: "message \<Rightarrow> server_txn \<Rightarrow> server_txn call run" where
  "s_call msg s =
     bindR (base_WriteMessage msg
         \<lparr>bt_Mu = s_Mu s, bt_State = s_State s, bt_TuClosed = s_TuClosed s, bt_DelClosed = s_DelClosed s\<rparr>)
       (\<lambda>r. Inr (case r of
            Returns b \<Rightarrow> Returns (s\<lparr>s_Mu := bt_Mu b\<rparr>)
          | WaitsForMutex b \<Rightarrow> WaitsForMutex (s\<lparr>s_Mu := bt_Mu b\<rparr>)
          | HandsOver m b \<Rightarrow> HandsOver m (s\<lparr>s_Mu := bt_Mu b\<rparr>)))"

text \<open>
  \<open>Handle\<close> takes the mutex and keeps it to its end. For a request that is not an ACK it
  calls \<open>WriteMessage\<close> with the last response, which takes the same mutex.
\<close>

definition server_Handle :: "message \<Rightarrow> server_txn \<Rightarrow> server_txn call run" where
  "server_Handle req s =
     (if s_Mu s then Inr (WaitsForMutex s)
      else
        (let s1 = s\<lparr>s_Mu := True\<rparr>;
             unlock = (\<lambda>r. case r of Returns s' \<Rightarrow> Returns (s'\<lparr>s_Mu := False\<rparr>) | r' \<Rightarrow> r')
         in if m_Method req = ''ACK'' then
              (if s_TuClosed s1 then Inl SendOnClosedChannel else Inr (HandsOver req s1))
            else (case s_FinalRes s1 of
                Some f \<Rightarrow> bindR (s_call f s1) (\<lambda>r. Inr (unlock r))
              | None \<Rightarrow>
                  (case s_ProvisionalRes s1 of
                     Some p \<Rightarrow> bindR (s_call p s1) (\<lambda>r. Inr (unlock r))
                   | None \<Rightarrow> Inr (unlock (Returns s1))))))"

end
