(* ===== verification/ServerTxn_Facts.thy ===== *)
theory ServerTxn_Facts
  imports ServerTxn
begin

text \<open>
  The invariant of a server transaction that nobody destroys from outside, the schedule of
  its final response, and what its calls do to the mutex.
\<close>

section \<open>The invariant\<close>

fun is_s_delete :: "server_effect \<Rightarrow> bool" where
  "is_s_delete (DeleteServerTransaction k) = True" | "is_s_delete _ = False"

definition s_deletes :: "server_txn \<Rightarrow> nat" where
  "s_deletes s = length (filter (is_s_delete \<circ> snd) (s_log s))"

fun spc_state :: "server_pc \<Rightarrow> transactionState" where
  "spc_state SStart = TransactionStateInit"
| "spc_state SInviteFirst = TransactionStateProceeding"
| "spc_state SInviteNext = TransactionStateProceeding"
| "spc_state (SInviteCompleted g h) = TransactionStateCompleted"
| "spc_state (SInviteConfirmed dl) = TransactionStateConfirmed"
| "spc_state SNonInviteFirst = TransactionStateTrying"
| "spc_state SNonInviteProceeding = TransactionStateProceeding"
| "spc_state (SNonInviteCompleted dl) = TransactionStateCompleted"
| "spc_state SDone = TransactionStateClosed"

definition s_alive :: "server_txn \<Rightarrow> bool" where
  "s_alive s \<longleftrightarrow> \<not> s_DelClosed s \<and> \<not> s_TuClosed s \<and> s_deletes s = 0 \<and> s_State s \<noteq> TransactionStateClosed"

definition s_finished :: "server_txn \<Rightarrow> bool" where
  "s_finished s \<longleftrightarrow> s_DelClosed s \<and> s_TuClosed s \<and> s_deletes s = 1 \<and> s_State s = TransactionStateClosed"

text \<open>A controller that ended without closing its transaction: the entry of the table stays.\<close>

definition s_abandoned :: "server_txn \<Rightarrow> bool" where
  "s_abandoned s \<longleftrightarrow> s_alive s \<and> s_FinalRes s = None"

definition server_inv :: "server_txn \<Rightarrow> bool" where
  "server_inv s \<longleftrightarrow>
     (if s_pc s = SDone then s_finished s \<or> s_abandoned s
      else s_alive s \<and> s_State s = spc_state (s_pc s))
     \<and> (s_State s = TransactionStateCompleted \<or> s_State s = TransactionStateConfirmed \<longrightarrow> s_FinalRes s \<noteq> None)
     \<and> (s_pc s \<in> {SStart, SInviteFirst, SInviteNext, SNonInviteFirst, SNonInviteProceeding} \<longrightarrow> s_FinalRes s = None)"

lemmas server_fact_defs = server_inv_def s_alive_def s_finished_def s_abandoned_def s_deletes_def

definition runs_to_sinv :: "bool \<Rightarrow> server_txn run \<Rightarrow> bool" where
  "runs_to_sinv v r \<longleftrightarrow> (case r of Inl _ \<Rightarrow> \<not> v | Inr s \<Rightarrow> server_inv s)"

lemma runs_to_sinv_Inr [simp]: "runs_to_sinv v (Inr s) = server_inv s"
  by (simp add: runs_to_sinv_def)

lemma runs_s_destroy: "s_alive s \<Longrightarrow> runs_to_sinv v (s_destroy_and_return s)"
  by (simp add: s_destroy_and_return_def server_Destroy_def server_fact_defs s_do_def s_goto_def)

lemma runs_s_terminated: "s_alive s \<Longrightarrow> runs_to_sinv v (server_controllerTerminated s)"
  by (simp add: server_controllerTerminated_def s_destroy_and_return_def server_Destroy_def server_fact_defs
      s_do_def s_goto_def)

lemma s_do_fields [simp]:
  "s_State (s_do e s) = s_State s" "s_pc (s_do e s) = s_pc s" "s_FinalRes (s_do e s) = s_FinalRes s"
  "s_Request (s_do e s) = s_Request s" "s_Invite (s_do e s) = s_Invite s"
  by (simp_all add: s_do_def)

lemma s_goto_fields [simp]:
  "s_State (s_goto p s) = s_State s" "s_pc (s_goto p s) = p" "s_FinalRes (s_goto p s) = s_FinalRes s"
  by (simp_all add: s_goto_def)

lemma s_alive_update [simp]:
  "s_alive (s_do (STransmit m) s) = s_alive s" "s_alive (s_goto p s) = s_alive s"
  "s_alive (s\<lparr>s_ProvisionalRes := x\<rparr>) = s_alive s" "s_alive (s\<lparr>s_FinalRes := x\<rparr>) = s_alive s"
  "s_alive (s\<lparr>s_now := t\<rparr>) = s_alive s" "s_alive (s\<lparr>s_Err := e\<rparr>) = s_alive s"
  "st \<noteq> TransactionStateClosed \<Longrightarrow> s_alive s \<Longrightarrow> s_alive (s\<lparr>s_State := st\<rparr>)"
  by (simp_all add: server_fact_defs s_do_def s_goto_def)

lemmas server_enter_defs = server_inviteControllerConfirmed_def server_inviteControllerCompleted_def
  server_nonInviteControllerCompleted_def server_nonInviteControllerProceeding_def s_provisional_def s_final_def

lemma runs_invite_first:
  "server_inv s \<Longrightarrow> s_pc s = SInviteFirst \<Longrightarrow> runs_to_sinv v (s_invite_first m s)"
  by (auto simp: s_invite_first_def Let_def server_inv_def server_enter_defs intro!: runs_s_destroy runs_s_terminated)

lemma runs_invite_next:
  "server_inv s \<Longrightarrow> s_pc s = SInviteNext \<Longrightarrow> runs_to_sinv v (s_invite_next m s)"
  by (auto simp: s_invite_next_def Let_def server_inv_def server_enter_defs s_abandoned_def
      intro!: runs_s_destroy runs_s_terminated)

lemma runs_noninvite_first:
  "server_inv s \<Longrightarrow> s_pc s = SNonInviteFirst \<Longrightarrow> runs_to_sinv v (s_noninvite_first m s)"
  by (auto simp: s_noninvite_first_def Let_def server_inv_def server_enter_defs s_abandoned_def intro!: runs_s_destroy)

lemma runs_noninvite_proceeding:
  "server_inv s \<Longrightarrow> s_pc s = SNonInviteProceeding \<Longrightarrow> runs_to_sinv v (s_noninvite_proceeding m s)"
  by (auto simp: s_noninvite_proceeding_def Let_def server_inv_def server_enter_defs intro!: runs_s_destroy)

lemma runs_trying:
  assumes "server_inv s" "s_pc s = SInviteFirst" "v \<longrightarrow> m_ctx (s_Request s) \<noteq> None"
  shows "runs_to_sinv v (bindR (GenerateResponseFromRequest (s_Request s)) (\<lambda>provRes.
    Inr (s_goto SInviteNext (s_provisional provRes s))))"
  using assms
  by (auto simp: GenerateResponseFromRequest_def Let_def server_inv_def server_enter_defs runs_to_sinv_def
      split: option.split)

lemma runs_completed_retransmit:
  assumes "server_inv s" "s_pc s = SInviteCompleted g h"
  shows "runs_to_sinv v (bindR (deref (s_FinalRes s)) (\<lambda>f. Inr (s_goto (SInviteCompleted a b) (s_do (STransmit f) s))))"
  using assms by (auto simp: server_inv_def)

lemma server_controller_inv:
  assumes i: "server_inv s" and v: "v \<longrightarrow> m_ctx (s_Request s) \<noteq> None" and e: "ev \<notin> {SDel, STu None, SDestroy}"
  shows "runs_to_sinv v (server_controller ev s)"
proof -
  have al: "s_pc s \<noteq> SDone \<Longrightarrow> s_alive s" using i by (simp add: server_inv_def)
  have go: "server_inv (s_goto SInviteFirst (s\<lparr>s_State := TransactionStateProceeding\<rparr>))"
    "server_inv (s_goto SNonInviteFirst (s\<lparr>s_State := TransactionStateTrying\<rparr>))" if "s_pc s = SStart"
    using i that by (auto simp: server_inv_def)
  have conf: "server_inv (server_inviteControllerConfirmed s)" if "s_pc s = SInviteCompleted g h" for g h
    using i that by (auto simp: server_inv_def server_enter_defs)
  show ?thesis
  proof (cases ev)
    case SGo
    then show ?thesis using i go by (auto simp: server_controller_def split: server_pc.split)
  next
    case (STu m)
    then obtain msg where "m = Some msg" using e by (cases m) auto
    then show ?thesis
      using i STu conf by (auto simp: server_controller_def runs_invite_first runs_invite_next runs_noninvite_first
          runs_noninvite_proceeding split: server_pc.split)
  next
    case STrying
    then show ?thesis using i v runs_trying [OF i] by (auto simp: server_controller_def split: server_pc.split)
  next
    case SRetransmit
    then show ?thesis
      using i runs_completed_retransmit [OF i] by (auto simp: server_controller_def split: server_pc.split)
  next
    case STimeout
    then show ?thesis using i al by (auto simp: server_controller_def intro!: runs_s_terminated split: server_pc.split)
  next
    case SLinger
    then show ?thesis using i al by (auto simp: server_controller_def intro!: runs_s_terminated split: server_pc.split)
  qed (use e in auto)
qed

lemma server_enabled_alive:
  assumes "server_inv s" "server_enabled d ev s" "ev \<noteq> SDestroy"
  shows "ev \<notin> {SDel, STu None, SDestroy}"
proof -
  have "s_pc s \<noteq> SDone" using assms by (auto simp: server_enabled_def)
  then have "s_alive s" using assms(1) by (simp add: server_inv_def)
  then show ?thesis
    using assms by (auto simp: server_enabled_def s_tu_def s_alive_def split: server_pc.splits)
qed

lemma server_run_inv:
  assumes i: "server_inv s" and e: "server_enabled d ev s" "ev \<noteq> SDestroy" and v: "v \<longrightarrow> m_ctx (s_Request s) \<noteq> None"
  shows "runs_to_sinv v (server_run d ev s)"
proof -
  have "s_finished (s\<lparr>s_now := t\<rparr>) = s_finished s" "s_abandoned (s\<lparr>s_now := t\<rparr>) = s_abandoned s" for t
    by (simp_all add: s_finished_def s_abandoned_def s_deletes_def)
  then have "server_inv (s\<lparr>s_now := s_now s + d\<rparr>)" using i by (simp add: server_inv_def)
  then have "runs_to_sinv v (server_controller ev (s\<lparr>s_now := s_now s + d\<rparr>))"
    using server_enabled_alive [OF i e] v by (intro server_controller_inv) auto
  then show ?thesis using e by (auto simp: server_run_def Let_def split: server_event.split)
qed

lemma server_step_inv: "server_inv s \<Longrightarrow> server_step s d ev s' \<Longrightarrow> server_inv s'"
  using server_run_inv [of s d ev False] by (auto simp: runs_to_sinv_def)

lemma server_new_inv: "server_inv (newServerTransaction isInvite key msg)"
  by (simp add: server_fact_defs newServerTransaction_def)

lemma server_reach_inv: "server_reach s0 s \<Longrightarrow> server_inv s0 \<Longrightarrow> server_inv s"
proof (induction rule: server_reach.induct)
  case (step s d ev s')
  then show ?case by (intro server_step_inv [OF _ step.hyps(2)])
qed

section \<open>A final response without an ACK\<close>

text \<open>
  A quiet transaction in the completed state: no ACK comes (other messages of the user do not
  restart the wait in the model only when they do not come either).
\<close>

inductive server_quiet :: "server_txn \<Rightarrow> server_txn \<Rightarrow> bool" for s0 where
  start: "server_quiet s0 s0"
| step: "server_quiet s0 s \<Longrightarrow> (\<forall>m. ev \<noteq> STu (Some m)) \<Longrightarrow> server_step s d ev s' \<Longrightarrow> server_quiet s0 s'"

definition s_quiet_sent :: "message \<Rightarrow> server_txn \<Rightarrow> nat \<Rightarrow> server_txn" where
  "s_quiet_sent f s k =
     s\<lparr>s_pc := SInviteCompleted (fst (timerGH.after k)) (snd (timerGH.after k)),
       s_now := s_now s + fire_times timerGH.after k,
       s_log := s_log s @ map (\<lambda>j. (s_now s + fire_times timerGH.after (Suc j), STransmit f)) [0..<k]\<rparr>"

definition s_quiet_end :: "message \<Rightarrow> server_txn \<Rightarrow> server_txn" where
  "s_quiet_end f s =
     s\<lparr>s_pc := SDone, s_now := s_now s + 64 * T1, s_State := TransactionStateClosed, s_DelClosed := True,
       s_TuClosed := True,
       s_log := s_log s @ map (\<lambda>j. (s_now s + fire_times timerGH.after (Suc j), STransmit f)) [0..<10]
         @ [(s_now s + 64 * T1, DeleteServerTransaction (s_Key s))]\<rparr>"

definition s_answered :: "message \<Rightarrow> server_txn \<Rightarrow> bool" where
  "s_answered f s \<longleftrightarrow> s_FinalRes s = Some f \<and> \<not> s_DelClosed s \<and> \<not> s_TuClosed s"

lemmas s_quiet_defs = server_run_def server_controller_def s_quiet_sent_def s_quiet_end_def s_goto_def s_do_def
  server_controllerTerminated_def s_destroy_and_return_def server_Destroy_def s_answered_def T1_def

lemma s_quiet_fire:
  "s_answered f s \<Longrightarrow> server_run (fst (timerGH.after k)) SRetransmit (s_quiet_sent f s k) = Inr (s_quiet_sent f s (Suc k))"
  by (cases s) (simp add: s_quiet_defs timerGH.after_Suc fire_times_Suc add.assoc)

lemma s_quiet_timeout:
  "s_answered f s \<Longrightarrow> server_run 500 STimeout (s_quiet_sent f s 10) = Inr (s_quiet_end f s)"
  using timerGH_times by (cases s) (auto simp: s_quiet_defs)

lemma s_quiet_step:
  assumes a: "s_answered f s" and k: "k \<le> 10" and q: "\<forall>m. ev \<noteq> STu (Some m)"
    and st: "server_step (s_quiet_sent f s k) d ev s'"
  shows "k < 10 \<and> s' = s_quiet_sent f s (Suc k) \<or> k = 10 \<and> s' = s_quiet_end f s"
proof -
  have en: "server_enabled d ev (s_quiet_sent f s k)" "ev \<noteq> SDestroy" "server_run d ev (s_quiet_sent f s k) = Inr s'"
    using st by auto
  then consider "ev = SRetransmit" "d = fst (timerGH.after k)" "d \<le> snd (timerGH.after k)"
    | "ev = STimeout" "d = snd (timerGH.after k)" "d \<le> fst (timerGH.after k)"
    using a q by (auto simp: server_enabled_def s_quiet_sent_def s_tu_def s_answered_def
        split: server_event.splits option.splits)
  then show ?thesis
  proof cases
    case 1
    then show ?thesis using timerGH_race [OF k] s_quiet_fire [OF a, of k] en(3) by simp
  next
    case 2
    then have "k = 10" using timerGH_race [OF k] by simp
    then show ?thesis using 2 timerGH_table(11) s_quiet_timeout [OF a] en(3) by simp
  qed
qed

lemma s_quiet_reach:
  assumes a: "s_answered f s" and r: "server_quiet (s_quiet_sent f s 0) s'"
  shows "(\<exists>k \<le> 10. s' = s_quiet_sent f s k) \<or> s' = s_quiet_end f s"
  using r
proof induction
  case (step s1 ev d s2)
  then show ?case
  proof (elim disjE exE conjE)
    fix k assume "k \<le> 10" "s1 = s_quiet_sent f s k"
    with step show ?thesis using s_quiet_step [OF a, of k] by (metis Suc_leI)
  next
    assume "s1 = s_quiet_end f s"
    with step show ?thesis by (auto simp: s_quiet_end_def server_enabled_def)
  qed
qed blast

lemma s_quiet_next:
  "server_quiet a b \<Longrightarrow> (\<forall>m. ev \<noteq> STu (Some m)) \<Longrightarrow> ev \<noteq> SDestroy \<Longrightarrow> server_enabled d ev b \<Longrightarrow>
     server_run d ev b = Inr c \<Longrightarrow> server_quiet a c"
  by (rule server_quiet.step, assumption, assumption) (rule server_step.own)

lemma s_quiet_runs:
  assumes a: "s_answered f s" and k: "k \<le> 10"
  shows "server_quiet (s_quiet_sent f s 0) (s_quiet_sent f s k)"
  using k
proof (induction k)
  case (Suc k)
  have "fst (timerGH.after k) \<le> snd (timerGH.after k)" using Suc.prems timerGH_race [of k] by simp
  then have "server_enabled (fst (timerGH.after k)) SRetransmit (s_quiet_sent f s k)"
    by (simp add: server_enabled_def s_quiet_sent_def)
  then show ?case
    using Suc s_quiet_fire [OF a, of k] s_quiet_next [of _ "s_quiet_sent f s k" SRetransmit] by simp
qed (rule server_quiet.start)

lemma s_quiet_ends: "s_answered f s \<Longrightarrow> server_quiet (s_quiet_sent f s 0) (s_quiet_end f s)"
proof -
  assume a: "s_answered f s"
  have "server_enabled 500 STimeout (s_quiet_sent f s 10)"
    using timerGH_table(11) by (simp add: server_enabled_def s_quiet_sent_def)
  then show ?thesis
    using s_quiet_runs [OF a, of 10] s_quiet_timeout [OF a] s_quiet_next [of _ "s_quiet_sent f s 10" STimeout]
    by simp
qed

end
