(* ===== verification/Txn_Props.thy ===== *)
theory Txn_Props
  imports ClientTxn_End ServerTxn_Facts Message_Props
begin

text \<open>
  The properties of transactions: retransmission schedules, the invariants of both state
  machines and the absence of panics in them, the messages they generate and the keys those
  are matched by, and the ways in which calls from outside get stuck or panic.
\<close>

section \<open>Client transactions\<close>

text \<open>
  C14: An INVITE client transaction that hears nothing sends the request again 0.5, 1.5, 3.5,
  7.5, 15.5 and 31.5 seconds after the first time, and nothing else; it can go on from each
  of these states, and after exactly 64*T1 it has ended, closed, with the timeout error
  reported (when there is a function to report it to) and its table entry deleted.
\<close>

theorem invite_client_schedule:
  assumes "c_open c" and "c_pc c = CCalling TimerA TimerB"
  shows "(client_quiet c c' \<longrightarrow>
       c' \<in> quiet_sent CCalling timerAB.after c ` {0..6} \<union> {quiet_end timerAB.after c 6}) \<and>
    client_quiet c (quiet_end timerAB.after c 6) \<and>
    map (\<lambda>j. fire_times timerAB.after (Suc j)) [0..<6] = [500, 1500, 3500, 7500, 15500, 31500]"
proof -
  have c: "quiet_sent CCalling timerAB.after c 0 = c"
    using assms(2) timerAB.after_0 by (cases c) (simp add: quiet_sent_def)
  show ?thesis
    using timerAB_sends quiet_calling_reach [OF assms(1), of c'] quiet_timeout(1) [OF assms(1)] unfolding c by auto
qed

definition sample_client :: "bool \<Rightarrow> message \<Rightarrow> client_txn" where
  "sample_client i m =
     (newClientTransaction i \<lparr>ck_viaBranch = ''z9hG4bK1'', ck_cseqMethod = m_Method m\<rparr> m True)
       \<lparr>c_State := (if i then TransactionStateCalling else TransactionStateProceeding),
        c_pc := (if i then CCalling TimerA TimerB else CTrying TimerE TimerF), c_log := [(0, Transmit m)]\<rparr>"

theorem invite_client_schedule_witness:
  "client_quiet (sample_client True sample_invite) (quiet_end timerAB.after (sample_client True sample_invite) 6)"
proof -
  have "c_open (sample_client True sample_invite)"
    "c_pc (sample_client True sample_invite) = CCalling TimerA TimerB"
    by (simp_all add: c_open_def sample_client_def newClientTransaction_def)
  then show ?thesis using invite_client_schedule by blast
qed

text \<open>
  C15: A non-INVITE client transaction that hears nothing sends the request again ten times,
  at intervals that double up to T2, and ends like the INVITE transaction after 64*T1.
\<close>

theorem noninvite_client_schedule:
  assumes "c_open c" and "c_pc c = CTrying TimerE TimerF"
  shows "(client_quiet c c' \<longrightarrow>
       c' \<in> quiet_sent CTrying timerEF.after c ` {0..10} \<union> {quiet_end timerEF.after c 10}) \<and>
    client_quiet c (quiet_end timerEF.after c 10) \<and>
    map (\<lambda>j. fire_times timerEF.after (Suc j)) [0..<10]
      = [500, 1500, 3500, 7500, 11500, 15500, 19500, 23500, 27500, 31500]"
proof -
  have c: "quiet_sent CTrying timerEF.after c 0 = c"
    using assms(2) timerEF.after_0 by (cases c) (simp add: quiet_sent_def)
  show ?thesis
    using timerEF_sends quiet_trying_reach [OF assms(1), of c'] quiet_timeout(2) [OF assms(1)] unfolding c by auto
qed

theorem noninvite_client_schedule_witness:
  "client_quiet (sample_client False sample_invite) (quiet_end timerEF.after (sample_client False sample_invite) 10)"
proof -
  have "c_open (sample_client False sample_invite)"
    "c_pc (sample_client False sample_invite) = CTrying TimerE TimerF"
    by (simp_all add: c_open_def sample_client_def newClientTransaction_def)
  then show ?thesis using noninvite_client_schedule by blast
qed



text \<open>
  C13: A client transaction that hears nothing more comes to an end: there is no infinite run
  without a response, and a run of one whose request has a Via list stops only where the
  transaction waits for its user, or for the final response to an INVITE, or is over.
\<close>

theorem client_terminates:
  assumes "client_reach (newClientTransaction isInvite key msg f) c" and "m_Via (c_Request c) \<noteq> None"
  shows "wf {(c2, c1). client_reach (newClientTransaction isInvite key msg f) c1 \<and>
      (\<exists>d ev. quiet_event ev \<and> client_step c1 d ev c2)} \<and>
    ((\<nexists>d ev c'. quiet_event ev \<and> client_step c d ev c') \<longrightarrow>
       c_pc c \<in> {CInviteWaitTu, CNonInviteWaitTu, CInviteProceeding, CDone})"
proof
  show "wf {(c2, c1). client_reach (newClientTransaction isInvite key msg f) c1 \<and>
      (\<exists>d ev. quiet_event ev \<and> client_step c1 d ev c2)}"
  proof (rule wf_subset [OF wf_measure [of client_left]], rule subrelI)
    fix c2 c1
    assume "(c2, c1) \<in> {(c2, c1). client_reach (newClientTransaction isInvite key msg f) c1 \<and>
      (\<exists>d ev. quiet_event ev \<and> client_step c1 d ev c2)}"
    then obtain d ev where a: "client_reach (newClientTransaction isInvite key msg f) c1" "quiet_event ev" "client_step c1 d ev c2"
      by (simp only: mem_Collect_eq case_prod_conv) metis
    show "(c2, c1) \<in> measure client_left"
      using step_timers [OF conjunct1 conjunct2, OF reach_timers reach_timers, OF a(1,1,3)] a(2) by simp
  qed
  show "(\<nexists>d ev c'. quiet_event ev \<and> client_step c d ev c') \<longrightarrow>
       c_pc c \<in> {CInviteWaitTu, CNonInviteWaitTu, CInviteProceeding, CDone}"
    using own_step [OF _ _ assms(2)] reach_timers [OF assms(1)] by blast
qed

theorem client_terminates_witness:
  "wf {(c2, c1). client_reach (newClientTransaction True \<lparr>ck_viaBranch = ''b'', ck_cseqMethod = ''INVITE''\<rparr> sample_invite True) c1 \<and>
      (\<exists>d ev. quiet_event ev \<and> client_step c1 d ev c2)}"
proof -
  let ?c = "newClientTransaction True \<lparr>ck_viaBranch = ''b'', ck_cseqMethod = ''INVITE''\<rparr> sample_invite True"
  have "m_Via (c_Request ?c) \<noteq> None" by code_simp
  then show ?thesis using client_terminates [OF client_reach.start] by blast
qed

text \<open>
  When somebody calls \<open>Destroy\<close> on a live client transaction while a timer is due, the
  timer branch of the select closes the nil response channel: a panic.
\<close>

theorem client_destroy_race:
  assumes "c_open c" and "c_pc c = CCalling a b" and "b \<le> a"
  shows "\<exists>c'. client_run 0 CDestroy c = Inr c' \<and> client_enabled b CTimeout c' \<and>
    client_run b CTimeout c' = Inl CloseOfNilChannel"
  using assms
  by (auto simp: client_run_def client_Destroy_def c_open_def client_enabled_def client_controller_def c_do_def
      client_controllerTerminated_def c_destroy_and_return_def Let_def)

theorem client_destroy_race_witness:
  "\<exists>c'. client_run 0 CDestroy ((sample_client True sample_invite)\<lparr>c_pc := CCalling 32000 500\<rparr>) = Inr c' \<and>
     client_run 500 CTimeout c' = Inl CloseOfNilChannel"
proof -
  let ?c = "(sample_client True sample_invite)\<lparr>c_pc := CCalling 32000 500\<rparr>"
  have "c_open ?c" "c_pc ?c = CCalling 32000 500"
    by (simp_all add: c_open_def sample_client_def newClientTransaction_def)
  then show ?thesis using client_destroy_race [of ?c 32000 500] by auto
qed

section \<open>Server transactions\<close>


definition sample_server :: "server_pc \<Rightarrow> server_txn" where
  "sample_server p =
     (newServerTransaction True \<lparr>sk_viaBranch = ''z9hG4bK1'', sk_sentBy = ''a.com'', sk_method = ''INVITE''\<rparr> sample_invite)
       \<lparr>s_State := spc_state p, s_pc := p\<rparr>"

definition sample_response :: "int \<Rightarrow> message" where
  "sample_response code = sample_invite\<lparr>m_Request := False, m_Response := True, m_StatusCode := code\<rparr>"




text \<open>
  C39: After the first provisional response, a final response of 601 to 699 is neither sent
  nor stored: the controller ends, the transaction stays in its table in state Proceeding,
  and the next call of \<open>WriteMessage\<close> keeps the mutex and waits for a controller that takes
  no event any more. As the first response the same code is sent and completes the
  transaction.
\<close>

theorem final_6xx_lost:
  assumes "s_pc s = SInviteNext" and "s_alive s" "\<not> s_Mu s" "s_State s = TransactionStateProceeding"
    and "m_Response msg" "600 < m_StatusCode msg" "m_StatusCode msg < 700"
  shows "(\<exists>s'. server_run d (STu (Some msg)) s = Inr s' \<and> s_log s' = s_log s \<and> s_FinalRes s' = s_FinalRes s \<and>
      s_alive s' \<and> (\<forall>d' ev. server_enabled d' ev s' = (ev = SDestroy)) \<and>
      s_call m' s' = Inr (HandsOver m' (s'\<lparr>s_Mu := True\<rparr>))) \<and>
    (\<exists>s'. server_run d (STu (Some msg)) (s\<lparr>s_pc := SInviteFirst\<rparr>) = Inr s' \<and>
      s_log s' = s_log s @ [(s_now s + d, STransmit msg)] \<and> s_FinalRes s' = Some msg)"
  using assms
  by (auto simp: server_run_def server_controller_def s_invite_next_def s_invite_first_def Let_def s_goto_def
      server_enabled_def s_call_def base_WriteMessage_def s_alive_def s_deletes_def server_enter_defs s_do_def)

theorem final_6xx_lost_witness:
  "\<exists>s'. server_run 3 (STu (Some (sample_response 603))) (sample_server SInviteNext) = Inr s' \<and> s_log s' = [] \<and>
     s_FinalRes s' = None"
proof -
  let ?s = "sample_server SInviteNext" and ?m = "sample_response 603"
  have w: "s_pc ?s = SInviteNext" "s_alive ?s" "\<not> s_Mu ?s" "s_State ?s = TransactionStateProceeding"
    "m_Response ?m" "600 < m_StatusCode ?m" "m_StatusCode ?m < 700" "s_log ?s = []" "s_FinalRes ?s = None"
    by (simp_all add: s_alive_def s_deletes_def sample_server_def newServerTransaction_def sample_response_def)
  show ?thesis using final_6xx_lost [OF w(1-7), of 3 sample_invite] w(8,9) by auto
qed

text \<open>
  C40: A retransmitted request (not an ACK) that arrives when a response has been sent makes
  \<open>Handle\<close> wait for the mutex it holds itself: the response is not sent again, and every
  later call on the transaction waits for that mutex too.
\<close>

theorem server_handle_deadlock:
  assumes "\<not> s_Mu s" and "m_Method req \<noteq> ''ACK''"
    and "s_FinalRes s \<noteq> None \<or> s_ProvisionalRes s \<noteq> None"
  shows "\<exists>s'. server_Handle req s = Inr (WaitsForMutex s') \<and> s_Mu s' \<and> s_log s' = s_log s \<and>
    server_Handle req' s' = Inr (WaitsForMutex s') \<and> s_call m s' = Inr (WaitsForMutex s')"
  using assms
  by (auto simp: server_Handle_def s_call_def base_WriteMessage_def Let_def split: option.split)

theorem server_handle_deadlock_witness:
  "\<exists>s'. server_Handle sample_invite ((sample_server SInviteNext)\<lparr>s_ProvisionalRes := Some (sample_response 100)\<rparr>)
     = Inr (WaitsForMutex s')"
proof -
  let ?s = "(sample_server SInviteNext)\<lparr>s_ProvisionalRes := Some (sample_response 100)\<rparr>"
  have "\<not> s_Mu ?s" "m_Method sample_invite \<noteq> ''ACK''" "s_FinalRes ?s \<noteq> None \<or> s_ProvisionalRes ?s \<noteq> None"
    by (simp_all add: sample_server_def newServerTransaction_def sample_invite_def CreateMessage_def)
  from server_handle_deadlock [OF this] show ?thesis by blast
qed

section \<open>Generated messages and keys\<close>

lemma GetTopMostVia_eq: "m_Via a = m_Via b \<Longrightarrow> GetTopMostVia a = GetTopMostVia b"
  by (simp add: GetTopMostVia_def)

lemma GetTopMostVia_top:
  "m_Via a = Some [v] \<Longrightarrow> m_Via b = Some vs \<Longrightarrow> ViaHeaders_TopMost vs = Some v \<Longrightarrow> GetTopMostVia a = GetTopMostVia b"
  by (simp add: GetTopMostVia_def ViaHeaders_TopMost_last)

lemma server_key_top:
  assumes "GetTopMostVia a = GetTopMostVia b" "GenerateServerTransactionKey b = Inr (Inr k)"
  shows "GenerateServerTransactionKey a
    = Inr (Inr (k\<lparr>sk_method := (if m_Method a = ''ACK'' then ''INVITE'' else m_Method a)\<rparr>))"
  using assms by (auto simp: GenerateServerTransactionKey_def bindR_def split: sum.splits list.splits)

lemma server_key_via:
  assumes "GenerateServerTransactionKey b = Inr (Inr k)"
  obtains vs v where "m_Via b = Some vs" "ViaHeaders_TopMost vs = Some v"
  using assms
  by (auto simp: GenerateServerTransactionKey_def GetTopMostVia_def deref_def split: option.splits)

lemma top_insert: "ViaHeaders_Insert NewViaHeaders v = [v]"
  by (simp add: ViaHeaders_Insert_def NewViaHeaders_def)

text \<open>
  C26: The ACK for a response of 300 or more matches the server transaction of its INVITE: it
  has the same key, the Request-URI, From and Call-ID of the request, its topmost Via alone,
  the To (with the tag) of the response, and the sequence number of the request. It does not
  depend on the random bytes.
\<close>

theorem ack_matches_invite:
  assumes "m_Request req" and "m_Method req = ''INVITE''" and "m_CSeq req = Some cs"
    and "m_Response res" and "300 \<le> m_StatusCode res"
    and "GenerateServerTransactionKey req = Inr (Inr k)"
  shows "\<exists>a v. GenerateAckFromRequestAndResponse rndC rnd req res = Inr (Inr a) \<and>
    GenerateServerTransactionKey a = Inr (Inr k) \<and> m_Via a = Some [v] \<and>
    bindR (deref (m_Via req)) (\<lambda>vs. Inr (ViaHeaders_TopMost vs)) = Inr (Some v) \<and>
    (m_Method a, m_RequestURI a, m_From a, m_CallID a, m_To a)
      = (''ACK'', m_RequestURI req, m_From req, m_CallID req, m_To res) \<and>
    hdr_Get (m_Header a) ''CSeq'' = Itoa (cs_Sequence cs) @ '' ACK''"
proof -
  obtain vs v where v: "m_Via req = Some vs" "ViaHeaders_TopMost vs = Some v"
    using server_key_via [OF assms(6)] .
  define a0 where "a0 = ack_fields (CreateACK rndC (m_RemoteAddr req)) req res (ViaHeaders_Insert NewViaHeaders v)"
  define a where "a = a0\<lparr>m_Header := hdr_Add (m_Header a0) ''CSeq'' (Itoa (cs_Sequence cs) @ '' ACK''), m_ctx := m_ctx req\<rparr>"
  have gen: "GenerateAckFromRequestAndResponse rndC rnd req res = Inr (Inr a)"
    using assms v by (simp add: GenerateAckFromRequestAndResponse_def ack_finish_def GetCSeq_def a_def a0_def Let_def)
  have f: "m_Method a = ''ACK''" "m_RequestURI a = m_RequestURI req" "m_From a = m_From req"
    "m_CallID a = m_CallID req" "m_To a = m_To res" "m_Via a = Some [v]"
    by (simp_all add: a_def a0_def ack_fields_def CreateACK_def top_insert)
  have "GenerateServerTransactionKey a = Inr (Inr (k\<lparr>sk_method := ''INVITE''\<rparr>))"
    using server_key_top [OF GetTopMostVia_top [OF f(6) v] assms(6)] f(1) by simp
  moreover have "sk_method k = ''INVITE''"
    using assms(2,6) by (auto simp: GenerateServerTransactionKey_def bindR_def split: sum.splits list.splits)
  ultimately have key: "GenerateServerTransactionKey a = Inr (Inr k)" by (cases k) simp
  have "hdr_Values (m_Header a0) ''CSeq'' = []"
  proof -
    have "CanonicalMIMEHeaderKey ''CSeq'' \<noteq> CanonicalMIMEHeaderKey ''Route''" by code_simp
    then show ?thesis
      by (simp add: a0_def ack_fields_def CreateACK_def CreateRequest_def CreateMessage_def hdr_Values_def
          hdr_Add_def Let_def) (simp add: kv_values_def)
  qed
  then have "hdr_Get (m_Header a) ''CSeq'' = Itoa (cs_Sequence cs) @ '' ACK''"
    by (simp add: a_def hdr_Get_def hdr_Add_def hdr_Values_def kv_get_def)
  then show ?thesis using gen key f v by auto
qed

theorem ack_matches_invite_witness:
  "\<exists>a. GenerateAckFromRequestAndResponse None None sample_invite (sample_response 486) = Inr (Inr a) \<and>
     GenerateServerTransactionKey a
       = Inr (Inr \<lparr>sk_viaBranch = ''z9hG4bK1'', sk_sentBy = ''a.com'', sk_method = ''INVITE''\<rparr>)"
proof -
  have w: "m_Request sample_invite" "m_Method sample_invite = ''INVITE''"
    "m_CSeq sample_invite = Some \<lparr>cs_Sequence = 314, cs_Method = ''INVITE''\<rparr>"
    "m_Response (sample_response 486)" "300 \<le> m_StatusCode (sample_response 486)"
    "GenerateServerTransactionKey sample_invite
      = Inr (Inr \<lparr>sk_viaBranch = ''z9hG4bK1'', sk_sentBy = ''a.com'', sk_method = ''INVITE''\<rparr>)" by code_simp+
  show ?thesis using ack_matches_invite [OF w, of None None] by blast
qed

text \<open>
  C27: The CANCEL for an INVITE has the key of the INVITE but for the method, so that
  \<open>UpdateMethod\<close> leads from the one to the other; it has no body, one Via, the sequence
  number of the INVITE, and the Request-URI and Call-ID of the INVITE are copied.
\<close>

theorem cancel_matches_invite:
  assumes "m_Request req" and "m_Method req = ''INVITE''" and "m_CSeq req = Some cs"
    and "GenerateServerTransactionKey req = Inr (Inr k)"
  shows "\<exists>c. GenerateCancelRequest (Some req) = Inr (Inr c) \<and>
    GenerateServerTransactionKey c = Inr (Inr (UpdateMethod k ''CANCEL'')) \<and> UpdateMethod (UpdateMethod k ''CANCEL'') ''INVITE'' = k \<and>
    m_CSeq c = Some \<lparr>cs_Sequence = cs_Sequence cs, cs_Method = ''CANCEL''\<rparr> \<and>
    (m_RequestURI c, m_CallID c, m_Body c, m_ContentLength c)
      = (uri_Clone (m_RequestURI req), map_option call_id_Clone (m_CallID req), None, 0) \<and>
    map_option length (m_Via c) = Some 1"
proof -
  obtain vs v where v: "m_Via req = Some vs" "ViaHeaders_TopMost vs = Some v"
    using server_key_via [OF assms(4)] .
  have cv: "via_Clone x = x" for x by (simp add: via_Clone_def)
  then have cl: "ViaHeaders_Clone vs = vs" by (simp add: ViaHeaders_Clone_def map_idI)
  define c where "c = (message_Clone req)\<lparr>m_Method := ''CANCEL'', m_Via := Some (ViaHeaders_Insert NewViaHeaders v),
      m_CSeq := Some ((cseq_Clone cs)\<lparr>cs_Method := ''CANCEL''\<rparr>),
      m_Header := hdr_Del (hdr_Del (m_Header (message_Clone req)) ''Require'') ''Proxy-Require'',
      m_ContentLength := 0, m_Body := None\<rparr>"
  have gen: "GenerateCancelRequest (Some req) = Inr (Inr c)"
    using assms v cl by (simp add: GenerateCancelRequest_def message_Clone_def c_def Let_def)
  have "m_Via c = Some [v]" by (simp add: c_def top_insert)
  then have "GenerateServerTransactionKey c = Inr (Inr (k\<lparr>sk_method := ''CANCEL''\<rparr>))"
    using server_key_top [OF GetTopMostVia_top [OF _ v] assms(4)] by (simp add: c_def)
  moreover have "sk_method k = ''INVITE''"
    using assms(2,4) by (auto simp: GenerateServerTransactionKey_def bindR_def split: sum.splits list.splits)
  ultimately show ?thesis
    using gen by (cases k) (auto simp: UpdateMethod_def c_def message_Clone_def top_insert cseq_Clone_def)
qed

theorem cancel_matches_invite_witness:
  "\<exists>c. GenerateCancelRequest (Some sample_invite) = Inr (Inr c) \<and>
     GenerateServerTransactionKey c
       = Inr (Inr \<lparr>sk_viaBranch = ''z9hG4bK1'', sk_sentBy = ''a.com'', sk_method = ''CANCEL''\<rparr>)"
proof -
  have w: "m_Request sample_invite" "m_Method sample_invite = ''INVITE''"
    "m_CSeq sample_invite = Some \<lparr>cs_Sequence = 314, cs_Method = ''INVITE''\<rparr>"
    "GenerateServerTransactionKey sample_invite
      = Inr (Inr \<lparr>sk_viaBranch = ''z9hG4bK1'', sk_sentBy = ''a.com'', sk_method = ''INVITE''\<rparr>)" by code_simp+
  show ?thesis using cancel_matches_invite [OF w] by (auto simp: UpdateMethod_def)
qed

end
