(* ===== verification/Tables.thy ===== *)
theory Tables
  imports Sip_Prelude
begin

text \<open>
  The interface of the keyed tables of the stack and of the proxy: the transactions of a
  server, the response contexts, the channels of timer C and the calls. A table either
  overwrites the entry of a key or refuses a second one. The lemmas of the two interfaces
  say what a lookup returns after any history of calls; each table is an interpretation.
\<close>

datatype ('k, 'v) table_op = Put 'k 'v | Drop 'k

text \<open>
  The values put under a key since it was last dropped, the newest first; histories have
  the last call at their head.
\<close>

definition put_since :: "'k \<Rightarrow> ('k, 'v) table_op list \<Rightarrow> 'v list" where
  "put_since k h =
     List.map_filter (\<lambda>e. case e of Put k' v \<Rightarrow> if k' = k then Some v else None | Drop _ \<Rightarrow> None)
       (takeWhile (\<lambda>e. e \<noteq> Drop k) h)"

lemma put_since_simps [simp]:
  "put_since k [] = []"
  "put_since k (Put k' v # h) = (if k' = k then v # put_since k h else put_since k h)"
  "put_since k (Drop k' # h) = (if k' = k then [] else put_since k h)"
  by (simp_all add: put_since_def List.map_filter_def)

definition newest :: "'v list \<Rightarrow> 'v option" where
  "newest vs = (case vs of [] \<Rightarrow> None | v # _ \<Rightarrow> Some v)"

definition oldest :: "'v list \<Rightarrow> 'v option" where
  "oldest vs = (if vs = [] then None else Some (last vs))"

lemma newest_simps [simp]: "newest [] = None" "newest (v # vs) = Some v"
  by (simp_all add: newest_def)

lemma oldest_simps [simp]:
  "oldest [] = None" "oldest (v # vs) = (case oldest vs of None \<Rightarrow> Some v | Some w \<Rightarrow> Some w)"
  by (simp_all add: oldest_def)

section \<open>Interfaces\<close>

locale keyed_table =
  fixes empty :: 't and lookup :: "'t \<Rightarrow> 'k \<Rightarrow> 'v option" and delete :: "'k \<Rightarrow> 't \<Rightarrow> 't"
  assumes lookup_empty: "lookup empty k = None"
    and lookup_delete: "lookup (delete k t) k' = (if k' = k then None else lookup t k')"
begin

lemma delete_twice: "lookup (delete k (delete k t)) = lookup (delete k t)"
  by (rule ext) (simp add: lookup_delete)

lemma delete_commute: "lookup (delete a (delete b t)) = lookup (delete b (delete a t))"
  by (rule ext) (simp add: lookup_delete)

end

locale overwriting_table = keyed_table empty lookup delete
  for empty :: 't and lookup :: "'t \<Rightarrow> 'k \<Rightarrow> 'v option" and delete :: "'k \<Rightarrow> 't \<Rightarrow> 't" +
  fixes put :: "'k \<Rightarrow> 'v \<Rightarrow> 't \<Rightarrow> 't"
  assumes lookup_put: "lookup (put k v t) k' = (if k' = k then Some v else lookup t k')"
begin

definition apply_op :: "('k, 'v) table_op \<Rightarrow> 't \<Rightarrow> 't" where
  "apply_op e t = (case e of Put k v \<Rightarrow> put k v t | Drop k \<Rightarrow> delete k t)"

lemma lookup_history: "lookup (foldr apply_op h empty) k = newest (put_since k h)"
  by (induction h) (auto simp: apply_op_def lookup_empty lookup_put lookup_delete split: table_op.split)

lemma delete_put: "lookup t k = None \<Longrightarrow> lookup (delete k (put k v t)) = lookup t"
  by (rule ext) (simp add: lookup_put lookup_delete)

end

locale guarded_table = keyed_table empty lookup delete
  for empty :: 't and lookup :: "'t \<Rightarrow> 'k \<Rightarrow> 'v option" and delete :: "'k \<Rightarrow> 't \<Rightarrow> 't" +
  fixes try_put :: "'k \<Rightarrow> 'v \<Rightarrow> 't \<Rightarrow> bool \<times> 't"
  assumes try_put_new: "lookup t k = None \<Longrightarrow>
      fst (try_put k v t) \<and> lookup (snd (try_put k v t)) k' = (if k' = k then Some v else lookup t k')"
    and try_put_taken: "lookup t k = Some w \<Longrightarrow>
      \<not> fst (try_put k v t) \<and> lookup (snd (try_put k v t)) k' = lookup t k'"
begin

definition apply_op :: "('k, 'v) table_op \<Rightarrow> 't \<Rightarrow> 't" where
  "apply_op e t = (case e of Put k v \<Rightarrow> snd (try_put k v t) | Drop k \<Rightarrow> delete k t)"

lemma lookup_try_put:
  "lookup (snd (try_put k v t)) k'
    = (if k' = k then (case lookup t k of None \<Rightarrow> Some v | Some w \<Rightarrow> Some w) else lookup t k')"
  using try_put_new [of t k v k'] try_put_taken [of t k _ v k'] by (cases "lookup t k") auto

lemma try_put_iff: "fst (try_put k v t) \<longleftrightarrow> lookup t k = None"
  using try_put_new [of t k v k] try_put_taken [of t k _ v k] by (cases "lookup t k") auto

lemma lookup_history: "lookup (foldr apply_op h empty) k = oldest (put_since k h)"
  by (induction h)
     (auto simp: apply_op_def lookup_empty lookup_try_put lookup_delete split: table_op.split option.split)

text \<open>Nobody loses an entry to somebody else's call.\<close>

lemma try_put_keeps: "lookup t k' = Some w \<Longrightarrow> lookup (snd (try_put k v t)) k' = Some w"
  by (auto simp: lookup_try_put)

end

section \<open>Go maps\<close>

text \<open>A Go map that may be nil, as an association list; a nil map has no entries.\<close>

definition map_get :: "('k \<times> 'v) list option \<Rightarrow> 'k \<Rightarrow> 'v option" where
  "map_get m k = (case m of None \<Rightarrow> None | Some es \<Rightarrow> map_of es k)"

definition made :: "('k \<times> 'v) list option \<Rightarrow> ('k \<times> 'v) list" where
  "made m = (case m of None \<Rightarrow> [] | Some es \<Rightarrow> es)"

definition map_put :: "'k \<Rightarrow> 'v \<Rightarrow> ('k \<times> 'v) list option \<Rightarrow> ('k \<times> 'v) list option" where
  "map_put k v m = Some (AList.update k v (made m))"

definition map_delete :: "'k \<Rightarrow> ('k \<times> 'v) list option \<Rightarrow> ('k \<times> 'v) list option" where
  "map_delete k m = map_option (AList.delete k) m"

lemma map_get_simps [simp]:
  "map_get None k = None" "map_get (Some []) k = None"
  "map_get (map_put k v m) k' = (if k' = k then Some v else map_get m k')"
  "map_get (map_delete k m) k' = (if k' = k then None else map_get m k')"
  by (auto simp: map_get_def map_put_def map_delete_def made_def update_conv' delete_conv' split: option.split)

interpretation go_map: overwriting_table None map_get map_delete map_put
  by unfold_locales simp_all

end
