(* ===== verification/Server.thy ===== *)
theory Server
  imports Tables ClientTxn ServerTxn
begin

text \<open>
  \<open>src/sip/server.go\<close>: the server, its transaction tables, the handler table, what becomes
  of an arriving packet and of a message to be sent. The socket is known by its local
  address; name resolution and the success of the send are arguments. A handler is a
  function on the world and the message; the world is a record that extends the server, so
  that a handler can change both. \<open>Debugf\<close> evaluates its arguments at every log level, which
  matters where an argument dereferences a pointer.
\<close>

section \<open>The server\<close>

record srv =
  sv_LocalAddr :: string
  sv_Host :: string
  sv_AoR :: string
  sv_serverTransactions :: "(server_key \<times> server_txn) list option"
  sv_clientTransactions :: "(client_key \<times> client_txn) list option"

definition newServer :: "string \<Rightarrow> string \<Rightarrow> string \<Rightarrow> srv" where
  "newServer local host aor =
     \<lparr>sv_LocalAddr = local, sv_Host = host, sv_AoR = aor, sv_serverTransactions = None,
      sv_clientTransactions = None\<rparr>"

definition Address :: "'a srv_scheme \<Rightarrow> string" where
  "Address s = (if sv_Host s \<noteq> [] then sv_Host s else sv_LocalAddr s)"

text \<open>
  The host of \<open>url.Parse\<close>, or None when that fails. Without a slash after the scheme the
  rest is opaque and the host empty; without a scheme the first segment must have no colon.
\<close>

definition url_host :: "string \<Rightarrow> string option" where
  "url_host rawurl =
     (let (s, frag) = split_at rawurl (CHR ''#'') True;
          frag_ok = (frag = [] \<or> (case unescape frag encodeFragment of Inl _ \<Rightarrow> False | Inr _ \<Rightarrow> True))
      in if stringContainsCTLByte s then None
         else case getscheme s of
             Inl _ \<Rightarrow> None
           | Inr (scheme, rest0) \<Rightarrow>
               (let (_, rest, _) = split_query rest0 in
                if HasPrefix rest ''/'' then
                  (case neturl_Parse rawurl of Inl _ \<Rightarrow> None | Inr u \<Rightarrow> Some (u_Host u))
                else if scheme \<noteq> [] then (if frag_ok then Some [] else None)
                else if CHR '':'' \<in> set (hd (Split rest (CHR ''/''))) then None
                else (case setPath new_uri rest of
                    Inl _ \<Rightarrow> None
                  | Inr _ \<Rightarrow> (if frag_ok then Some [] else None))))"

definition AorDomain :: "'a srv_scheme \<Rightarrow> string" where
  "AorDomain s =
     (if sv_AoR s = [] then sv_LocalAddr s
      else (case url_host (sv_AoR s) of None \<Rightarrow> sv_LocalAddr s | Some h \<Rightarrow> h))"

section \<open>Transaction tables\<close>

definition AddServerTransaction :: "server_key \<Rightarrow> server_txn \<Rightarrow> 'a srv_scheme \<Rightarrow> protocol_error option \<times> 'a srv_scheme" where
  "AddServerTransaction key t s =
     (let m = Some (made (sv_serverTransactions s)) in
      if map_get m key \<noteq> None then (Some ErrTransactionDuplicated, s\<lparr>sv_serverTransactions := m\<rparr>)
      else (None, s\<lparr>sv_serverTransactions := map_put key t m\<rparr>))"

definition srv_DeleteServerTransaction :: "server_key \<Rightarrow> 'a srv_scheme \<Rightarrow> 'a srv_scheme" where
  "srv_DeleteServerTransaction key s =
     (if map_get (sv_serverTransactions s) key \<noteq> None
      then s\<lparr>sv_serverTransactions := map_delete key (sv_serverTransactions s)\<rparr> else s)"

definition AddClientTransaction :: "client_key \<Rightarrow> client_txn \<Rightarrow> 'a srv_scheme \<Rightarrow> 'a srv_scheme" where
  "AddClientTransaction key t s =
     s\<lparr>sv_clientTransactions := map_put key t (sv_clientTransactions s)\<rparr>"

definition srv_DeleteClientTransaction :: "client_key \<Rightarrow> 'a srv_scheme \<Rightarrow> 'a srv_scheme" where
  "srv_DeleteClientTransaction key s =
     (if map_get (sv_clientTransactions s) key \<noteq> None
      then s\<lparr>sv_clientTransactions := map_delete key (sv_clientTransactions s)\<rparr> else s)"

definition lookupServerTransaction :: "server_key \<Rightarrow> 'a srv_scheme \<Rightarrow> server_txn option" where
  "lookupServerTransaction query s = map_get (sv_serverTransactions s) query"

definition lookupClientTransaction :: "client_key \<Rightarrow> 'a srv_scheme \<Rightarrow> client_txn option" where
  "lookupClientTransaction query s = map_get (sv_clientTransactions s) query"

lemma map_get_made [simp]: "map_get (Some (made m)) k = map_get m k"
  by (simp add: map_get_def made_def split: option.split)

interpretation server_table: guarded_table "newServer a h r"
  "\<lambda>s k. lookupServerTransaction k s" srv_DeleteServerTransaction
  "\<lambda>k t s. (fst (AddServerTransaction k t s) = None, snd (AddServerTransaction k t s))" for a h r
  by unfold_locales
     (auto simp: lookupServerTransaction_def srv_DeleteServerTransaction_def AddServerTransaction_def
       newServer_def Let_def)

interpretation client_table: overwriting_table "newServer a h r"
  "\<lambda>s k. lookupClientTransaction k s" srv_DeleteClientTransaction AddClientTransaction for a h r
  by unfold_locales
     (auto simp: lookupClientTransaction_def srv_DeleteClientTransaction_def AddClientTransaction_def
       newServer_def)

lemma AddServerTransaction_new:
  "fst (AddServerTransaction k t s) = None \<longleftrightarrow> lookupServerTransaction k s = None"
  by (simp add: AddServerTransaction_def lookupServerTransaction_def Let_def)

section \<open>Handlers\<close>

datatype layer = LayerSocket | LayerParserIngress | LayerParserEgress | LayerTransport
  | LayerTransaction | LayerCore

type_synonym 'w handler = "layer \<Rightarrow> 'w \<times> message \<Rightarrow> (('w \<times> message) \<times> string option) run"

type_synonym 'w mux = "(layer \<times> (string \<times> 'w handler) list) list"

text \<open>A Go map has no order; the handlers of a layer run in the order of the list here.\<close>

fun run_handlers :: "(string \<times> 'w handler) list \<Rightarrow> layer \<Rightarrow> 'w \<times> message \<Rightarrow> (('w \<times> message) \<times> string option) run" where
  "run_handlers [] l x = Inr (x, None)"
| "run_handlers ((_, h) # hs) l x =
     bindR (h l x) (\<lambda>(x', err). if err \<noteq> None then Inr (x', err) else run_handlers hs l x')"

definition ServeSIP :: "'w mux \<Rightarrow> layer \<Rightarrow> 'w \<times> message \<Rightarrow> (('w \<times> message) \<times> string option) run" where
  "ServeSIP m l x = (case map_of m l of None \<Rightarrow> Inr (x, None) | Some hs \<Rightarrow> run_handlers hs l x)"

text \<open>\<open>Handle\<close> panics on an empty id, a nil handler and a second registration.\<close>

definition mux_Handle :: "layer \<Rightarrow> string \<Rightarrow> 'w handler option \<Rightarrow> 'w mux \<Rightarrow> string + 'w mux" where
  "mux_Handle l ident h m =
     (if ident = [] then Inl ''sip: invalid id''
      else (case h of
          None \<Rightarrow> Inl ''sip: nil handler''
        | Some f \<Rightarrow>
            (let hs = (case map_of m l of None \<Rightarrow> [] | Some hs \<Rightarrow> hs) in
             if map_of hs ident \<noteq> None then Inl ''sip: multiple registrations''
             else Inr (AList.update l (AList.update ident f hs) m))))"

section \<open>An arriving packet\<close>

text \<open>Where a packet goes; with a transaction, \<open>Handle\<close> of it is called with the message.\<close>

datatype packet_end =
    SocketRefused string
  | Unreadable message_error
  | IngressRefused string
  | NoKey protocol_error
  | HandleServer server_txn message
  | HandleClient client_txn message
  | ToCore "string option" message

definition packet_key :: "'a srv_scheme \<Rightarrow> message
    \<Rightarrow> (protocol_error + (server_txn option \<times> client_txn option)) run" where
  "packet_key s msg =
     (if m_Request msg then
        bindR (GenerateServerTransactionKey msg) (\<lambda>r.
          Inr (case r of Inl e \<Rightarrow> Inl e | Inr k \<Rightarrow> Inr (lookupServerTransaction k s, None)))
      else if m_Response msg then
        bindR (GenerateClientTransactionKey msg) (\<lambda>r.
          Inr (case r of Inl e \<Rightarrow> Inl e | Inr k \<Rightarrow> Inr (None, lookupClientTransaction k s)))
      else Inr (Inr (None, None)))"

definition packetProcessing :: "'a srv_scheme mux \<Rightarrow> (string \<Rightarrow> nat) \<Rightarrow> ctx \<Rightarrow> string \<Rightarrow> string
    \<Rightarrow> 'a srv_scheme \<Rightarrow> ('a srv_scheme \<times> packet_end) run" where
  "packetProcessing mux Buffered c buf addr s =
     bindR (ServeSIP mux LayerSocket (s, (CreateMessage addr)\<lparr>m_ctx := Some c\<rparr>)) (\<lambda>((s1, m1), e1).
     case e1 of Some e \<Rightarrow> Inr (s1, SocketRefused e) | None \<Rightarrow>
     bindR (readMessage Buffered m1 buf) (\<lambda>r.
     case r of Inl e \<Rightarrow> Inr (s1, Unreadable e) | Inr m2 \<Rightarrow>
     bindR (ServeSIP mux LayerParserIngress (s1, m2)) (\<lambda>((s3, m3), e3).
     case e3 of Some e \<Rightarrow> Inr (s3, IngressRefused e) | None \<Rightarrow>
     bindR (packet_key s3 m3) (\<lambda>k.
     case k of
       Inl e \<Rightarrow> Inr (s3, NoKey e)
     | Inr (Some t, _) \<Rightarrow> Inr (s3, HandleServer t m3)
     | Inr (None, Some t) \<Rightarrow> Inr (s3, HandleClient t m3)
     | Inr (None, None) \<Rightarrow>
         bindR (ServeSIP mux LayerCore (s3, m3)) (\<lambda>((s4, m4), e4). Inr (s4, ToCore e4 m4))))))"

section \<open>A message to be sent\<close>

text \<open>
  A request gets a Via of this server on top unless it has one, and a Contact unless it has
  one. The Debugf call of the first step dereferences the topmost Via also when there is
  none. \<open>NewContactHeaderFromString\<close> returns nil for an address that does not parse, and the
  nil entry of the list is the flag of the result.
\<close>

definition own_via :: "string option \<Rightarrow> string \<Rightarrow> via" where
  "own_via rnd local = NewViaHeaderUDP local (''branch='' @ GenerateBranchParam rnd)"

definition add_own_via :: "string option \<Rightarrow> string \<Rightarrow> message \<Rightarrow> message run" where
  "add_own_via rnd local msg =
     (let vs = (case m_Via msg of None \<Rightarrow> NewViaHeaders | Some vs \<Rightarrow> vs) in
      case ViaHeaders_TopMost vs of
        None \<Rightarrow> Inl NilDereference
      | Some v \<Rightarrow>
          Inr (if via_SentBy v \<noteq> local
               then msg\<lparr>m_Via := Some (ViaHeaders_Insert vs (own_via rnd local))\<rparr>
               else msg\<lparr>m_Via := Some vs\<rparr>))"

definition add_own_contact :: "string \<Rightarrow> message \<Rightarrow> (message \<times> bool) run" where
  "add_own_contact local msg =
     (let cs = (case m_Contact msg of None \<Rightarrow> [] | Some cs \<Rightarrow> cs) in
      if cs \<noteq> [] then Inr (msg, False)
      else bindR (NewContactHeaderFromString [] (''sip:'' @ local) []) (\<lambda>c.
        case c of
          None \<Rightarrow> Inr (msg\<lparr>m_Contact := Some []\<rparr>, True)
        | Some x \<Rightarrow> Inr (msg\<lparr>m_Contact := Some (ContactHeaders_Add cs x)\<rparr>, False)))"

definition completed_message :: "string option \<Rightarrow> string \<Rightarrow> message \<Rightarrow> (message \<times> bool) run" where
  "completed_message rnd local msg =
     (if m_Request msg then bindR (add_own_via rnd local msg) (add_own_contact local)
      else Inr (msg, False))"

datatype write_end =
    EgressRefused string
  | Unresolved
  | NotSent
  | Sent string string

text \<open>
  The message is the one the caller holds, so what \<open>WriteMessage\<close> adds to it stays there. A
  nil Contact panics when it is written.
\<close>

definition WriteMessage :: "'a srv_scheme mux \<Rightarrow> bool \<Rightarrow> (string \<Rightarrow> string option) \<Rightarrow> bool \<Rightarrow> string option
    \<Rightarrow> 'a srv_scheme \<Rightarrow> message \<Rightarrow> (('a srv_scheme \<times> message) \<times> write_end) run" where
  "WriteMessage mux compact resolve sent_ok rnd s msg =
     bindR (completed_message rnd (Address s) msg) (\<lambda>(m1, nil_contact).
     bindR (ServeSIP mux LayerParserEgress (s, m1)) (\<lambda>(x2, e).
     case e of Some e \<Rightarrow> Inr (x2, EgressRefused e) | None \<Rightarrow>
     if nil_contact then Inl NilDereference
     else bindR (message_write compact (snd x2)) (\<lambda>w.
       Inr (x2, case resolve (m_RemoteAddr (snd x2)) of
           None \<Rightarrow> Unresolved
         | Some udp \<Rightarrow> if sent_ok then Sent udp w else NotSent))))"

section \<open>New transactions\<close>

text \<open>
  \<open>NewClientInviteTransaction\<close> and \<open>NewClientNonInviteTransaction\<close>: the Via is put on the
  caller's message too. Without a key the result is nil.
\<close>

definition with_own_via :: "string option \<Rightarrow> string \<Rightarrow> message \<Rightarrow> message" where
  "with_own_via rnd local msg =
     (let vs = (case m_Via msg of None \<Rightarrow> NewViaHeaders | Some vs \<Rightarrow> vs) in
      msg\<lparr>m_Via := Some
        (if (case ViaHeaders_TopMost vs of None \<Rightarrow> True | Some v \<Rightarrow> via_SentBy v \<noteq> local)
         then ViaHeaders_Insert vs (own_via rnd local) else vs)\<rparr>)"

definition NewClientTransaction :: "bool \<Rightarrow> string option \<Rightarrow> 'a srv_scheme \<Rightarrow> message
    \<Rightarrow> bool \<Rightarrow> (message \<times> client_txn option) run" where
  "NewClientTransaction invite rnd s msg f =
     (let m = with_own_via rnd (Address s) msg in
      bindR (GenerateClientTransactionKey m) (\<lambda>r.
        Inr (m, case r of Inl _ \<Rightarrow> None | Inr key \<Rightarrow> Some (newClientTransaction invite key m f))))"

definition CreateIniINVITE :: "string option \<Rightarrow> string option \<Rightarrow> int option \<Rightarrow> 'a srv_scheme \<Rightarrow> string \<Rightarrow> string
    \<Rightarrow> (message \<times> bool) run" where
  "CreateIniINVITE rndC rndT rndS s addr ruri =
     bindR (deref (CreateINVITE rndC addr ruri)) (\<lambda>msg.
     bindR (NewContactHeaderFromString [] (''sip:'' @ Address s) []) (\<lambda>c.
       Inr (msg\<lparr>m_To := NewToHeaderFromString [] ruri [],
          m_From := NewToHeaderFromString [] (''sip:'' @ AorDomain s) (''tag='' @ GenerateTag rndT),
          m_Contact := Some (case c of None \<Rightarrow> [] | Some x \<Rightarrow> [x]),
          m_CSeq := NewCSeqHeader rndS ''INVITE''\<rparr>, c = None)))"

end
