(* ===== verification/Server_Props.thy ===== *)
theory Server_Props
  imports Server Message_Props
begin

text \<open>
  The properties of the server: what its tables answer after any history, what a
  retransmission looks like, and that a response finds the transaction of its request.
\<close>

section \<open>Histories of the tables\<close>

definition server_op :: "(server_key, server_txn) table_op \<Rightarrow> srv \<Rightarrow> srv" where
  "server_op e s = (case e of Put k t \<Rightarrow> snd (AddServerTransaction k t s) | Drop k \<Rightarrow> srv_DeleteServerTransaction k s)"

definition client_op :: "(client_key, client_txn) table_op \<Rightarrow> srv \<Rightarrow> srv" where
  "client_op e s = (case e of Put k t \<Rightarrow> AddClientTransaction k t s | Drop k \<Rightarrow> srv_DeleteClientTransaction k s)"

text \<open>
  C21: After any history of calls, the server transaction found under a key is the first one
  added since the key was last deleted, and a second one is refused; the client transaction
  found is the last one added, which hides the earlier one until the key is deleted for both.
\<close>

theorem transaction_tables:
  "lookupServerTransaction k (foldr server_op h (newServer a r d)) = oldest (put_since k h) \<and>
   (fst (AddServerTransaction k t (foldr server_op h (newServer a r d))) = None) = (put_since k h = []) \<and>
   lookupClientTransaction k' (foldr client_op h' (newServer a r d)) = newest (put_since k' h')"
proof -
  have s: "server_op = server_table.apply_op" and c: "client_op = client_table.apply_op"
    by (auto simp: fun_eq_iff server_op_def client_op_def server_table.apply_op_def client_table.apply_op_def
        split: table_op.split)
  show ?thesis
    using server_table.lookup_history client_table.lookup_history
    by (simp add: s c AddServerTransaction_new oldest_def)
qed

section \<open>Retransmissions\<close>

lemma own_via_SentBy: "via_SentBy (own_via rnd local) = Trim local blk"
  by (simp add: own_via_def NewViaHeaderUDP_def NewViaHeader_def)

lemma add_own_via_again:
  assumes "Trim local blk = local" and "add_own_via rnd local m = Inr m'"
  shows "add_own_via rnd' local m' = Inr m' \<and> m_Contact m' = m_Contact m \<and> m_Request m' = m_Request m"
proof -
  let ?vs = "case m_Via m of None \<Rightarrow> NewViaHeaders | Some vs \<Rightarrow> vs"
  obtain v where v: "ViaHeaders_TopMost ?vs = Some v"
    using assms(2) by (cases "ViaHeaders_TopMost ?vs") (simp_all add: add_own_via_def Let_def)
  show ?thesis
  proof (cases "via_SentBy v = local")
    case True
    then have "m' = m\<lparr>m_Via := Some ?vs\<rparr>" using assms(2) v by (simp add: add_own_via_def Let_def)
    then show ?thesis using v True by (simp add: add_own_via_def Let_def)
  next
    case False
    then have m': "m' = m\<lparr>m_Via := Some (ViaHeaders_Insert ?vs (own_via rnd local))\<rparr>"
      using assms(2) v by (simp add: add_own_via_def Let_def)
    have "ViaHeaders_TopMost (ViaHeaders_Insert ?vs (own_via rnd local)) = Some (own_via rnd local)"
      by (simp add: ViaHeaders_TopMost_last ViaHeaders_Insert_def)
    then show ?thesis using own_via_SentBy [of rnd local] assms(1) m' by (simp add: add_own_via_def)
  qed
qed

lemma add_own_via_contact:
  "add_own_via rnd local (m\<lparr>m_Contact := c\<rparr>) = bindR (add_own_via rnd local m) (\<lambda>x. Inr (x\<lparr>m_Contact := c\<rparr>))"
  by (auto simp: add_own_via_def Let_def split: option.split)

lemma add_own_contact_cases:
  assumes "add_own_contact local m = Inr (m', False)"
  obtains "m' = m" | x where "m' = m\<lparr>m_Contact := Some [x]\<rparr>"
proof (cases "m_Contact m = None \<or> m_Contact m = Some []")
  case True
  then have "bindR (NewContactHeaderFromString [] (''sip:'' @ local) []) (\<lambda>c. case c of
      None \<Rightarrow> Inr (m\<lparr>m_Contact := Some []\<rparr>, True)
    | Some x \<Rightarrow> Inr (m\<lparr>m_Contact := Some [x]\<rparr>, False)) = Inr (m', False)"
    using assms by (auto simp: add_own_contact_def ContactHeaders_Add_def)
  then show ?thesis
    using that(2) by (cases "NewContactHeaderFromString [] (''sip:'' @ local) []") (auto split: option.splits)
next
  case False
  then have "m' = m" using assms by (cases "m_Contact m") (simp_all add: add_own_contact_def)
  then show ?thesis by (rule that(1))
qed

lemma completed_again:
  assumes "Trim local blk = local" and "completed_message rnd local m = Inr (m', False)"
  shows "completed_message rnd' local m' = Inr (m', False)"
proof (cases "m_Request m")
  case True
  then obtain x where x: "add_own_via rnd local m = Inr x" "add_own_contact local x = Inr (m', False)"
    using assms(2) by (auto simp: completed_message_def bindR_def split: sum.splits)
  then have v: "add_own_via rnd' local x = Inr x" "m_Request x"
    using add_own_via_again [OF assms(1) x(1)] True by simp_all
  from x(2) show ?thesis
  proof (cases rule: add_own_contact_cases)
    case 1
    then show ?thesis using v x(2) by (simp add: completed_message_def)
  next
    case (2 c)
    then show ?thesis
      using v by (simp add: completed_message_def add_own_via_contact add_own_contact_def)
  qed
qed (use assms(2) in \<open>simp add: completed_message_def\<close>)

text \<open>
  C25: A message that was sent keeps what sending added to it, so a retransmission writes the
  same bytes to the same address and adds no second Via, whatever the random bytes are; the
  egress handlers leave the message alone and the address of the server has no blanks around it.
\<close>

theorem retransmission_same:
  assumes "\<And>x. ServeSIP mux LayerParserEgress x = Inr (x, None)"
    and "Trim (Address s) blk = Address s"
    and "WriteMessage mux compact resolve ok rnd s m = Inr ((s', m'), Sent udp w)"
  shows "s' = s \<and> WriteMessage mux compact resolve ok rnd' s m' = Inr ((s, m'), Sent udp w) \<and>
    message_write compact m' = Inr w"
proof -
  obtain nc where c: "completed_message rnd (Address s) m = Inr (m', nc)" and "\<not> nc" and s: "s' = s"
    using assms(3) by (auto simp: WriteMessage_def assms(1) bindR_def split: sum.splits if_splits option.splits prod.splits)
  then have "completed_message rnd' (Address s) m' = Inr (m', False)"
    using completed_again [OF assms(2)] by simp
  then show ?thesis
    using assms(3) c \<open>\<not> nc\<close> s
    by (auto simp: WriteMessage_def assms(1) bindR_def split: sum.splits option.splits if_splits)
qed

definition sample_server_state :: srv where
  "sample_server_state = newServer ''p.net:5060'' [] []"

theorem retransmission_same_witness:
  "\<exists>m' udp w. WriteMessage [] False Some True (Some ''abc'') sample_server_state sample_invite
      = Inr ((sample_server_state, m'), Sent udp w) \<and>
    WriteMessage [] False Some True None sample_server_state m' = Inr ((sample_server_state, m'), Sent udp w) \<and>
    map_option length (m_Via m') = Some 2"
proof -
  let ?s = sample_server_state
  have "ServeSIP [] LayerParserEgress x = Inr (x, None)" for x :: "srv \<times> message" by (simp add: ServeSIP_def)
  moreover have "Trim (Address ?s) blk = Address ?s" by code_simp
  moreover have "case WriteMessage [] False Some True (Some ''abc'') ?s sample_invite of
      Inr ((s', m'), Sent udp w) \<Rightarrow> map_option length (m_Via m') = Some 2 | _ \<Rightarrow> False" by code_simp
  then obtain s' m' udp w where
    "WriteMessage [] False Some True (Some ''abc'') ?s sample_invite = Inr ((s', m'), Sent udp w)"
    "map_option length (m_Via m') = Some 2"
    by (auto split: sum.splits prod.splits write_end.splits)
  ultimately show ?thesis using retransmission_same [of "[]" ?s False Some True "Some ''abc''" sample_invite s' m' udp w None] by auto
qed

section \<open>A response and its transaction\<close>

definition set_ctx :: "ctx \<Rightarrow> message \<Rightarrow> message" where
  "set_ctx c m = m\<lparr>m_ctx := Some c\<rparr>"

lemma parseHeader_ctx: "parseHeader (set_ctx c x) = bindR (parseHeader x) (\<lambda>m. Inr (set_ctx c m))"
  by (simp add: parseHeader_def set_ctx_def Let_def bindR_def split: sum.split)

lemma read_first_line_ctx:
  "read_first_line l (set_ctx c x) = bindR (read_first_line l x) (\<lambda>r. Inr (map_sum id (set_ctx c) r))"
  by (auto simp: read_first_line_def set_ctx_def bindR_def split: sum.split option.split prod.split)

lemma readMessage_ctx:
  "readMessage B (set_ctx c x) s = bindR (readMessage B x s) (\<lambda>r. Inr (map_sum id (set_ctx c) r))"
proof -
  have h: "(set_ctx c y)\<lparr>m_Header := h\<rparr> = set_ctx c (y\<lparr>m_Header := h\<rparr>)"
    "(set_ctx c y)\<lparr>m_Body := b, m_ContentLength := n\<rparr> = set_ctx c (y\<lparr>m_Body := b, m_ContentLength := n\<rparr>)" for y h b n
    by (simp_all add: set_ctx_def)
  show ?thesis
    by (auto simp: readMessage_def read_first_line_ctx h parseHeader_ctx Let_def bindR_def
        split: sum.split option.split prod.split)
qed

lemma client_key_cong:
  assumes "m_Via a = m_Via b" and "m_CSeq a = m_CSeq b"
  shows "GenerateClientTransactionKey a = GenerateClientTransactionKey b"
proof -
  have c: "GetTopMostVia a = GetTopMostVia b" "GetCSeq a = GetCSeq b"
    using assms by (simp_all add: GetTopMostVia_def GetCSeq_def)
  show ?thesis unfolding GenerateClientTransactionKey_def c ..
qed

text \<open>
  C24: A request of a new client transaction is written and read by the next hop; any response
  with the Via list and the CSeq that arrived there, whatever its status, To tag, Contact and
  body are, is read back by the server and handed to the transaction it has under the key of
  the new one.
\<close>

theorem response_reaches_transaction:
  assumes "NewClientTransaction invite rnd s msg f = Inr (m, Some t)"
    and "message_wf m" and "request_line_wf m" and "body_wf B m"
    and "message_wf r" and "status_line_wf r" and "body_wf B r"
    and "m_Via r = m_Via (arrived a m)" and "m_CSeq r = m_CSeq (arrived a m)"
    and "lookupClientTransaction (c_Key t) s' = Some t'"
    and "\<And>x. ServeSIP mux LayerSocket x = Inr (x, None)" and "\<And>x. ServeSIP mux LayerParserIngress x = Inr (x, None)"
  shows "\<exists>w w' x. message_write False m = Inr w \<and> readMessage B (CreateMessage a) w = Inr (Inr (arrived a m)) \<and>
    message_write False r = Inr w' \<and> packetProcessing mux B c w' addr s' = Inr (s', HandleClient t' x) \<and>
    (m_StatusCode x, m_Via x, m_To x, m_Body x) = (m_StatusCode r, m_Via m, m_To r, m_Body r)"
proof -
  have key: "GenerateClientTransactionKey m = Inr (Inr (c_Key t))"
    using assms(1) by (auto simp: NewClientTransaction_def Let_def bindR_def newClientTransaction_def split: sum.splits)
  obtain w where w: "message_write False m = Inr w" "readMessage B (CreateMessage a) w = Inr (Inr (arrived a m))"
    using request_read_back [OF assms(2,4,3)] by blast
  obtain w' where w': "message_write False r = Inr w'"
    "readMessage B (CreateMessage addr) w' = Inr (Inr ((arrived addr r)\<lparr>m_ReasonPhrase := reason_text r\<rparr>))"
    using response_read_back [OF assms(5,7,6)] by blast
  let ?x = "set_ctx c ((arrived addr r)\<lparr>m_ReasonPhrase := reason_text r\<rparr>)"
  have x: "m_Via ?x = m_Via m" "m_CSeq ?x = m_CSeq m" "m_Request ?x = False" "m_Response ?x"
    using assms(6,8,9) by (simp_all add: set_ctx_def arrived_def status_line_wf_def)
  have "GenerateClientTransactionKey ?x = Inr (Inr (c_Key t))"
    using key client_key_cong [OF x(1,2)] by simp
  then have "packet_key s' ?x = Inr (Inr (None, Some t'))"
    using x assms(10) by (simp add: packet_key_def)
  then have "packetProcessing mux B c w' addr s' = Inr (s', HandleClient t' ?x)"
    using w'(2) readMessage_ctx [of B c "CreateMessage addr" w']
    by (simp add: packetProcessing_def assms(11,12) flip: set_ctx_def)
  moreover have "(m_StatusCode ?x, m_Via ?x, m_To ?x, m_Body ?x) = (m_StatusCode r, m_Via m, m_To r, m_Body r)"
    using x(1) by (simp add: set_ctx_def arrived_def)
  ultimately show ?thesis using w w' by blast
qed

definition sample_reply :: "via_headers option \<Rightarrow> message" where
  "sample_reply vs = (CreateMessage ''p.net:5060'')\<lparr>m_Response := True, m_StatusCode := 180, m_Via := vs,
     m_CSeq := Some \<lparr>cs_Sequence = 314, cs_Method = ''INVITE''\<rparr>\<rparr>"

theorem response_reaches_transaction_witness:
  "\<exists>m t w' x. NewClientTransaction True (Some ''abc'') sample_server_state sample_invite True = Inr (m, Some t) \<and>
    message_write False (sample_reply (m_Via m)) = Inr w' \<and>
    packetProcessing [] (\<lambda>s. 0) Background w' ''n:1'' (AddClientTransaction (c_Key t) t sample_server_state)
      = Inr (AddClientTransaction (c_Key t) t sample_server_state, HandleClient t x)"
proof -
  let ?s = sample_server_state
  have "case NewClientTransaction True (Some ''abc'') ?s sample_invite True of
      Inr (m, Some t) \<Rightarrow> message_wf m \<and> request_line_wf m \<and> body_wf (\<lambda>s. 0) m \<and>
        message_wf (sample_reply (m_Via m)) \<and> status_line_wf (sample_reply (m_Via m)) \<and>
        body_wf (\<lambda>s. 0) (sample_reply (m_Via m)) \<and> m_CSeq (sample_reply (m_Via m)) = m_CSeq m
    | _ \<Rightarrow> False" by code_simp
  then obtain m t where n: "NewClientTransaction True (Some ''abc'') ?s sample_invite True = Inr (m, Some t)"
    and w: "message_wf m" "request_line_wf m" "body_wf (\<lambda>s. 0) m" "message_wf (sample_reply (m_Via m))"
      "status_line_wf (sample_reply (m_Via m))" "body_wf (\<lambda>s. 0) (sample_reply (m_Via m))"
      "m_CSeq (sample_reply (m_Via m)) = m_CSeq m"
    by (auto split: sum.splits option.splits prod.splits)
  have "m_Via (sample_reply (m_Via m)) = m_Via (arrived ''h'' m)" "m_CSeq (sample_reply (m_Via m)) = m_CSeq (arrived ''h'' m)"
    using w(7) by (simp_all add: sample_reply_def arrived_def)
  moreover have "lookupClientTransaction (c_Key t) (AddClientTransaction (c_Key t) t ?s) = Some t"
    by (simp add: client_table.lookup_put)
  ultimately show ?thesis
    using response_reaches_transaction [OF n w(1-3) w(4-6), of "''h''" "AddClientTransaction (c_Key t) t ?s" t "[]" Background "''n:1''"] n
    by (auto simp: ServeSIP_def)
qed

end
