(* ===== verification/Routing.thy ===== *)
theory Routing
  imports Sip_Prelude
begin

text \<open>
  \<open>src/proxy_routing.go\<close>: the prefix trie that maps called numbers to next hops, and the
  loading of the table. The trie of the code is keyed by runes; on valid UTF-8 a trie of
  bytes finds the same entries, and strings are byte lists here. A node of the code has a
  pointer to its parent: the search carries the list of the ancestors, nearest first, and a
  node that is found comes with its depth. A removed node is cut off its parent, so that the
  nil map it is left with is out of reach.
\<close>

record fwd =
  fwd_Addr :: string
  fwd_Domain :: string

datatype trie = Trie (tr_prefix: string) (tr_fwd: "fwd option") (tr_children: "(char \<times> trie) list")

definition NewPrefixTrie :: trie where
  "NewPrefixTrie = Trie [] None []"

fun trie_add :: "string \<Rightarrow> string \<Rightarrow> fwd \<Rightarrow> trie \<Rightarrow> trie" where
  "trie_add pfx [] f (Trie p g cs) = Trie pfx (Some f) cs"
| "trie_add pfx (r # s) f (Trie p g cs) =
     Trie p g (AList.update r
       (trie_add pfx s f (case map_of cs r of None \<Rightarrow> NewPrefixTrie | Some c \<Rightarrow> c)) cs)"

definition trie_Add :: "string \<Rightarrow> fwd \<Rightarrow> trie \<Rightarrow> trie" where
  "trie_Add pfx f t = trie_add pfx pfx f t"

text \<open>From a node, given with its ancestors, up to the first one with an entry.\<close>

fun SearchToTop :: "trie list \<Rightarrow> (nat \<times> trie) option" where
  "SearchToTop [] = None"
| "SearchToTop (t # anc) = (if tr_fwd t = None then SearchToTop anc else Some (length anc, t))"

fun trie_search :: "trie list \<Rightarrow> trie \<Rightarrow> string \<Rightarrow> (nat \<times> trie) option" where
  "trie_search anc t [] = SearchToTop (t # anc)"
| "trie_search anc t (r # s) =
     (case map_of (tr_children t) r of
        None \<Rightarrow> SearchToTop (t # anc)
      | Some c \<Rightarrow> trie_search (t # anc) c s)"

definition trie_Search :: "trie \<Rightarrow> string \<Rightarrow> trie option" where
  "trie_Search t s = map_option snd (trie_search [] t s)"

section \<open>Removal\<close>

fun trie_at :: "string \<Rightarrow> (trie \<Rightarrow> trie) \<Rightarrow> trie \<Rightarrow> trie" where
  "trie_at [] g t = g t"
| "trie_at (r # s) g (Trie p f cs) =
     (case map_of cs r of
        None \<Rightarrow> Trie p f cs
      | Some c \<Rightarrow> Trie p f (AList.update r (trie_at s g c) cs))"

definition clear_fwd :: "trie \<Rightarrow> trie" where
  "clear_fwd t = Trie (tr_prefix t) None (tr_children t)"

definition delete_child :: "char \<Rightarrow> trie \<Rightarrow> trie" where
  "delete_child r t = Trie (tr_prefix t) (tr_fwd t) (AList.delete r (tr_children t))"

text \<open>
  When nothing matches, the nil result of the search is dereferenced; so is the nil parent
  of the root, when the root is what is removed and has no children.
\<close>

definition trie_Remove :: "string \<Rightarrow> trie \<Rightarrow> (fwd option \<times> trie) run" where
  "trie_Remove s t =
     bindR (deref (trie_search [] t s)) (\<lambda>(d, pp).
       if tr_prefix pp \<noteq> s then Inr (None, t)
       else
         (let t1 = trie_at (take d s) clear_fwd t in
          if tr_children pp \<noteq> [] then Inr (tr_fwd pp, t1)
          else if d = 0 then Inl NilDereference
          else Inr (tr_fwd pp, trie_at (take (d - 1) s) (delete_child (last s)) t1)))"

section \<open>Loading\<close>

text \<open>
  The records are those the CSV reader delivers before its end or its first error, which are
  treated alike. A record without three fields stops the loading; what was added stays.
\<close>

fun load_records :: "string list list \<Rightarrow> trie \<Rightarrow> bool \<times> trie" where
  "load_records [] t = (True, t)"
| "load_records (line # ls) t =
     (case line of
        [pfx, addr, domain] \<Rightarrow> load_records ls (trie_Add pfx \<lparr>fwd_Addr = addr, fwd_Domain = domain\<rparr> t)
      | _ \<Rightarrow> (False, t))"

definition loadTranslater :: "trie option \<Rightarrow> string list list \<Rightarrow> bool \<times> trie" where
  "loadTranslater translater ls =
     load_records ls (case translater of None \<Rightarrow> NewPrefixTrie | Some t \<Rightarrow> t)"

definition resolveDomain :: "string \<Rightarrow> string" where
  "resolveDomain s = s"

text \<open>\<open>Dump\<close> logs the entries; here they are a list, in the order of the log.\<close>

fun trie_Dump :: "trie \<Rightarrow> (string \<times> fwd) list" where
  "trie_Dump (Trie p f cs) =
     (case f of None \<Rightarrow> [] | Some x \<Rightarrow> [(p, x)]) @ concat (map (\<lambda>rc. trie_Dump (snd rc)) cs)"

section \<open>The table a trie stands for\<close>

fun node_at :: "trie \<Rightarrow> string \<Rightarrow> trie option" where
  "node_at t [] = Some t"
| "node_at t (r # s) = (case map_of (tr_children t) r of None \<Rightarrow> None | Some c \<Rightarrow> node_at c s)"

definition routes :: "trie \<Rightarrow> string \<Rightarrow> fwd option" where
  "routes t s = (case node_at t s of None \<Rightarrow> None | Some n \<Rightarrow> tr_fwd n)"

lemma routes_simps [simp]:
  "routes t [] = tr_fwd t"
  "routes t (r # s) = (case map_of (tr_children t) r of None \<Rightarrow> None | Some c \<Rightarrow> routes c s)"
  by (simp_all add: routes_def split: option.split)

definition longest_match :: "(string \<Rightarrow> fwd option) \<Rightarrow> string \<Rightarrow> fwd option" where
  "longest_match m s =
     (case filter (\<lambda>p. m p \<noteq> None) (rev (prefixes s)) of [] \<Rightarrow> None | p # _ \<Rightarrow> m p)"

lemma head_of_filter: "filter P xs = p # ps \<Longrightarrow> P p"
  by (drule filter_eq_ConsD) auto

lemma longest_match_None: "longest_match m s = None \<longleftrightarrow> (\<forall>p. prefix p s \<longrightarrow> m p = None)"
proof (cases "filter (\<lambda>p. m p \<noteq> None) (rev (prefixes s))")
  case Nil
  then have "\<forall>p \<in> set (prefixes s). m p = None" by (simp only: filter_empty_conv set_rev) blast
  then show ?thesis using Nil by (simp add: longest_match_def)
next
  case (Cons p ps)
  then have "p \<in> set (filter (\<lambda>p. m p \<noteq> None) (rev (prefixes s)))" by (simp only: list.set_intros)
  then have "prefix p s" "m p \<noteq> None" by simp_all
  then show ?thesis using Cons by (auto simp: longest_match_def simp del: not_None_eq)
qed

lemma longest_match_Nil [simp]: "longest_match m [] = m []"
  by (simp add: longest_match_def)

lemma longest_match_Cons [simp]:
  "longest_match m (r # s) =
     (case longest_match (\<lambda>p. m (r # p)) s of Some f \<Rightarrow> Some f | None \<Rightarrow> m [])"
proof -
  let ?ps = "filter (\<lambda>p. m (r # p) \<noteq> None) (rev (prefixes s))"
  have "filter (\<lambda>p. m p \<noteq> None) (rev (prefixes (r # s))) = map ((#) r) ?ps @ (if m [] = None then [] else [[]])"
    by (simp add: rev_map filter_map o_def)
  then have l: "longest_match m (r # s) = (case map ((#) r) ?ps @ (if m [] = None then [] else [[]]) of
      [] \<Rightarrow> None | p # _ \<Rightarrow> m p)"
    unfolding longest_match_def by (simp only:)
  show ?thesis
  proof (cases ?ps)
    case Nil
    then show ?thesis unfolding l by (simp add: longest_match_def)
  next
    case (Cons p ps)
    then have "m (r # p) \<noteq> None" by (rule head_of_filter)
    then show ?thesis unfolding l Cons by (auto simp: longest_match_def Cons simp del: not_None_eq)
  qed
qed

lemma longest_match_longest:
  assumes "longest_match m s = Some f"
  obtains p where "prefix p s" "m p = Some f" "\<And>q. prefix q s \<Longrightarrow> m q \<noteq> None \<Longrightarrow> length q \<le> length p"
  using assms
proof (induction s arbitrary: m thesis)
  case (Cons r s)
  show ?case
  proof (cases "longest_match (\<lambda>p. m (r # p)) s")
    case None
    have "q = []" if q: "prefix q (r # s)" "m q \<noteq> None" for q
    proof (rule ccontr)
      assume "q \<noteq> []"
      then obtain q' where q': "q = r # q'" "prefix q' s" using q(1) by (cases q) auto
      then show False using None q(2) by (auto simp: longest_match_None)
    qed
    then show thesis using Cons.prems None by (intro Cons.prems(1) [of "[]"]) auto
  next
    case (Some g)
    then obtain p where p: "prefix p s" "m (r # p) = Some f"
      "\<And>q. prefix q s \<Longrightarrow> m (r # q) \<noteq> None \<Longrightarrow> length q \<le> length p"
      using Cons.IH [of "\<lambda>p. m (r # p)"] Cons.prems(2) by auto
    show thesis
    proof (rule Cons.prems(1) [of "r # p"])
      show "length q \<le> length (r # p)" if "prefix q (r # s)" "m q \<noteq> None" for q
        using that p(3) by (cases q) auto
    qed (use p in auto)
  qed
qed auto

end
