(* ===== verification/Routing_Props.thy ===== *)
theory Routing_Props
  imports Routing
begin

text \<open>
  The routing trie implements a table of prefixes: adding and removing are updates of the
  table, and a search returns the entry of the longest prefix. The proofs look at a trie
  through \<open>info\<close>, the prefix and entry of the node at a path.
\<close>

definition info :: "trie \<Rightarrow> string \<Rightarrow> (string \<times> fwd option) option" where
  "info t s = map_option (\<lambda>n. (tr_prefix n, tr_fwd n)) (node_at t s)"

lemma info_simps [simp]:
  "info t [] = Some (tr_prefix t, tr_fwd t)"
  "info t (r # s) = (case map_of (tr_children t) r of None \<Rightarrow> None | Some c \<Rightarrow> info c s)"
  by (simp_all add: info_def split: option.split)

lemma routes_info: "routes t s = (case info t s of None \<Rightarrow> None | Some (_, f) \<Rightarrow> f)"
  by (simp add: routes_def info_def split: option.split)

definition prefixes_ok :: "trie \<Rightarrow> bool" where
  "prefixes_ok t \<longleftrightarrow> (\<forall>s p f. info t s = Some (p, Some f) \<longrightarrow> p = s)"

lemma NewPrefixTrie_simps [simp]:
  "tr_fwd NewPrefixTrie = None" "tr_children NewPrefixTrie = []" "tr_prefix NewPrefixTrie = []"
  by (simp_all add: NewPrefixTrie_def)

section \<open>Adding and searching\<close>

lemma info_empty: "info NewPrefixTrie s = (if s = [] then Some ([], None) else None)"
  by (cases s) simp_all

lemma info_add:
  "info (trie_add pfx s f t) q = (if q = s then Some (pfx, Some f)
     else if prefix q s \<and> info t q = None then Some ([], None) else info t q)"
proof (induction pfx s f t arbitrary: q rule: trie_add.induct)
  case (1 p f p' g cs)
  show ?case by (cases q) auto
next
  case (2 p r s f p' g cs)
  show ?case
  proof (cases q)
    case (Cons x q')
    then show ?thesis
      using 2 [of q'] by (auto simp: update_conv' info_empty split: option.split if_splits)
  qed simp
qed

lemma routes_add: "routes (trie_Add p f t) q = (if q = p then Some f else routes t q)"
  by (auto simp: routes_info trie_Add_def info_add)

lemma prefixes_ok_add: "prefixes_ok t \<Longrightarrow> prefixes_ok (trie_Add p f t)"
  by (auto simp: prefixes_ok_def trie_Add_def info_add split: if_splits)

lemma routes_empty [simp]: "routes NewPrefixTrie s = None"
  by (simp add: routes_info info_empty)

lemma prefixes_ok_empty [simp]: "prefixes_ok NewPrefixTrie"
  by (simp add: prefixes_ok_def info_empty)

definition found_fwd :: "(nat \<times> trie) option \<Rightarrow> fwd option option" where
  "found_fwd r = map_option (\<lambda>n. tr_fwd (snd n)) r"

lemma found_SearchToTop: "found_fwd (SearchToTop (t # anc)) =
    (case tr_fwd t of None \<Rightarrow> found_fwd (SearchToTop anc) | Some f \<Rightarrow> Some (Some f))"
  by (simp add: found_fwd_def split: option.split)

lemma search_longest:
  "found_fwd (trie_search anc t s) =
     (case longest_match (routes t) s of None \<Rightarrow> found_fwd (SearchToTop anc) | Some f \<Rightarrow> Some (Some f))"
proof (induction anc t s rule: trie_search.induct)
  case (1 anc t)
  show ?case by (simp only: trie_search.simps found_SearchToTop longest_match_Nil routes_simps)
next
  case (2 anc t r s)
  show ?case
  proof (cases "map_of (tr_children t) r")
    case None
    have "longest_match (\<lambda>p. None) s = (None :: fwd option)" by (simp add: longest_match_None)
    then show ?thesis using None found_SearchToTop [of t anc] by simp
  next
    case (Some c)
    have "(\<lambda>p. routes t (r # p)) = routes c" using Some by (simp add: fun_eq_iff)
    then show ?thesis using 2 [OF Some] Some found_SearchToTop [of t anc]
      by (auto split: option.split)
  qed
qed

lemma Search_longest: "map_option tr_fwd (trie_Search t s) = map_option Some (longest_match (routes t) s)"
  using search_longest [of "[]" t s]
  by (auto simp: trie_Search_def found_fwd_def option.map_comp o_def split: option.splits)

section \<open>Listing\<close>

fun distinct_trie :: "trie \<Rightarrow> bool" where
  "distinct_trie (Trie p f cs) \<longleftrightarrow> distinct (map fst cs) \<and> list_all (\<lambda>rc. distinct_trie (snd rc)) cs"

lemma distinct_trie_empty [simp]: "distinct_trie NewPrefixTrie"
  by (simp add: NewPrefixTrie_def)

lemma list_all_update:
  "list_all (\<lambda>e. P (snd e)) cs \<Longrightarrow> P v \<Longrightarrow> list_all (\<lambda>e. P (snd e)) (AList.update k v cs)"
  by (induction cs) auto

lemma distinct_trie_add: "distinct_trie t \<Longrightarrow> distinct_trie (trie_add pfx s f t)"
proof (induction pfx s f t rule: trie_add.induct)
  case (2 p r s f p' g cs)
  have "distinct_trie c" if "map_of cs r = Some c" for c
    using 2(2) map_of_SomeD [OF that] by (auto simp: list_all_iff)
  then show ?case
    using 2 by (auto simp: distinct_update Let_def intro!: list_all_update split: option.split)
qed simp

lemma trie_Dump_info: "distinct_trie t \<Longrightarrow> (p, f) \<in> set (trie_Dump t) \<longleftrightarrow> (\<exists>s. info t s = Some (p, Some f))"
proof (induction t rule: trie_Dump.induct)
  case (1 q g cs)
  have child: "map_of cs r = Some c \<longleftrightarrow> (r, c) \<in> set cs" for r c
    using 1(2) by simp
  have "(p, f) \<in> set (trie_Dump (Trie q g cs)) \<longleftrightarrow>
      q = p \<and> g = Some f \<or> (\<exists>r c. (r, c) \<in> set cs \<and> (p, f) \<in> set (trie_Dump c))"
  proof -
    have "(\<exists>rc \<in> set cs. (p, f) \<in> set (trie_Dump (snd rc))) \<longleftrightarrow> (\<exists>r c. (r, c) \<in> set cs \<and> (p, f) \<in> set (trie_Dump c))"
      by force
    then show ?thesis by (auto split: option.split)
  qed
  also have "\<dots> \<longleftrightarrow> q = p \<and> g = Some f \<or> (\<exists>r c. (r, c) \<in> set cs \<and> (\<exists>s. info c s = Some (p, Some f)))"
    using 1 by (fastforce simp: list_all_iff)
  also have "\<dots> \<longleftrightarrow> (\<exists>s. info (Trie q g cs) s = Some (p, Some f))"
  proof
    assume "\<exists>s. info (Trie q g cs) s = Some (p, Some f)"
    then obtain s where s: "info (Trie q g cs) s = Some (p, Some f)" ..
    show "q = p \<and> g = Some f \<or> (\<exists>r c. (r, c) \<in> set cs \<and> (\<exists>s. info c s = Some (p, Some f)))"
      using s child by (cases s) (auto split: option.splits)
  next
    assume "q = p \<and> g = Some f \<or> (\<exists>r c. (r, c) \<in> set cs \<and> (\<exists>s. info c s = Some (p, Some f)))"
    then show "\<exists>s. info (Trie q g cs) s = Some (p, Some f)"
    proof (elim disjE exE conjE)
      fix r c s assume rc: "(r, c) \<in> set cs" and "info c s = Some (p, Some f)"
      moreover have "map_of cs r = Some c" using rc unfolding child .
      ultimately have "info (Trie q g cs) (r # s) = Some (p, Some f)" by simp
      then show ?thesis ..
    qed (auto intro: exI [of _ "[]"])
  qed
  finally show ?case .
qed

lemma trie_Dump_routes: "distinct_trie t \<Longrightarrow> prefixes_ok t \<Longrightarrow> set (trie_Dump t) = {(p, f). routes t p = Some f}"
proof -
  assume d: "distinct_trie t" and ok: "prefixes_ok t"
  have "(p, f) \<in> set (trie_Dump t) \<longleftrightarrow> routes t p = Some f" for p f
  proof
    assume "(p, f) \<in> set (trie_Dump t)"
    then obtain s where s: "info t s = Some (p, Some f)" using trie_Dump_info [OF d] by blast
    then have "p = s" using ok by (simp add: prefixes_ok_def)
    then show "routes t p = Some f" using s by (simp add: routes_info)
  next
    assume r: "routes t p = Some f"
    then obtain q where q: "info t p = Some (q, Some f)" by (auto simp: routes_info split: option.splits prod.splits)
    then have "q = p" using ok by (simp add: prefixes_ok_def)
    then show "(p, f) \<in> set (trie_Dump t)" using q trie_Dump_info [OF d] by blast
  qed
  then show ?thesis by auto
qed

section \<open>Removing\<close>

lemma search_depth:
  "trie_search anc t s = Some (d, n) \<Longrightarrow>
     (length anc \<le> d \<and> d - length anc \<le> length s \<and> node_at t (take (d - length anc) s) = Some n \<and> tr_fwd n \<noteq> None)
     \<or> SearchToTop anc = Some (d, n)"
proof (induction anc t s rule: trie_search.induct)
  case (2 anc t r s)
  show ?case
  proof (cases "map_of (tr_children t) r")
    case None
    then show ?thesis using 2(2) by (auto split: if_splits)
  next
    case (Some c)
    from 2(1) [OF Some] 2(2) Some
    consider (below) "Suc (length anc) \<le> d" "d - Suc (length anc) \<le> length s"
        "node_at c (take (d - Suc (length anc)) s) = Some n" "tr_fwd n \<noteq> None"
      | (above) "SearchToTop (t # anc) = Some (d, n)" by auto
    then show ?thesis
    proof cases
      case below
      then have "d - length anc = Suc (d - Suc (length anc))" by simp
      then show ?thesis using below Some by (auto simp del: not_None_eq)
    qed (auto split: if_splits)
  qed
qed (auto split: if_splits)

lemma clear_fwd_simps [simp]:
  "tr_prefix (clear_fwd t) = tr_prefix t" "tr_fwd (clear_fwd t) = None" "tr_children (clear_fwd t) = tr_children t"
  by (simp_all add: clear_fwd_def)

lemma delete_child_simps [simp]:
  "tr_prefix (delete_child r t) = tr_prefix t" "tr_fwd (delete_child r t) = tr_fwd t"
  "tr_children (delete_child r t) = AList.delete r (tr_children t)"
  by (simp_all add: delete_child_def)

lemma node_at_trie_at: "node_at (trie_at s g t) s = map_option g (node_at t s)"
  by (induction s g t rule: trie_at.induct) (auto simp: update_conv' split: option.split)

lemma info_trie_at:
  "info (trie_at s g t) q = (if prefix s q then (case node_at t s of
      None \<Rightarrow> info t q | Some n \<Rightarrow> info (g n) (drop (length s) q)) else info t q)"
proof (induction s g t arbitrary: q rule: trie_at.induct)
  case (2 r s g p f cs)
  show ?case
  proof (cases q)
    case (Cons x q')
    show ?thesis
    proof (cases "map_of cs r")
      case None
      then show ?thesis using Cons by (cases "r = x") auto
    next
      case (Some c)
      then show ?thesis using Cons 2 [OF Some, of q'] by (auto simp: update_conv' split: option.split)
    qed
  qed (simp split: option.split)
qed simp

lemma info_clear: "info (clear_fwd n) q = (if q = [] then Some (tr_prefix n, None) else info n q)"
  by (cases q) (simp_all add: clear_fwd_def)

lemma info_delete_child: "info (delete_child r n) q = (if q \<noteq> [] \<and> hd q = r then None else info n q)"
  by (cases q) (auto simp: delete_conv')

lemma node_at_append: "node_at t (a @ b) = (case node_at t a of None \<Rightarrow> None | Some n \<Rightarrow> node_at n b)"
  by (induction t a rule: node_at.induct) (auto split: option.split)

lemma info_append: "info t (a @ b) = (case node_at t a of None \<Rightarrow> None | Some n \<Rightarrow> info n b)"
  by (simp add: info_def node_at_append split: option.split)

lemma info_leaf: "tr_children n = [] \<Longrightarrow> q \<noteq> [] \<Longrightarrow> info n q = None"
  by (cases q) simp_all

lemma search_exact:
  "node_at t s = Some n \<Longrightarrow> tr_fwd n \<noteq> None \<Longrightarrow> trie_search anc t s = Some (length anc + length s, n)"
  by (induction anc t s rule: trie_search.induct) (auto split: option.splits)

lemma remove_found:
  assumes "prefixes_ok t" and "trie_search [] t s = Some (d, n)"
  shows "routes t s = (if tr_prefix n = s then tr_fwd n else None) \<and> tr_fwd n \<noteq> None \<and>
    (tr_prefix n = s \<longrightarrow> d = length s \<and> node_at t s = Some n)"
proof (cases "node_at t s")
  case None
  have d: "node_at t (take d s) = Some n" "tr_fwd n \<noteq> None" using search_depth [OF assms(2)] by auto
  then have "tr_prefix n = take d s" using assms(1) by (auto simp: prefixes_ok_def info_def)
  moreover have "take d s \<noteq> s" using d(1) None by auto
  ultimately show ?thesis using None d(2) by (simp add: routes_def)
next
  case (Some m)
  have d: "d \<le> length s" "node_at t (take d s) = Some n" "tr_fwd n \<noteq> None" using search_depth [OF assms(2)] by auto
  then have p: "tr_prefix n = take d s" using assms(1) by (auto simp: prefixes_ok_def info_def)
  show ?thesis
  proof (cases "tr_fwd m")
    case None
    then have "n \<noteq> m" using d(3) by auto
    then have "take d s \<noteq> s" using d(2) Some by auto
    then show ?thesis using p Some None d(3) by (simp add: routes_def)
  next
    case (Some f)
    then have "(d, n) = (length s, m)" using search_exact [OF \<open>node_at t s = Some m\<close>, of "[]"] assms(2) by simp
    then show ?thesis using p Some \<open>node_at t s = Some m\<close> by (simp add: routes_def)
  qed
qed

lemma info_cleared:
  "node_at t s = Some n \<Longrightarrow> info (trie_at s clear_fwd t) q = (if q = s then Some (tr_prefix n, None) else info t q)"
  by (auto simp: info_trie_at info_clear prefix_def info_append)

lemma info_pruned:
  assumes "node_at t s = Some n" and "tr_children n = []" and "s \<noteq> []"
  shows "info (trie_at (butlast s) (delete_child (last s)) t) q = (if q = s then None else info t q)"
proof -
  have s: "s = butlast s @ [last s]" using assms(3) by simp
  obtain m where m: "node_at t (butlast s) = Some m" "node_at m [last s] = Some n"
    using assms(1) node_at_append [of t "butlast s" "[last s]"] s by (auto split: option.splits)
  show ?thesis
  proof (cases "prefix (butlast s) q")
    case True
    then obtain q' where q: "q = butlast s @ q'" by (auto simp: prefix_def)
    have i: "info t q = info m q'" using m(1) by (simp add: q info_append)
    have e: "q = s \<longleftrightarrow> q' = [last s]" using s by (metis q same_append_eq)
    show ?thesis
    proof (cases q')
      case Nil
      then show ?thesis using m(1) i e q by (simp add: info_trie_at info_delete_child)
    next
      case (Cons x q'')
      have "x = last s \<Longrightarrow> q'' \<noteq> [] \<Longrightarrow> info m q' = None"
        using m(2) info_leaf [OF assms(2), of q''] Cons by (auto split: option.splits)
      then show ?thesis using m(1) i e q Cons by (auto simp: info_trie_at info_delete_child delete_conv')
    qed
  next
    case False
    then have "q \<noteq> s" using s by (metis prefixI)
    then show ?thesis using False by (simp add: info_trie_at)
  qed
qed

lemma remove_effect:
  assumes "prefixes_ok t" and "routes t s = Some f" and "s \<noteq> [] \<or> tr_children t \<noteq> []"
  shows "\<exists>t'. trie_Remove s t = Inr (Some f, t') \<and>
    (\<forall>q. routes t' q = (if q = s then None else routes t q)) \<and> prefixes_ok t'"
proof -
  obtain n where n: "node_at t s = Some n" "tr_fwd n = Some f"
    using assms(2) by (auto simp: routes_def split: option.splits)
  have srch: "trie_search [] t s = Some (length s, n)" using search_exact [OF n(1), of "[]"] n(2) by simp
  have p: "tr_prefix n = s" using n assms(1) by (auto simp: prefixes_ok_def info_def)
  let ?t1 = "trie_at s clear_fwd t"
  have rem: "trie_Remove s t = (if tr_children n \<noteq> [] then Inr (Some f, ?t1)
      else Inr (Some f, trie_at (butlast s) (delete_child (last s)) ?t1))"
    using srch p n(2) assms(3) n(1) by (cases "s = []") (simp_all add: trie_Remove_def Let_def butlast_conv_take)
  have i1: "info ?t1 q = (if q = s then Some (s, None) else info t q)" for q
    using info_cleared [OF n(1)] p by simp
  have ok: "(\<forall>q. routes t' q = (if q = s then None else routes t q)) \<and> prefixes_ok t'"
    if "\<And>q. info t' q = (if q = s then x else info t q)" "x = None \<or> x = Some (s, None)" for t' x
    using that assms(1) by (auto simp: routes_info prefixes_ok_def split: if_splits)
  show ?thesis
  proof (cases "tr_children n = []")
    case True
    have m: "node_at ?t1 s = Some (clear_fwd n)" "tr_children (clear_fwd n) = []"
      using n(1) True by (simp_all add: node_at_trie_at)
    have "s \<noteq> []" using assms(3) True n(1) by auto
    then have "info (trie_at (butlast s) (delete_child (last s)) ?t1) q = (if q = s then None else info t q)" for q
      using info_pruned [OF m] i1 [of q] by simp
    then show ?thesis using rem True ok [of _ None] by auto
  next
    case False
    then show ?thesis using rem i1 ok [of ?t1 "Some (s, None)"] by auto
  qed
qed

section \<open>The table that is loaded\<close>

definition record_entry :: "string list \<Rightarrow> string \<times> fwd" where
  "record_entry line = (line ! 0, \<lparr>fwd_Addr = line ! 1, fwd_Domain = line ! 2\<rparr>)"

definition three_fields :: "string list \<Rightarrow> bool" where
  "three_fields line \<longleftrightarrow> length line = 3"

lemma load_records_routes:
  "fst (load_records ls t) = list_all three_fields ls \<and>
   routes (snd (load_records ls t)) q
     = (case map_of (rev (map record_entry (takeWhile three_fields ls))) q of None \<Rightarrow> routes t q | Some f \<Rightarrow> Some f) \<and>
   (prefixes_ok t \<longrightarrow> prefixes_ok (snd (load_records ls t)))"
proof (induction ls arbitrary: t)
  case (Cons line ls)
  show ?case
  proof (cases "three_fields line")
    case True
    then obtain a b c where l: "line = [a, b, c]"
      by (auto simp: three_fields_def numeral_3_eq_3 length_Suc_conv)
    then show ?thesis
      using Cons [of "trie_Add a \<lparr>fwd_Addr = b, fwd_Domain = c\<rparr> t"] True prefixes_ok_add
      by (auto simp: routes_add record_entry_def map_add_def split: option.splits)
  next
    case False
    then have "load_records (line # ls) t = (False, t)"
      by (auto simp: three_fields_def split: list.splits)
    then show ?thesis using False by simp
  qed
qed simp

text \<open>
  C20: The search in the table loaded from a list of records returns the entry of the longest
  of the loaded prefixes of the number, of two records with the same prefix the later one,
  and nil when no prefix is loaded; records are loaded up to the first one without three fields.
\<close>

theorem search_is_longest_prefix:
  "map_option tr_fwd (trie_Search (snd (loadTranslater None ls)) s)
     = map_option Some (longest_match (map_of (rev (map record_entry (takeWhile three_fields ls)))) s) \<and>
   fst (loadTranslater None ls) = list_all three_fields ls"
proof -
  let ?t = "snd (loadTranslater None ls)"
  have "routes ?t = map_of (rev (map record_entry (takeWhile three_fields ls)))"
    using load_records_routes [of ls NewPrefixTrie]
    by (auto simp: fun_eq_iff loadTranslater_def split: option.split)
  then show ?thesis
    using Search_longest [of ?t s] load_records_routes [of ls NewPrefixTrie] by (simp add: loadTranslater_def)
qed

lemma load_records_kept:
  "distinct_trie t \<and> prefixes_ok t \<Longrightarrow> distinct_trie (snd (load_records ls t)) \<and> prefixes_ok (snd (load_records ls t))"
proof (induction ls arbitrary: t)
  case (Cons line ls)
  then show ?case
    using distinct_trie_add prefixes_ok_add by (auto simp: trie_Add_def split: list.split)
qed simp

text \<open>
  The listing of the table loaded from a list of records has the loaded prefixes with their
  entries and nothing else, of two records with the same prefix the later one.
\<close>

theorem dump_lists_loaded:
  "set (trie_Dump (snd (loadTranslater None ls)))
     = {(p, f). map_of (rev (map record_entry (takeWhile three_fields ls))) p = Some f}"
proof -
  have "routes (snd (loadTranslater None ls)) = map_of (rev (map record_entry (takeWhile three_fields ls)))"
    using load_records_routes [of ls NewPrefixTrie]
    by (auto simp: fun_eq_iff loadTranslater_def split: option.split)
  moreover have "distinct_trie (snd (loadTranslater None ls)) \<and> prefixes_ok (snd (loadTranslater None ls))"
    using load_records_kept [of NewPrefixTrie ls] by (simp add: loadTranslater_def)
  ultimately show ?thesis using trie_Dump_routes by simp
qed

text \<open>
  C34: In a table with correct prefixes, as every loaded one has, removing a number that has an
  entry returns the entry and takes away this one alone; removing one that has none returns nil and
  changes nothing if a shorter prefix matches, and dereferences nil otherwise.
\<close>

theorem remove_route:
  assumes "prefixes_ok t" and "s \<noteq> [] \<or> tr_children t \<noteq> []"
  shows "prefixes_ok (snd (loadTranslater (Some t) ls)) \<and>
    (case (routes t s, longest_match (routes t) s) of
       (Some f, _) \<Rightarrow> (\<exists>t'. trie_Remove s t = Inr (Some f, t') \<and> prefixes_ok t' \<and>
          (\<forall>q. routes t' q = (if q = s then None else routes t q)))
     | (None, Some _) \<Rightarrow> trie_Remove s t = Inr (None, t)
     | (None, None) \<Rightarrow> trie_Remove s t = Inl NilDereference)"
proof
  show "prefixes_ok (snd (loadTranslater (Some t) ls))"
    using load_records_routes [of ls t] assms(1) by (simp add: loadTranslater_def)
  have none: "trie_Remove s t = (case longest_match (routes t) s of
      Some _ \<Rightarrow> Inr (None, t) | None \<Rightarrow> Inl NilDereference)" if r: "routes t s = None"
  proof (cases "trie_search [] t s")
    case None
    then show ?thesis
      using search_longest [of "[]" t s] by (simp add: trie_Remove_def found_fwd_def split: option.splits)
  next
    case (Some dn)
    obtain d n where dn: "dn = (d, n)" by (cases dn)
    then have "tr_prefix n \<noteq> s"
      using remove_found [OF assms(1), of s d n] Some r by auto
    moreover have "longest_match (routes t) s \<noteq> None"
      using search_longest [of "[]" t s] Some by (auto simp: found_fwd_def split: option.splits)
    ultimately show ?thesis using Some dn by (auto simp: trie_Remove_def)
  qed
  show "case (routes t s, longest_match (routes t) s) of
       (Some f, _) \<Rightarrow> (\<exists>t'. trie_Remove s t = Inr (Some f, t') \<and> prefixes_ok t' \<and>
          (\<forall>q. routes t' q = (if q = s then None else routes t q)))
     | (None, Some _) \<Rightarrow> trie_Remove s t = Inr (None, t)
     | (None, None) \<Rightarrow> trie_Remove s t = Inl NilDereference"
    using remove_effect [OF assms(1) _ assms(2)] none by (auto split: option.split)
qed

definition sample_routes :: trie where
  "sample_routes = snd (loadTranslater None [[''0312341234'', ''a'', ''a''], [''03'', ''b'', ''b''], [''06'', ''c'', ''c'']])"

theorem remove_route_witness:
  "(\<exists>t'. trie_Remove ''03'' sample_routes = Inr (Some \<lparr>fwd_Addr = ''b'', fwd_Domain = ''b''\<rparr>, t') \<and>
     routes t' ''0312341234'' = Some \<lparr>fwd_Addr = ''a'', fwd_Domain = ''a''\<rparr>) \<and>
   trie_Remove ''031'' sample_routes = Inr (None, sample_routes) \<and>
   trie_Remove ''07'' sample_routes = Inl NilDereference"
proof -
  have ok: "prefixes_ok sample_routes"
    by (simp add: sample_routes_def loadTranslater_def prefixes_ok_add)
  have v: "routes sample_routes ''03'' = Some \<lparr>fwd_Addr = ''b'', fwd_Domain = ''b''\<rparr>"
    "routes sample_routes ''0312341234'' = Some \<lparr>fwd_Addr = ''a'', fwd_Domain = ''a''\<rparr>"
    "routes sample_routes ''031'' = None" "routes sample_routes ''07'' = None"
    "longest_match (routes sample_routes) ''031'' = Some \<lparr>fwd_Addr = ''b'', fwd_Domain = ''b''\<rparr>"
    "longest_match (routes sample_routes) ''07'' = None" by code_simp+
  have "''03'' \<noteq> ''0312341234''" by simp
  then show ?thesis
    using remove_route [OF ok, of "''03''"] remove_route [OF ok, of "''031''"] remove_route [OF ok, of "''07''"] v
    by (auto simp del: routes_simps longest_match_Cons)
qed

end
