(* ===== verification/Auth.thy ===== *)
theory Auth
  imports Message
begin

text \<open>
  Digest authentication, from \<open>src/proxy_auth.go\<close>: the parameters of an authorization
  header, the comparison of the response and the records of the user table. \<open>md5hex\<close> is the
  hexadecimal MD5 of package \<open>crypto/md5\<close>, an argument; so are the rows the SQL query of a
  user returns. Header values are ASCII here (the loop of the code goes over runes).
\<close>

record auth_record =
  au_username :: string
  au_realm :: string
  au_nonce :: string
  au_a1md5 :: string
  au_nonceExpiredAt :: int

definition Expired :: "int \<Rightarrow> auth_record \<Rightarrow> bool" where
  "Expired now a \<longleftrightarrow> now > au_nonceExpiredAt a"

definition A1md5 :: "auth_record \<Rightarrow> string" where
  "A1md5 a = au_a1md5 a"

text \<open>The row is the first one of the query: nonce, a1md5 and expiry, None when there is none.\<close>

definition queryUser :: "(string \<Rightarrow> string \<Rightarrow> (string \<times> string \<times> int) option) \<Rightarrow> string \<Rightarrow> string \<Rightarrow> auth_record option" where
  "queryUser select username realm =
     (case select username realm of
        None \<Rightarrow> None
      | Some (nonce, a1md5, expires) \<Rightarrow>
          Some \<lparr>au_username = username, au_realm = realm, au_nonce = nonce, au_a1md5 = a1md5,
            au_nonceExpiredAt = expires\<rparr>)"

definition queryA1md5 :: "(string \<Rightarrow> string \<Rightarrow> (string \<times> string \<times> int) option) \<Rightarrow> int \<Rightarrow> string \<Rightarrow> string \<Rightarrow> string" where
  "queryA1md5 select now username realm =
     (case queryUser select username realm of
        None \<Rightarrow> []
      | Some res \<Rightarrow> (if Expired now res then [] else A1md5 res))"

definition generateNonce :: "(string \<Rightarrow> string) \<Rightarrow> string option \<Rightarrow> int \<Rightarrow> string \<times> int" where
  "generateNonce md5hex rnd now =
     (case GenerateRandomString rnd of None \<Rightarrow> ([], 0) | Some r \<Rightarrow> (md5hex r, now + 60))"

definition calcA1md5 :: "(string \<Rightarrow> string) \<Rightarrow> string \<Rightarrow> string \<Rightarrow> string \<Rightarrow> string" where
  "calcA1md5 md5hex username realm password = md5hex (username @ '':'' @ realm @ '':'' @ password)"

section \<open>Loading the users\<close>

text \<open>
  How the database answers: whether it begins a transaction, takes a row, and commits.
  The rows to insert, or None when the transaction is rolled back: at the first record
  without three fields, without a realm, or without both a name and a password, and at the
  first row that is not taken.
\<close>

record user_db =
  ud_begin :: bool
  ud_insert :: "auth_record \<Rightarrow> bool"
  ud_commit :: bool

definition new_user :: "(string \<Rightarrow> string) \<Rightarrow> string \<Rightarrow> string \<Rightarrow> string \<Rightarrow> auth_record" where
  "new_user md5hex username password realm =
     \<lparr>au_username = username, au_realm = realm, au_nonce = [],
      au_a1md5 = calcA1md5 md5hex username realm password, au_nonceExpiredAt = 0\<rparr>"

fun import_records :: "(string \<Rightarrow> string) \<Rightarrow> (auth_record \<Rightarrow> bool) \<Rightarrow> string list list \<Rightarrow> auth_record list \<Rightarrow> auth_record list option" where
  "import_records md5hex ins [] acc = Some acc"
| "import_records md5hex ins (line # ls) acc =
     (case line of
        [username, password, realm] \<Rightarrow>
          (if username = [] \<and> password = [] \<or> realm = [] then None
           else if \<not> ins (new_user md5hex username password realm) then None
           else import_records md5hex ins ls (acc @ [new_user md5hex username password realm]))
      | _ \<Rightarrow> None)"

definition importSubscriber :: "(string \<Rightarrow> string) \<Rightarrow> user_db \<Rightarrow> string \<Rightarrow> string list list \<Rightarrow> auth_record list \<Rightarrow> bool \<times> auth_record list" where
  "importSubscriber md5hex ud filepath ls tbl =
     (if filepath = [] \<or> \<not> ud_begin ud then (False, tbl)
      else (case import_records md5hex (ud_insert ud) ls [] of
              None \<Rightarrow> (False, tbl)
            | Some rows \<Rightarrow> (if ud_commit ud then (True, tbl @ rows) else (False, tbl))))"

section \<open>The parameters of the header\<close>

definition digest_blk :: string where
  "digest_blk = '', '' @ [CHR 0x09, CHR 0x0D, CHR 0x0A]"

definition quote_char :: char where
  "quote_char = CHR 0x22"

text \<open>
  A parameter is what lies between \<open>cut\<close> and the current byte, which is not part of it;
  at the end of the text this byte is its last one.
\<close>

definition digest_param :: "string \<Rightarrow> kvs \<Rightarrow> kvs run" where
  "digest_param param result =
     (case SplitN (Trim param digest_blk) (CHR ''='') 2 of
        [k, v] \<Rightarrow> Inr (kv_add result (ToLower k) (Trim v [quote_char]))
      | _ \<Rightarrow> Inl IndexOutOfRange)"

text \<open>\<open>cur\<close> is \<open>rear[cut:i]\<close>, read so far.\<close>

fun digest_loop :: "string \<Rightarrow> bool \<Rightarrow> string \<Rightarrow> kvs \<Rightarrow> kvs run" where
  "digest_loop cur quot [] result = Inr result"
| "digest_loop cur quot (c # r) result =
     (if r = [] \<or> c = CHR '','' then
        (if quot \<and> \<not> (r = [] \<and> c = quote_char) then digest_loop (cur @ [c]) quot r result
         else bindR (digest_param cur result) (digest_loop [c] quot r))
      else digest_loop (cur @ [c]) (if c = quote_char then \<not> quot else quot) r result)"

text \<open>A header of another scheme is None; without a blank the second part is out of range.\<close>

definition ParseAuthorizationHeadlerDigest :: "string \<Rightarrow> kvs option run" where
  "ParseAuthorizationHeadlerDigest s0 =
     (case SplitN (Trim s0 digest_blk) (CHR '' '') 2 of
        [front, rear] \<Rightarrow>
          (if ToLower front \<noteq> ''digest'' then Inr None
           else bindR (digest_loop [] False rear []) (\<lambda>m. Inr (Some m)))
      | _ \<Rightarrow> Inl IndexOutOfRange)"

section \<open>Checking a request\<close>

definition StatusUnauthorized :: int where "StatusUnauthorized = 401"
definition StatusProxyAuthenticationRequired :: int where "StatusProxyAuthenticationRequired = 407"

definition auth_check :: "(string \<Rightarrow> string) \<Rightarrow> string \<Rightarrow> string \<Rightarrow> string \<Rightarrow> string \<Rightarrow> string \<Rightarrow> bool \<times> int" where
  "auth_check md5hex method nonce digestUri response a1 =
     (let a2 = md5hex (method @ '':'' @ digestUri);
          expect = md5hex (a1 @ '':'' @ nonce @ '':'' @ a2)
      in if response = expect then (True, 0) else (False, StatusUnauthorized))"

text \<open>The header map of a message is never nil; reading a nil map of parameters finds nothing.\<close>

definition authMessage :: "(string \<Rightarrow> string) \<Rightarrow> string \<Rightarrow> message \<Rightarrow> (string \<Rightarrow> string \<Rightarrow> string) \<Rightarrow> (bool \<times> int) run" where
  "authMessage md5hex header msg lookupFunc =
     (let err = (if header = ''Proxy-Authorization'' then StatusProxyAuthenticationRequired else StatusUnauthorized);
          authorization = hdr_Get (m_Header msg) header
      in if authorization = [] then Inr (False, err)
         else bindR (ParseAuthorizationHeadlerDigest authorization) (\<lambda>r.
           (let p = (case r of None \<Rightarrow> [] | Some p \<Rightarrow> p) in
            case (kv_values p ''username'', kv_values p ''realm'', kv_values p ''nonce'',
                kv_values p ''digest-uri'', kv_values p ''response'') of
              ([username], [realm], [nonce], [digestUri], [response]) \<Rightarrow>
                (if m_Method msg = [] then Inr (False, 400)
                 else
                   (let (ok, status) = auth_check md5hex (m_Method msg) nonce digestUri response
                          (lookupFunc username realm)
                    in Inr (ok, if status = StatusUnauthorized \<and> header = ''Proxy-Authorization''
                                then StatusProxyAuthenticationRequired else status)))
            | _ \<Rightarrow> Inr (False, 400))))"

end
