(* ===== verification/Auth_Props.thy ===== *)
theory Auth_Props
  imports Auth Message_Props
begin

text \<open>
  The properties of digest authentication: the parameters of a header in the usual form are
  read back, and a request is accepted exactly with the right response.
\<close>

definition digest_text :: "string \<times> string \<Rightarrow> string" where
  "digest_text kv = fst kv @ ''='' @ [quote_char] @ snd kv @ [quote_char]"

definition digest_wf :: "string \<times> string \<Rightarrow> bool" where
  "digest_wf kv \<longleftrightarrow> fst kv \<noteq> [] \<and> set (fst kv) \<inter> set (CHR ''='' # quote_char # digest_blk) = {}
     \<and> quote_char \<notin> set (snd kv) \<and> (snd kv \<noteq> [] \<longrightarrow> last (snd kv) \<notin> set digest_blk)"

definition digest_header :: "(string \<times> string) list \<Rightarrow> string" where
  "digest_header ps = ''Digest '' @ Join (map digest_text ps) '', ''"

definition digest_kvs :: "(string \<times> string) list \<Rightarrow> kvs \<Rightarrow> kvs" where
  "digest_kvs ps m = foldl (\<lambda>m kv. kv_add m (ToLower (fst kv)) (snd kv)) m ps"

lemma quote_facts: "quote_char \<noteq> CHR '',''" "quote_char \<noteq> CHR ''=''" "quote_char \<notin> set digest_blk"
  "CHR ''='' \<notin> set digest_blk" "CHR '','' \<in> set digest_blk" "CHR '' '' \<in> set digest_blk"
  by (simp_all add: quote_char_def digest_blk_def)

lemma digest_loop_plain:
  "quote_char \<notin> set xs \<Longrightarrow> quot \<or> CHR '','' \<notin> set xs \<Longrightarrow>
     digest_loop cur quot (xs @ c # r) result = digest_loop (cur @ xs) quot (c # r) result"
  by (induction xs arbitrary: cur) auto

lemma TrimLeft_blanks: "set a \<subseteq> set cs \<Longrightarrow> x \<notin> set cs \<Longrightarrow> TrimLeft (a @ x # b) cs = x # b"
  unfolding TrimLeft_def by (subst dropWhile_append2) auto

lemma TrimRight_last: "s \<noteq> [] \<Longrightarrow> last s \<notin> set cs \<Longrightarrow> TrimRight s cs = s"
  by (cases s rule: rev_cases) (simp_all add: TrimRight_def)

lemma Trim_quotes: "quote_char \<notin> set v \<Longrightarrow> b = [] \<or> b = [quote_char] \<Longrightarrow> Trim (quote_char # v @ b) [quote_char] = v"
proof -
  assume v: "quote_char \<notin> set v" and b: "b = [] \<or> b = [quote_char]"
  have 1: "TrimLeft (quote_char # v @ b) [quote_char] = (if v = [] then [] else v @ b)"
    using v b by (cases v) (auto simp: TrimLeft_def)
  have "TrimRight (v @ b) [quote_char] = v" if "v \<noteq> []"
    using v b that by (cases v rule: rev_cases) (auto simp: TrimRight_def)
  then show ?thesis using 1 by (auto simp: Trim_def TrimRight_def)
qed

lemma digest_param_text:
  assumes "digest_wf kv" and "set pre \<subseteq> set digest_blk" and "b = [] \<or> b = [quote_char]"
  shows "digest_param (pre @ fst kv @ ''='' @ quote_char # snd kv @ b) m = Inr (kv_add m (ToLower (fst kv)) (snd kv))"
proof -
  obtain k v where kv: "kv = (k, v)" by (cases kv)
  have k: "k \<noteq> []" "set k \<inter> set (CHR ''='' # quote_char # digest_blk) = {}" "quote_char \<notin> set v"
    "v \<noteq> [] \<Longrightarrow> last v \<notin> set digest_blk"
    using assms(1) by (auto simp: kv digest_wf_def)
  let ?t = "k @ ''='' @ quote_char # v @ b"
  obtain x k' where x: "k = x # k'" "x \<notin> set digest_blk" using k(1,2) by (cases k) auto
  have "TrimLeft (pre @ ?t) digest_blk = ?t"
    using TrimLeft_blanks [OF assms(2) x(2)] x(1) by simp
  moreover have "last ?t \<notin> set digest_blk"
    using assms(3) k(4) quote_facts(3) by (cases "v = []") auto
  then have "TrimRight ?t digest_blk = ?t" using k(1) by (intro TrimRight_last) simp_all
  ultimately have t: "Trim (pre @ ?t) digest_blk = ?t" by (simp add: Trim_def)
  have "CHR ''='' \<notin> set k" using k(2) by auto
  then have "SplitN ?t (CHR ''='') 2 = [k, quote_char # v @ b]"
    by (simp add: numeral_2_eq_2)
  then show ?thesis using t Trim_quotes [OF k(3) assms(3)] by (simp add: kv digest_param_def)
qed

lemma digest_wfD:
  assumes "digest_wf kv"
  shows "quote_char \<notin> set (fst kv @ ''='')" "CHR '','' \<notin> set (fst kv @ ''='')" "quote_char \<notin> set (snd kv)"
  using assms quote_facts by (auto simp: digest_wf_def)

lemma digest_loop_to_quote:
  assumes "digest_wf kv"
  shows "digest_loop pre False (digest_text kv @ rest) m
    = digest_loop (pre @ fst kv @ ''='' @ quote_char # snd kv) True (quote_char # rest) m"
proof -
  note w = digest_wfD [OF assms]
  have "digest_loop pre False (digest_text kv @ rest) m
      = digest_loop pre False ((fst kv @ ''='') @ quote_char # (snd kv @ quote_char # rest)) m"
    by (simp add: digest_text_def)
  also have "\<dots> = digest_loop (pre @ fst kv @ ''='') False (quote_char # (snd kv @ quote_char # rest)) m"
    using w(1,2) by (subst digest_loop_plain) simp_all
  also have "\<dots> = digest_loop (pre @ fst kv @ ''='' @ [quote_char]) True (snd kv @ quote_char # rest) m"
    using quote_facts(1) by simp
  also have "\<dots> = digest_loop ((pre @ fst kv @ ''='' @ [quote_char]) @ snd kv) True (quote_char # rest) m"
    using w(3) by (intro digest_loop_plain) simp_all
  finally show ?thesis by simp
qed

lemma digest_loop_last:
  assumes "digest_wf kv" and "set pre \<subseteq> set digest_blk"
  shows "digest_loop pre False (digest_text kv) m = Inr (digest_kvs [kv] m)"
  using digest_loop_to_quote [OF assms(1), of pre "[]" m] digest_param_text [OF assms, of "[]" m]
  by (simp add: digest_kvs_def)

lemma digest_loop_next:
  assumes "digest_wf kv" and "set pre \<subseteq> set digest_blk" and "s \<noteq> []"
  shows "digest_loop pre False (digest_text kv @ '', '' @ s) m = digest_loop '', '' False s (digest_kvs [kv] m)"
proof -
  have "digest_loop pre False (digest_text kv @ '', '' @ s) m
      = digest_loop (pre @ fst kv @ ''='' @ quote_char # snd kv @ [quote_char]) False ('', '' @ s) m"
    using digest_loop_to_quote [OF assms(1), of pre "'', '' @ s" m] quote_facts(1) by simp
  also have "\<dots> = digest_loop '','' False ('' '' @ s) (digest_kvs [kv] m)"
    using digest_param_text [OF assms(1,2), of "[quote_char]" m] by (simp add: digest_kvs_def)
  finally show ?thesis using assms(3) by (simp add: quote_char_def)
qed

lemma digest_loop_all:
  "ps \<noteq> [] \<Longrightarrow> list_all digest_wf ps \<Longrightarrow> set pre \<subseteq> set digest_blk \<Longrightarrow>
     digest_loop pre False (Join (map digest_text ps) '', '') m = Inr (digest_kvs ps m)"
proof (induction ps arbitrary: pre m)
  case (Cons kv ps)
  show ?case
  proof (cases ps)
    case Nil
    then show ?thesis using digest_loop_last Cons.prems by simp
  next
    case (Cons kv' ps')
    let ?s = "Join (map digest_text ps) '', ''"
    have "?s \<noteq> []" using Cons by (cases ps') (simp_all add: digest_text_def)
    then have "digest_loop pre False (digest_text kv @ '', '' @ ?s) m = digest_loop '', '' False ?s (digest_kvs [kv] m)"
      using Cons.prems by (intro digest_loop_next) simp_all
    also have "\<dots> = Inr (digest_kvs ps (digest_kvs [kv] m))"
      using Cons.IH [of "'', ''"] Cons.prems Cons quote_facts(5,6) by simp
    finally show ?thesis using Cons by (simp add: digest_kvs_def)
  qed
qed simp

lemma digest_text_last: "ps \<noteq> [] \<Longrightarrow> Join (map digest_text ps) '', '' \<noteq> [] \<and> last (Join (map digest_text ps) '', '') = quote_char"
proof (induction ps)
  case (Cons kv ps)
  then show ?case by (cases ps) (auto simp: digest_text_def)
qed simp

lemma digest_parsed:
  assumes "ps \<noteq> []" and "list_all digest_wf ps"
  shows "ParseAuthorizationHeadlerDigest (digest_header ps) = Inr (Some (digest_kvs ps []))"
proof -
  let ?b = "Join (map digest_text ps) '', ''"
  have b: "?b \<noteq> []" "last ?b = quote_char" using digest_text_last [OF assms(1)] by blast+
  have "TrimLeft (digest_header ps) digest_blk = digest_header ps"
    by (simp add: digest_header_def TrimLeft_def digest_blk_def)
  moreover have "TrimRight (digest_header ps) digest_blk = digest_header ps"
    using b quote_facts(3) by (intro TrimRight_last) (simp_all add: digest_header_def)
  ultimately have "Trim (digest_header ps) digest_blk = digest_header ps" by (simp add: Trim_def)
  moreover have "SplitN (digest_header ps) (CHR '' '') 2 = [''Digest'', ?b]"
    by (simp add: digest_header_def numeral_2_eq_2)
  moreover have "ToLower ''Digest'' = ''digest''" by code_simp
  ultimately show ?thesis
    using digest_loop_all [OF assms, of "[]"] by (simp add: ParseAuthorizationHeadlerDigest_def)
qed

section \<open>Accepting a request\<close>

definition five_params :: "string \<Rightarrow> string \<Rightarrow> string \<Rightarrow> string \<Rightarrow> string \<Rightarrow> (string \<times> string) list" where
  "five_params u r n d x = [(''Username'', u), (''realm'', r), (''nonce'', n), (''digest-uri'', d), (''response'', x)]"

lemma five_params_values:
  "kv_values (digest_kvs (five_params u r n d x) []) ''username'' = [u]"
  "kv_values (digest_kvs (five_params u r n d x) []) ''realm'' = [r]"
  "kv_values (digest_kvs (five_params u r n d x) []) ''nonce'' = [n]"
  "kv_values (digest_kvs (five_params u r n d x) []) ''digest-uri'' = [d]"
  "kv_values (digest_kvs (five_params u r n d x) []) ''response'' = [x]"
proof -
  have "map (\<lambda>k. ToLower (fst k)) (five_params u r n d x)
      = [''username'', ''realm'', ''nonce'', ''digest-uri'', ''response'']"
    unfolding five_params_def by code_simp
  then have l: "ToLower ''Username'' = ''username''" "ToLower ''realm'' = ''realm''" "ToLower ''nonce'' = ''nonce''"
    "ToLower ''digest-uri'' = ''digest-uri''" "ToLower ''response'' = ''response''"
    by (simp_all add: five_params_def)
  have no_kvs: "kv_values [] k = []" for k by (simp add: kv_values_def)
  note e = five_params_def digest_kvs_def l foldl.simps fst_conv snd_conv
  show "kv_values (digest_kvs (five_params u r n d x) []) ''username'' = [u]"
    "kv_values (digest_kvs (five_params u r n d x) []) ''realm'' = [r]"
    "kv_values (digest_kvs (five_params u r n d x) []) ''nonce'' = [n]"
    "kv_values (digest_kvs (five_params u r n d x) []) ''digest-uri'' = [d]"
    "kv_values (digest_kvs (five_params u r n d x) []) ''response'' = [x]"
    unfolding e by (simp_all only: kv_values_add no_kvs) simp_all
qed

lemma digest_accepted:
  assumes "list_all digest_wf (five_params u r n d x)" and "m_Method msg \<noteq> []"
    and "hdr_Get (m_Header msg) h = digest_header (five_params u r n d x)"
  shows "authMessage md5hex h msg lookup = Inr
    (if x = md5hex (lookup u r @ '':'' @ n @ '':'' @ md5hex (m_Method msg @ '':'' @ d)) then (True, 0)
     else (False, if h = ''Proxy-Authorization'' then 407 else 401))"
proof -
  have "ParseAuthorizationHeadlerDigest (digest_header (five_params u r n d x)) = Inr (Some (digest_kvs (five_params u r n d x) []))"
    using digest_parsed [OF _ assms(1)] by (simp add: five_params_def)
  moreover have "digest_header (five_params u r n d x) \<noteq> []" by (simp add: digest_header_def)
  ultimately show ?thesis
    using assms(2)
    by (auto simp: authMessage_def assms(3) five_params_values auth_check_def StatusUnauthorized_def
        StatusProxyAuthenticationRequired_def Let_def)
qed

text \<open>
  C18: A header in the usual quoted form is read back into its parameters, and a request that
  carries user name, realm, nonce, digest URI and response is accepted exactly when the
  response is the digest over the stored secret, the nonce, the method and the URI; otherwise the status is
  407 for a proxy and 401 for a server. A user without an unexpired record has the empty secret.
\<close>

theorem digest_authenticates:
  assumes "list_all digest_wf (five_params u r n d x)" and "m_Method msg \<noteq> []"
    and "hdr_Get (m_Header msg) h = digest_header (five_params u r n d x)"
  shows "ParseAuthorizationHeadlerDigest (digest_header (five_params u r n d x)) = Inr (Some (digest_kvs (five_params u r n d x) [])) \<and>
    authMessage md5hex h msg (queryA1md5 select now) = Inr
      (let a1 = (case select u r of None \<Rightarrow> [] | Some (_, a, e) \<Rightarrow> if now > e then [] else a) in
       if x = md5hex (a1 @ '':'' @ n @ '':'' @ md5hex (m_Method msg @ '':'' @ d)) then (True, 0)
       else (False, if h = ''Proxy-Authorization'' then 407 else 401))"
proof
  show p: "ParseAuthorizationHeadlerDigest (digest_header (five_params u r n d x)) = Inr (Some (digest_kvs (five_params u r n d x) []))"
    using digest_parsed [OF _ assms(1)] by (simp add: five_params_def)
  show "authMessage md5hex h msg (queryA1md5 select now) = Inr
      (let a1 = (case select u r of None \<Rightarrow> [] | Some (_, a, e) \<Rightarrow> if now > e then [] else a) in
       if x = md5hex (a1 @ '':'' @ n @ '':'' @ md5hex (m_Method msg @ '':'' @ d)) then (True, 0)
       else (False, if h = ''Proxy-Authorization'' then 407 else 401))"
    unfolding digest_accepted [OF assms]
    by (auto simp: queryA1md5_def queryUser_def A1md5_def Expired_def Let_def split: option.split)
qed

theorem digest_authenticates_witness:
  "authMessage (\<lambda>s. ''<'' @ s @ ''>'') ''Proxy-Authorization''
     (sample_invite\<lparr>m_Header := [(''Proxy-Authorization'',
       [digest_header (five_params ''al'' ''b.com'' ''n1'' ''sip:b.com'' ''<s3:n1:<INVITE:sip:b.com>>'')])]\<rparr>)
     (queryA1md5 (\<lambda>u r. Some (''n1'', ''s3'', 100)) 50) = Inr (True, 0)"
proof -
  let ?m = "sample_invite\<lparr>m_Header := [(''Proxy-Authorization'',
       [digest_header (five_params ''al'' ''b.com'' ''n1'' ''sip:b.com'' ''<s3:n1:<INVITE:sip:b.com>>'')])]\<rparr>"
  have w: "list_all digest_wf (five_params ''al'' ''b.com'' ''n1'' ''sip:b.com'' ''<s3:n1:<INVITE:sip:b.com>>'')"
    "m_Method ?m = ''INVITE''"
    "hdr_Get (m_Header ?m) ''Proxy-Authorization''
      = digest_header (five_params ''al'' ''b.com'' ''n1'' ''sip:b.com'' ''<s3:n1:<INVITE:sip:b.com>>'')" by code_simp+
  then show ?thesis
    using digest_authenticates [OF w(1) _ w(3), where md5hex = "\<lambda>s. ''<'' @ s @ ''>''"
      and select = "\<lambda>u r. Some (''n1'', ''s3'', 100)" and now = 50] by simp
qed

end
