(* ===== verification/Registration.thy ===== *)
theory Registration
  imports Message
begin

text \<open>
  The registrar, from \<open>src/proxy_registration.go\<close>. The SQL database is a parameter: a record
  with one function for each statement the code executes, on a state \<open>'d\<close>. A statement that
  fails gives \<open>Inl b\<close>, where \<open>b\<close> says whether the text of the error mentions a syntax error.
  A transaction works on a copy of the state, which a commit keeps and a rollback drops. The
  time is in seconds. \<open>q100\<close> is the integer part of a hundred times what \<open>strconv.ParseFloat\<close>
  gives for a text, and 0 where it fails.
\<close>

record 'd sql_register =
  sq_begin :: "'d \<Rightarrow> bool + unit"
  sq_select_seq :: "'d \<Rightarrow> string \<Rightarrow> (string \<times> string \<times> int) option"
  sq_delete_seq :: "string \<Rightarrow> 'd \<Rightarrow> bool + 'd"
  sq_insert_seq :: "string \<Rightarrow> string \<Rightarrow> int \<Rightarrow> 'd \<Rightarrow> bool + 'd"
  sq_select :: "'d \<Rightarrow> string \<Rightarrow> int \<Rightarrow> bool + (string \<times> int \<times> int) list"
  sq_delete :: "string \<Rightarrow> string \<Rightarrow> 'd \<Rightarrow> bool + 'd"
  sq_insert :: "string \<Rightarrow> string \<Rightarrow> int \<Rightarrow> int \<Rightarrow> 'd \<Rightarrow> bool + 'd"
  sq_delete_all :: "string \<Rightarrow> 'd \<Rightarrow> bool + 'd"
  sq_commit :: "'d \<Rightarrow> bool + unit"

record binding =
  bi_Aor :: string
  bi_Bind :: string
  bi_Q :: int
  bi_ExpiredAt :: int

datatype operation = REGISTRATION_QUERY | REGISTRATION_UPDATE | REGISTRATION_DEL | REGISTRATION_DELALL

record reg_operation =
  ro_Operation :: operation
  ro_BindAddr :: "uri option"
  ro_Expires :: int
  ro_Q :: int

definition NewRegistrationOperation :: reg_operation where
  "NewRegistrationOperation = \<lparr>ro_Operation = REGISTRATION_QUERY, ro_BindAddr = None, ro_Expires = 0, ro_Q = 0\<rparr>"

text \<open>The result of a registration; an entry None of the contacts is a nil pointer.\<close>

record reg_result =
  rr_Status :: int
  rr_Contact :: "contact option list option"

definition NewRegistrationResult :: "int \<Rightarrow> reg_result" where
  "NewRegistrationResult status = \<lparr>rr_Status = status, rr_Contact = None\<rparr>"

section \<open>Queries\<close>

definition queryBinding :: "('d, 'x) sql_register_scheme \<Rightarrow> 'd \<Rightarrow> string \<Rightarrow> int \<Rightarrow> bool + binding list" where
  "queryBinding db d aor now =
     bindR (sq_select db d aor now) (\<lambda>rows.
       Inr (map (\<lambda>(bind, q, e). \<lparr>bi_Aor = aor, bi_Bind = bind, bi_Q = q, bi_ExpiredAt = e\<rparr>) rows))"

text \<open>The verb \<open>%.2f\<close> for a hundredth of an integer.\<close>

definition format_hundredth :: "int \<Rightarrow> string" where
  "format_hundredth q =
     (if q < 0 then ''-'' else []) @ Itoa (\<bar>q\<bar> div 100) @ ''.'' @ pad_zeros 2 (Itoa (\<bar>q\<bar> mod 100))"

fun binding_contacts :: "int \<Rightarrow> binding list \<Rightarrow> contact option list run" where
  "binding_contacts now [] = Inr []"
| "binding_contacts now (b # bs) =
     bindR (NewContactHeaderFromString [] (bi_Bind b)
         (''q='' @ format_hundredth (bi_Q b) @ '';expires='' @ Itoa (wrap64 (bi_ExpiredAt b - now)))) (\<lambda>c.
     bindR (binding_contacts now bs) (\<lambda>cs. Inr (c # cs)))"

section \<open>The transaction\<close>

text \<open>
  What \<open>issueTransaction\<close> returns: an error, a result, or nothing at all when a panic was
  recovered, which also rolls back.
\<close>

datatype reg_reply = RegError bool | RegRecovered | RegReply reg_result

type_synonym 'd reg_step = "reg_reply + (contact option list option \<times> 'd)"

definition reg_try :: "bool + 'a \<Rightarrow> reg_reply + 'a" where
  "reg_try r = (case r of Inl b \<Rightarrow> Inl (RegError b) | Inr x \<Rightarrow> Inr x)"

definition reg_recover :: "'a run \<Rightarrow> reg_reply + 'a" where
  "reg_recover r = (case r of Inl _ \<Rightarrow> Inl RegRecovered | Inr x \<Rightarrow> Inr x)"

text \<open>An error of the deletion before an insertion is overwritten.\<close>

definition reg_operate :: "('d, 'x) sql_register_scheme \<Rightarrow> string \<Rightarrow> int \<Rightarrow> reg_operation
    \<Rightarrow> contact option list option \<times> 'd \<Rightarrow> 'd reg_step" where
  "reg_operate db aor now op = (\<lambda>(contacts, d).
     case ro_Operation op of
       REGISTRATION_QUERY \<Rightarrow>
         bindR (reg_try (queryBinding db d aor now)) (\<lambda>bs.
         bindR (reg_recover (binding_contacts now bs)) (\<lambda>cs. Inr (Some cs, d)))
     | REGISTRATION_UPDATE \<Rightarrow>
         bindR (reg_recover (deref (ro_BindAddr op))) (\<lambda>u.
           (let d1 = (case sq_delete db aor (uri_String u) d of Inl _ \<Rightarrow> d | Inr d1 \<Rightarrow> d1) in
            bindR (reg_try (sq_insert db aor (uri_String u) (ro_Q op) (wrap64 (ro_Expires op + now)) d1)) (\<lambda>d2.
              Inr (contacts, d2))))
     | REGISTRATION_DEL \<Rightarrow>
         bindR (reg_recover (deref (ro_BindAddr op))) (\<lambda>u.
         bindR (reg_try (sq_delete db aor (uri_String u) d)) (\<lambda>d1. Inr (contacts, d1)))
     | REGISTRATION_DELALL \<Rightarrow>
         bindR (reg_try (sq_delete_all db aor d)) (\<lambda>d1. Inr (contacts, d1)))"

fun reg_operate_all :: "('d, 'x) sql_register_scheme \<Rightarrow> string \<Rightarrow> int \<Rightarrow> reg_operation list
    \<Rightarrow> contact option list option \<times> 'd \<Rightarrow> 'd reg_step" where
  "reg_operate_all db aor now [] x = Inr x"
| "reg_operate_all db aor now (op # ops) x = bindR (reg_operate db aor now op x) (reg_operate_all db aor now ops)"

text \<open>
  A request with contacts, the Call-ID of the last one and a CSeq that is not smaller is
  refused. A row that cannot be read leaves the variables empty.
\<close>

definition seq_refused :: "(string \<times> string \<times> int) option \<Rightarrow> reg_operation list \<Rightarrow> string \<Rightarrow> int \<Rightarrow> bool" where
  "seq_refused row operations callId cseqNum \<longleftrightarrow>
     (case row of None \<Rightarrow> False
      | Some (dbAor, dbCallId, dbSeq) \<Rightarrow>
          dbAor \<noteq> [] \<and> length operations > 1 \<and> dbCallId = callId \<and> dbSeq \<le> cseqNum)"

definition reg_transaction :: "('d, 'x) sql_register_scheme \<Rightarrow> uri option \<Rightarrow> reg_operation list \<Rightarrow> string
    \<Rightarrow> int \<Rightarrow> int \<Rightarrow> 'd \<Rightarrow> reg_reply + (contact option list option \<times> 'd)" where
  "reg_transaction db aor0 operations callId cseqNum now d =
     bindR (reg_recover (deref aor0)) (\<lambda>u.
       (let aor = uri_String u in
        if seq_refused (sq_select_seq db d aor) operations callId cseqNum
        then Inl (RegReply (NewRegistrationResult 400))
        else
          bindR (reg_try (sq_delete_seq db aor d)) (\<lambda>d1.
          bindR (reg_try (sq_insert_seq db aor callId cseqNum d1)) (\<lambda>d2.
          bindR (reg_operate_all db aor now operations (None, d2)) (\<lambda>(contacts, d3).
          bindR (reg_try (sq_commit db d3)) (\<lambda>_. Inr (contacts, d3)))))))"

definition issueTransaction :: "('d, 'x) sql_register_scheme \<Rightarrow> uri option \<Rightarrow> reg_operation list \<Rightarrow> string
    \<Rightarrow> int \<Rightarrow> int \<Rightarrow> 'd \<Rightarrow> reg_reply \<times> 'd" where
  "issueTransaction db aor operations callId cseqNum now d =
     (case sq_begin db d of
        Inl b \<Rightarrow> (RegError b, d)
      | Inr _ \<Rightarrow>
          (case reg_transaction db aor operations callId cseqNum now d of
             Inl reply \<Rightarrow> (reply, d)
           | Inr (contacts, d') \<Rightarrow> (RegReply \<lparr>rr_Status = 200, rr_Contact = contacts\<rparr>, d')))"

section \<open>From a request to operations\<close>

definition MinimumRegisterExpiresValue :: int where
  "MinimumRegisterExpiresValue = 90"

text \<open>\<open>q\<close> is in hundredths; the bounds of the check are those of the code.\<close>

definition determOperation :: "(string \<Rightarrow> int) \<Rightarrow> contact \<Rightarrow> int \<Rightarrow> bool \<Rightarrow> uri option \<Rightarrow> int + reg_operation" where
  "determOperation q100 contact expires okE bindAddr =
     (if co_Star contact then
        (if expires \<noteq> 0 then Inl 400
         else Inr (NewRegistrationOperation\<lparr>ro_Operation := REGISTRATION_DELALL\<rparr>))
      else if (case co_Addr contact of None \<Rightarrow> True | Some a \<Rightarrow> na_Uri a = None) then Inl 400
      else
        (let q = q100 (kv_get (contact_Parameter contact) ''q'') in
         if q > 1 \<or> q < 0 then Inl 400
         else
           (let pExpiresStr = kv_get (contact_Parameter contact) ''expires'';
                okPE = (pExpiresStr \<noteq> []);
                pExpires = (case Atoi pExpiresStr of None \<Rightarrow> 0 | Some n \<Rightarrow> n)
            in if okPE \<and> Atoi pExpiresStr = None then Inl 400
               else if (okPE \<and> pExpires = 0) \<or> (okE \<and> expires = 0 \<and> \<not> okPE)
               then Inr (NewRegistrationOperation\<lparr>ro_Operation := REGISTRATION_DEL, ro_BindAddr := bindAddr\<rparr>)
               else
                 (let expectExpires = (if okE then expires else if okPE then pExpires
                                       else MinimumRegisterExpiresValue)
                  in if expectExpires < MinimumRegisterExpiresValue then Inl 423
                     else Inr (NewRegistrationOperation\<lparr>ro_Operation := REGISTRATION_UPDATE,
                            ro_BindAddr := bindAddr, ro_Q := q, ro_Expires := expectExpires\<rparr>)))))"

fun determOperations :: "(string \<Rightarrow> int) \<Rightarrow> int \<Rightarrow> bool \<Rightarrow> contact_headers \<Rightarrow> int + reg_operation list" where
  "determOperations q100 expires okE [] = Inr [NewRegistrationOperation]"
| "determOperations q100 expires okE (c # cs) =
     bindR (determOperation q100 c expires okE (case co_Addr c of None \<Rightarrow> None | Some a \<Rightarrow> na_Uri a)) (\<lambda>op.
     bindR (determOperations q100 expires okE cs) (\<lambda>ops. Inr (op # ops)))"

text \<open>
  The result is nil when a panic was recovered. Call-ID and CSeq are dereferenced before the
  transaction begins.
\<close>

definition registration :: "('d, 'x) sql_register_scheme \<Rightarrow> (string \<Rightarrow> int) \<Rightarrow> int \<Rightarrow> message \<Rightarrow> 'd
    \<Rightarrow> (reg_result option \<times> 'd) run" where
  "registration db q100 now msg d =
     (let aor = (case m_To msg of None \<Rightarrow> None
                 | Some t \<Rightarrow> (case to_Addr t of None \<Rightarrow> None | Some a \<Rightarrow> na_Uri a));
          expiresStr = hdr_Get (m_Header msg) ''expires'';
          okE = (expiresStr \<noteq> []);
          expires = (case Atoi expiresStr of None \<Rightarrow> 0 | Some n \<Rightarrow> n)
      in if okE \<and> Atoi expiresStr = None then Inr (Some (NewRegistrationResult 400), d)
         else
           (case determOperations q100 expires okE (case m_Contact msg of None \<Rightarrow> [] | Some cs \<Rightarrow> cs) of
              Inl status \<Rightarrow> Inr (Some (NewRegistrationResult status), d)
            | Inr operations \<Rightarrow>
                bindR (deref (m_CallID msg)) (\<lambda>callid.
                bindR (deref (m_CSeq msg)) (\<lambda>cseq.
                  (case issueTransaction db aor operations (call_id_String callid) (cs_Sequence cseq) now d of
                     (RegError syntax_error, d') \<Rightarrow>
                       Inr (Some (NewRegistrationResult (if syntax_error then 500 else 400)), d')
                   | (RegRecovered, d') \<Rightarrow> Inr (None, d')
                   | (RegReply r, d') \<Rightarrow> Inr (Some r, d'))))))"

end
