(* ===== verification/Registration_Props.thy ===== *)
theory Registration_Props
  imports Registration Message_Props
begin

text \<open>
  The registrar as a table of bindings. The database is any one whose statements do what
  SQL says they do (\<open>sql_laws\<close>), seen through the rows of the table \<open>register\<close> and the
  last Call-ID and CSeq of an address.
\<close>

type_synonym reg_row = "string \<times> string \<times> int \<times> int"

definition without_bind :: "string \<Rightarrow> string \<Rightarrow> reg_row list \<Rightarrow> reg_row list" where
  "without_bind a b R = filter (\<lambda>(a', b', _). \<not> (a' = a \<and> b' = b)) R"

definition without_aor :: "string \<Rightarrow> reg_row list \<Rightarrow> reg_row list" where
  "without_aor a R = filter (\<lambda>(a', _). a' \<noteq> a) R"

definition live_rows :: "string \<Rightarrow> int \<Rightarrow> reg_row list \<Rightarrow> (string \<times> int \<times> int) list" where
  "live_rows a now R = map snd (filter (\<lambda>(a', _, _, e). a' = a \<and> now \<le> e) R)"

definition sql_laws :: "'d sql_register \<Rightarrow> ('d \<Rightarrow> reg_row list) \<Rightarrow> ('d \<Rightarrow> string \<Rightarrow> (string \<times> int) option) \<Rightarrow> bool" where
  "sql_laws db rows seqs \<longleftrightarrow>
     (\<forall>a d. sq_select_seq db d a = map_option (\<lambda>(c, n). (a, c, n)) (seqs d a)) \<and>
     (\<forall>a d d'. sq_delete_seq db a d = Inr d' \<longrightarrow> rows d' = rows d \<and> seqs d' = (seqs d)(a := None)) \<and>
     (\<forall>a c n d d'. sq_insert_seq db a c n d = Inr d' \<longrightarrow> rows d' = rows d \<and> seqs d' = (seqs d)(a := Some (c, n))) \<and>
     (\<forall>a now d r. sq_select db d a now = Inr r \<longrightarrow> mset r = mset (live_rows a now (rows d)) \<and>
        sorted_wrt (\<lambda>(_, q, _) (_, q', _). q' \<le> q) r) \<and>
     (\<forall>a b d. \<exists>d'. sq_delete db a b d = Inr d' \<and> rows d' = without_bind a b (rows d) \<and> seqs d' = seqs d) \<and>
     (\<forall>a b q e d d'. sq_insert db a b q e d = Inr d' \<longrightarrow> rows d' = rows d @ [(a, b, q, e)] \<and> seqs d' = seqs d) \<and>
     (\<forall>a d d'. sq_delete_all db a d = Inr d' \<longrightarrow> rows d' = without_aor a (rows d) \<and> seqs d' = seqs d)"

text \<open>What an operation means for the table.\<close>

definition table_step :: "string \<Rightarrow> int \<Rightarrow> reg_operation \<Rightarrow> reg_row list \<Rightarrow> reg_row list" where
  "table_step aor now op R =
     (case (ro_Operation op, ro_BindAddr op) of
        (REGISTRATION_UPDATE, Some u) \<Rightarrow>
          without_bind aor (uri_String u) R @ [(aor, uri_String u, ro_Q op, wrap64 (ro_Expires op + now))]
      | (REGISTRATION_DEL, Some u) \<Rightarrow> without_bind aor (uri_String u) R
      | (REGISTRATION_DELALL, _) \<Rightarrow> without_aor aor R
      | _ \<Rightarrow> R)"

lemma sql_lawsD:
  assumes "sql_laws db rows seqs"
  shows "sq_select_seq db d a = map_option (\<lambda>(c, n). (a, c, n)) (seqs d a)"
    "sq_delete_seq db a d = Inr d' \<Longrightarrow> rows d' = rows d \<and> seqs d' = (seqs d)(a := None)"
    "sq_insert_seq db a c n d = Inr d' \<Longrightarrow> rows d' = rows d \<and> seqs d' = (seqs d)(a := Some (c, n))"
    "sq_select db d a now = Inr r \<Longrightarrow> mset r = mset (live_rows a now (rows d))"
    "sq_delete db a b d = Inr d' \<Longrightarrow> rows d' = without_bind a b (rows d) \<and> seqs d' = seqs d"
    "\<exists>d'. sq_delete db a b d = Inr d'"
    "sq_insert db a b q e d = Inr d' \<Longrightarrow> rows d' = rows d @ [(a, b, q, e)] \<and> seqs d' = seqs d"
    "sq_delete_all db a d = Inr d' \<Longrightarrow> rows d' = without_aor a (rows d) \<and> seqs d' = seqs d"
proof -
  have del: "\<exists>d'. sq_delete db a b d = Inr d' \<and> rows d' = without_bind a b (rows d) \<and> seqs d' = seqs d" for a b d
    using assms unfolding sql_laws_def by (elim conjE) meson
  show "sq_select_seq db d a = map_option (\<lambda>(c, n). (a, c, n)) (seqs d a)"
    "sq_delete_seq db a d = Inr d' \<Longrightarrow> rows d' = rows d \<and> seqs d' = (seqs d)(a := None)"
    "sq_insert_seq db a c n d = Inr d' \<Longrightarrow> rows d' = rows d \<and> seqs d' = (seqs d)(a := Some (c, n))"
    "sq_select db d a now = Inr r \<Longrightarrow> mset r = mset (live_rows a now (rows d))"
    "sq_insert db a b q e d = Inr d' \<Longrightarrow> rows d' = rows d @ [(a, b, q, e)] \<and> seqs d' = seqs d"
    "sq_delete_all db a d = Inr d' \<Longrightarrow> rows d' = without_aor a (rows d) \<and> seqs d' = seqs d"
    by (insert assms, unfold sql_laws_def, (elim conjE, meson)+)
  show "\<exists>d'. sq_delete db a b d = Inr d'" using del by blast
  show "sq_delete db a b d = Inr d' \<Longrightarrow> rows d' = without_bind a b (rows d) \<and> seqs d' = seqs d"
    using del [of a b d] by auto
qed

lemma reg_try_Inr [simp]: "reg_try r = Inr x \<longleftrightarrow> r = Inr x"
  by (simp add: reg_try_def split: sum.split)

lemma reg_recover_Inr [simp]: "reg_recover r = Inr x \<longleftrightarrow> r = Inr x"
  by (simp add: reg_recover_def split: sum.split)

lemma deref_Inr [simp]: "deref x = Inr y \<longleftrightarrow> x = Some y"
  by (cases x) simp_all

lemma bindR_Inr: "bindR r f = Inr y \<longleftrightarrow> (\<exists>x. r = Inr x \<and> f x = Inr y)"
  by (cases r) simp_all

lemma reg_operate_step:
  assumes "sql_laws db rows seqs" and "reg_operate db aor now op (cs, d) = Inr (cs', d')"
  shows "rows d' = table_step aor now op (rows d) \<and> seqs d' = seqs d"
proof (cases "ro_Operation op")
  case REGISTRATION_UPDATE
  then obtain u d1 where u: "ro_BindAddr op = Some u" and d1: "sq_delete db aor (uri_String u) d = Inr d1"
    and ins: "sq_insert db aor (uri_String u) (ro_Q op) (wrap64 (ro_Expires op + now)) d1 = Inr d'"
    using assms(2) sql_lawsD(6) [OF assms(1), of aor _ d]
    by (fastforce simp: reg_operate_def bindR_Inr Let_def split: sum.splits)
  then show ?thesis
    using REGISTRATION_UPDATE sql_lawsD(5) [OF assms(1) d1] sql_lawsD(7) [OF assms(1) ins]
    by (simp add: table_step_def)
qed (use assms(2) sql_lawsD(5,8) [OF assms(1)] in
     \<open>auto simp: reg_operate_def table_step_def bindR_Inr split: option.split\<close>)

lemma reg_operate_all_steps:
  assumes "sql_laws db rows seqs"
  shows "reg_operate_all db aor now ops (cs, d) = Inr (cs', d') \<Longrightarrow>
    rows d' = fold (table_step aor now) ops (rows d) \<and> seqs d' = seqs d"
proof (induction ops arbitrary: cs d)
  case (Cons op ops)
  then obtain cs1 d1 where "reg_operate db aor now op (cs, d) = Inr (cs1, d1)"
    "reg_operate_all db aor now ops (cs1, d1) = Inr (cs', d')"
    by (auto simp: bindR_Inr)
  then show ?case using Cons.IH reg_operate_step [OF assms] by simp
qed simp

lemma reg_operate_all_append:
  "reg_operate_all db aor now (xs @ ys) = (\<lambda>x. bindR (reg_operate_all db aor now xs x) (reg_operate_all db aor now ys))"
  by (induction xs) (rule ext, simp add: bindR_assoc)+

lemma reg_try_Inl [simp]: "reg_try r \<noteq> Inl (RegReply x)"
  by (simp add: reg_try_def split: sum.split)

lemma reg_recover_Inl [simp]: "reg_recover r \<noteq> Inl (RegReply x)"
  by (simp add: reg_recover_def split: sum.split)

lemma bindR_Inl: "bindR r f = Inl e \<longleftrightarrow> r = Inl e \<or> (\<exists>x. r = Inr x \<and> f x = Inl e)"
  by (cases r) simp_all

lemma reg_operate_all_no_reply [simp]: "reg_operate_all db aor now ops x \<noteq> Inl (RegReply r)"
proof (induction ops arbitrary: x)
  case (Cons op ops)
  have "reg_operate db aor now op x \<noteq> Inl (RegReply r)"
    by (cases x) (auto simp: reg_operate_def bindR_Inl Let_def split: operation.splits)
  then show ?case using Cons by (auto simp: bindR_Inl)
qed simp

lemma binding_contacts_length: "binding_contacts now bs = Inr cs \<Longrightarrow> length cs = length bs"
  by (induction bs arbitrary: cs) (auto simp: bindR_Inr)

lemma query_step:
  assumes "sql_laws db rows seqs" and "reg_operate db aor now NewRegistrationOperation (cs, d) = Inr (cs', d')"
  shows "d' = d \<and> (\<exists>xs. cs' = Some xs \<and> length xs = length (live_rows aor now (rows d)))"
proof -
  obtain r xs where r: "sq_select db d aor now = Inr r" and xs: "cs' = Some xs" "d' = d"
    "binding_contacts now (map (\<lambda>(bind, q, e). \<lparr>bi_Aor = aor, bi_Bind = bind, bi_Q = q, bi_ExpiredAt = e\<rparr>) r) = Inr xs"
    using assms(2) by (auto simp: reg_operate_def NewRegistrationOperation_def queryBinding_def bindR_Inr)
  have "mset r = mset (live_rows aor now (rows d))" using sql_lawsD(4) [OF assms(1) r] .
  then have "length r = length (live_rows aor now (rows d))" by (metis size_mset)
  then show ?thesis using xs binding_contacts_length [OF xs(3)] by simp
qed

lemma transaction_committed:
  assumes "sql_laws db rows seqs"
    and "reg_transaction db (Some u) (ops @ [NewRegistrationOperation]) cid n now d = Inr (cs, d')"
  shows "rows d' = fold (table_step (uri_String u) now) ops (rows d) \<and>
    seqs d' = (seqs d)(uri_String u := Some (cid, n)) \<and>
    (\<exists>xs. cs = Some xs \<and> length xs = length (live_rows (uri_String u) now (rows d')))"
proof -
  let ?a = "uri_String u"
  obtain d1 d2 c3 d3 where d1: "sq_delete_seq db ?a d = Inr d1" and d2: "sq_insert_seq db ?a cid n d1 = Inr d2"
    and d3: "reg_operate_all db ?a now ops (None, d2) = Inr (c3, d3)"
    and q: "reg_operate db ?a now NewRegistrationOperation (c3, d3) = Inr (cs, d')"
    using assms(2) by (auto simp: reg_transaction_def bindR_Inr reg_operate_all_append Let_def split: if_splits)
  have "rows d3 = fold (table_step ?a now) ops (rows d2) \<and> seqs d3 = seqs d2"
    using reg_operate_all_steps [OF assms(1) d3] .
  then show ?thesis
    using query_step [OF assms(1) q] sql_lawsD(2) [OF assms(1) d1] sql_lawsD(3) [OF assms(1) d2] by auto
qed


section \<open>A database\<close>

type_synonym list_db = "reg_row list \<times> (string \<Rightarrow> (string \<times> int) option)"

definition list_sql :: "list_db sql_register" where
  "list_sql =
     \<lparr>sq_begin = (\<lambda>_. Inr ()),
      sq_select_seq = (\<lambda>(_, s) a. map_option (\<lambda>(c, n). (a, c, n)) (s a)),
      sq_delete_seq = (\<lambda>a (R, s). Inr (R, s(a := None))),
      sq_insert_seq = (\<lambda>a c n (R, s). Inr (R, s(a := Some (c, n)))),
      sq_select = (\<lambda>(R, _) a now. Inr (rev (sort_key (\<lambda>(_, q, _). q) (live_rows a now R)))),
      sq_delete = (\<lambda>a b (R, s). Inr (without_bind a b R, s)),
      sq_insert = (\<lambda>a b q e (R, s). Inr (R @ [(a, b, q, e)], s)),
      sq_delete_all = (\<lambda>a (R, s). Inr (without_aor a R, s)),
      sq_commit = (\<lambda>_. Inr ())\<rparr>"

lemma list_sql_laws: "sql_laws list_sql fst snd"
proof -
  have "sorted_wrt (\<lambda>(_, q, _) (_, q', _). q' \<le> q) (rev (sort_key (\<lambda>(_, q, _). q) xs))" for xs :: "(string \<times> int \<times> int) list"
  proof -
    have "sorted (map (\<lambda>(_, q, _). q) (sort_key (\<lambda>(_, q, _). q) xs))" by simp
    then show ?thesis by (simp add: sorted_wrt_rev sorted_map case_prod_beta)
  qed
  then show ?thesis by (auto simp: sql_laws_def list_sql_def)
qed

definition sample_bind :: "uri \<Rightarrow> reg_operation" where
  "sample_bind u = \<lparr>ro_Operation = REGISTRATION_UPDATE, ro_BindAddr = Some u, ro_Expires = 90, ro_Q = 1\<rparr>"

definition sample_aor :: uri where
  "sample_aor = new_uri\<lparr>u_Scheme := ''sip'', u_Host := ''b.com''\<rparr>"


section \<open>Sequence numbers and bounds\<close>

text \<open>
  C38: After a successful registration, the next one for the same address with the same
  Call-ID, at least one contact and a sequence number that has grown or is the same is
  refused with 400 and changes nothing: bindings cannot be refreshed in the way RFC 3261 asks for.
\<close>

theorem registration_refresh_refused:
  assumes "sql_laws db rows seqs" and "uri_String u \<noteq> []"
    and "issueTransaction db (Some u) (ops @ [NewRegistrationOperation]) cid n now d
      = (RegReply \<lparr>rr_Status = 200, rr_Contact = Some xs\<rparr>, d')"
    and "sq_begin db d' = Inr ()" and "n \<le> n'" and "ops' \<noteq> []"
  shows "issueTransaction db (Some u) (ops' @ [NewRegistrationOperation]) cid n' now' d'
    = (RegReply (NewRegistrationResult 400), d')"
proof -
  obtain x where "sq_begin db d = Inr x" using assms(3) by (auto simp: issueTransaction_def split: sum.splits)
  then obtain cs where "reg_transaction db (Some u) (ops @ [NewRegistrationOperation]) cid n now d = Inr (cs, d')"
    using assms(3)
    by (auto simp: issueTransaction_def reg_transaction_def NewRegistrationResult_def bindR_Inl Let_def
        split: sum.splits if_splits prod.splits)
  then have "seqs d' (uri_String u) = Some (cid, n)" using transaction_committed [OF assms(1)] by auto
  then have "seq_refused (sq_select_seq db d' (uri_String u)) (ops' @ [NewRegistrationOperation]) cid n'"
    using sql_lawsD(1) [OF assms(1)] assms(2,5,6) by (simp add: seq_refused_def)
  then show ?thesis using assms(4) by (simp add: issueTransaction_def reg_transaction_def reg_recover_def Let_def)
qed

theorem registration_refresh_refused_witness:
  "\<exists>d'. snd (issueTransaction list_sql (Some sample_aor) ([sample_bind sample_aor] @ [NewRegistrationOperation]) ''c1'' 1 0
      ([], \<lambda>_. None)) = d' \<and>
    issueTransaction list_sql (Some sample_aor) ([sample_bind sample_aor] @ [NewRegistrationOperation]) ''c1'' 2 60 d'
      = (RegReply (NewRegistrationResult 400), d')"
proof -
  let ?i = "issueTransaction list_sql (Some sample_aor) ([sample_bind sample_aor] @ [NewRegistrationOperation]) ''c1'' 1 0 ([], \<lambda>_. None)"
  have "case ?i of (RegReply r, _) \<Rightarrow> rr_Status r = 200 \<and> rr_Contact r \<noteq> None | _ \<Rightarrow> False" by code_simp
  then obtain xs d' where i: "?i = (RegReply \<lparr>rr_Status = 200, rr_Contact = Some xs\<rparr>, d')"
    by (auto split: prod.splits reg_reply.splits) (metis (full_types) option.exhaust old.unit.exhaust reg_result.surjective)
  have "uri_String sample_aor \<noteq> []" "sq_begin list_sql d' = Inr ()" by (code_simp, simp add: list_sql_def)
  then show ?thesis
    using registration_refresh_refused [OF list_sql_laws _ i, of 2 "[sample_bind sample_aor]" 60] i by auto
qed

lemma determOperation_bounds:
  "determOperation q100 c e okE b = Inr op \<Longrightarrow>
     (ro_Operation op = REGISTRATION_UPDATE \<longrightarrow> 90 \<le> ro_Expires op \<and> 0 \<le> ro_Q op \<and> ro_Q op \<le> 1) \<and>
     ro_Operation op \<noteq> REGISTRATION_QUERY \<and> (ro_Operation op = REGISTRATION_DELALL) = co_Star c \<and>
     (\<not> co_Star c \<longrightarrow> ro_BindAddr op = b)"
  by (auto simp: determOperation_def NewRegistrationOperation_def MinimumRegisterExpiresValue_def Let_def
      split: if_splits option.splits)

text \<open>
  C35: Every request that passes is turned into one operation for each contact and a query at
  the end; a binding is stored for at least 90 seconds, and its q is 0 or a hundredth.
\<close>

theorem register_operation_bounds:
  assumes "determOperations q100 e okE cs = Inr ops"
  shows "length ops = Suc (length cs) \<and> last ops = NewRegistrationOperation \<and>
    list_all2 (\<lambda>c op. (ro_Operation op = REGISTRATION_DELALL) = co_Star c \<and>
      (ro_Operation op = REGISTRATION_UPDATE \<longrightarrow>
        90 \<le> ro_Expires op \<and> ro_Q op \<in> {0, 1} \<and> ro_BindAddr op = Option.bind (co_Addr c) na_Uri))
      cs (butlast ops)"
  using assms
proof (induction cs arbitrary: ops)
  case (Cons c cs)
  then obtain op ops' where o: "determOperation q100 c e okE (Option.bind (co_Addr c) na_Uri) = Inr op"
    "determOperations q100 e okE cs = Inr ops'" "ops = op # ops'"
    by (auto simp: bindR_Inr Option.bind_def split: option.splits)
  have "ops' \<noteq> []" using Cons.IH [OF o(2)] by auto
  then show ?case
    using determOperation_bounds [OF o(1)] Cons.IH [OF o(2)] o(3) by auto
qed simp

theorem register_operation_bounds_witness:
  "\<exists>ops. determOperations (\<lambda>_. 0) 3600 True
       [\<lparr>co_Star = False, co_Addr = Some (sample_uri_to ''al''), co_RawParameter = []\<rparr>] = Inr ops \<and> length ops = 2"
proof -
  have "case determOperations (\<lambda>_. 0) 3600 True
      [\<lparr>co_Star = False, co_Addr = Some (sample_uri_to ''al''), co_RawParameter = []\<rparr>] of Inr _ \<Rightarrow> True | Inl _ \<Rightarrow> False" by code_simp
  then obtain ops where "determOperations (\<lambda>_. 0) 3600 True
      [\<lparr>co_Star = False, co_Addr = Some (sample_uri_to ''al''), co_RawParameter = []\<rparr>] = Inr ops"
    by (auto split: sum.splits)
  from this register_operation_bounds [OF this] show ?thesis by auto
qed

end
