(* ===== verification/RespCtx.thy ===== *)
theory RespCtx
  imports Transaction Tables
begin

text \<open>
  The tables of \<open>src/proxy_core.go\<close>: the response contexts, which tie the client transactions
  of a forwarded request to its server transaction, and the channels of timer C. The mutexes
  make every operation atomic.
\<close>

section \<open>Response contexts\<close>

type_synonym response_ctx = "(client_key \<times> bool) list"

record response_ctxs =
  rc_stToCt :: "(server_key \<times> response_ctx) list"
  rc_ctToSt :: "(client_key \<times> server_key) list"

definition NewResponseCtxs :: response_ctxs where
  "NewResponseCtxs = \<lparr>rc_stToCt = [], rc_ctToSt = []\<rparr>"

definition GetStFromCt :: "response_ctxs \<Rightarrow> client_key \<Rightarrow> server_key option" where
  "GetStFromCt c ct = map_of (rc_ctToSt c) ct"

definition GetCtFromSt :: "response_ctxs \<Rightarrow> server_key \<Rightarrow> response_ctx option" where
  "GetCtFromSt c st = map_of (rc_stToCt c) st"

definition ResponseCtxs_Add :: "server_key \<Rightarrow> client_key \<Rightarrow> response_ctxs \<Rightarrow> response_ctxs" where
  "ResponseCtxs_Add st ct c =
     (let cts = (case map_of (rc_stToCt c) st of None \<Rightarrow> [] | Some cts \<Rightarrow> cts) in
      c\<lparr>rc_stToCt := AList.update st (AList.update ct True cts) (rc_stToCt c),
        rc_ctToSt := AList.update ct st (rc_ctToSt c)\<rparr>)"

text \<open>The results \<open>complete\<close> and \<open>found\<close> are always equal; \<open>len\<close> and \<open>delete\<close> accept a nil map.\<close>

record removal =
  rm_found :: bool
  rm_removeSt :: bool
  rm_st :: "server_key option"

definition ResponseCtxs_Remove :: "client_key \<Rightarrow> response_ctxs \<Rightarrow> removal \<times> response_ctxs" where
  "ResponseCtxs_Remove ct c =
     (case map_of (rc_ctToSt c) ct of
        None \<Rightarrow> (\<lparr>rm_found = False, rm_removeSt = False, rm_st = None\<rparr>, c)
      | Some st \<Rightarrow>
          (let cts = AList.delete ct (case map_of (rc_stToCt c) st of None \<Rightarrow> [] | Some cts \<Rightarrow> cts);
               m = (if map_of (rc_stToCt c) st = None then rc_stToCt c else AList.update st cts (rc_stToCt c))
           in (\<lparr>rm_found = True, rm_removeSt = (cts = []), rm_st = Some st\<rparr>,
               c\<lparr>rc_ctToSt := AList.delete ct (rc_ctToSt c),
                 rc_stToCt := (if cts = [] then AList.delete st m else m)\<rparr>)))"

section \<open>Timer C\<close>

text \<open>
  A channel is a number; \<open>Add\<close> makes the channels \<open>n\<close> and \<open>Suc n\<close>. The entries of a key
  come and go together.
\<close>

record timerC_handlers =
  th_update :: "(client_key \<times> nat) list"
  th_destroy :: "(client_key \<times> nat) list"

definition NewTimerCHandlers :: timerC_handlers where
  "NewTimerCHandlers = \<lparr>th_update = [], th_destroy = []\<rparr>"

definition TimerC_Add :: "nat \<Rightarrow> client_key \<Rightarrow> timerC_handlers \<Rightarrow> timerC_handlers" where
  "TimerC_Add n k t = t\<lparr>th_update := AList.update k n (th_update t), th_destroy := AList.update k (Suc n) (th_destroy t)\<rparr>"

definition TimerC_Get :: "client_key \<Rightarrow> timerC_handlers \<Rightarrow> (nat \<times> nat) option" where
  "TimerC_Get k t =
     (case map_of (th_update t) k of
        None \<Rightarrow> None
      | Some u \<Rightarrow> (case map_of (th_destroy t) k of None \<Rightarrow> None | Some d \<Rightarrow> Some (u, d)))"

definition TimerC_Remove :: "client_key \<Rightarrow> timerC_handlers \<Rightarrow> bool \<times> timerC_handlers" where
  "TimerC_Remove k t =
     (map_of (th_update t) k \<noteq> None \<or> map_of (th_destroy t) k \<noteq> None,
      t\<lparr>th_update := AList.delete k (th_update t), th_destroy := AList.delete k (th_destroy t)\<rparr>)"

definition timerC_put :: "client_key \<Rightarrow> nat \<Rightarrow> timerC_handlers \<Rightarrow> timerC_handlers" where
  "timerC_put k n t = TimerC_Add n k t"

interpretation timerC: overwriting_table NewTimerCHandlers
  "\<lambda>t k. map_option fst (TimerC_Get k t)" "\<lambda>k t. snd (TimerC_Remove k t)" timerC_put
  by unfold_locales
     (auto simp: NewTimerCHandlers_def TimerC_Get_def TimerC_Remove_def timerC_put_def TimerC_Add_def
       update_conv' delete_conv' split: option.split)

section \<open>The two directions agree\<close>

definition bound :: "response_ctxs \<Rightarrow> server_key \<Rightarrow> client_key set" where
  "bound c st = {ct. GetStFromCt c ct = Some st}"

text \<open>
  The contexts of a server transaction are the client transactions bound to it, each once,
  and a server transaction without any is not in the table.
\<close>

primrec ctx_ok :: "response_ctx option \<Rightarrow> client_key set \<Rightarrow> bool" where
  "ctx_ok None B \<longleftrightarrow> B = {}"
| "ctx_ok (Some cts) B \<longleftrightarrow> cts \<noteq> [] \<and> distinct (map fst cts) \<and> fst ` set cts = B"

definition ctxs_inv :: "response_ctxs \<Rightarrow> bool" where
  "ctxs_inv c \<longleftrightarrow> (\<forall>st. ctx_ok (GetCtFromSt c st) (bound c st))"

lemma ctxs_invD: "ctxs_inv c \<Longrightarrow> ctx_ok (GetCtFromSt c st) (bound c st)"
  by (simp add: ctxs_inv_def)

lemma ctxs_inv_new: "ctxs_inv NewResponseCtxs"
  by (simp add: ctxs_inv_def NewResponseCtxs_def GetCtFromSt_def bound_def GetStFromCt_def)

lemma GetStFromCt_new [simp]: "GetStFromCt NewResponseCtxs k = None"
  by (simp add: NewResponseCtxs_def GetStFromCt_def)

definition the_ctx :: "response_ctx option \<Rightarrow> response_ctx" where
  "the_ctx r = (case r of None \<Rightarrow> [] | Some cts \<Rightarrow> cts)"

lemma the_ctx_simps [simp]: "the_ctx None = []" "the_ctx (Some cts) = cts"
  by (simp_all add: the_ctx_def)

lemma GetStFromCt_Add: "GetStFromCt (ResponseCtxs_Add st ct c) k = (if k = ct then Some st else GetStFromCt c k)"
  by (simp add: ResponseCtxs_Add_def GetStFromCt_def Let_def update_conv')

lemma GetCtFromSt_Add: "GetCtFromSt (ResponseCtxs_Add st ct c) s =
    (if s = st then Some (AList.update ct True (the_ctx (GetCtFromSt c st))) else GetCtFromSt c s)"
  by (simp add: ResponseCtxs_Add_def GetCtFromSt_def Let_def update_conv' the_ctx_def)

lemma update_not_Nil: "AList.update k v xs \<noteq> []"
  by (induction xs) auto

lemma ctx_ok_add: "ctx_ok r B \<Longrightarrow> ctx_ok (Some (AList.update ct True (the_ctx r))) (insert ct B)"
  by (cases r) (auto simp: update_not_Nil distinct_update dom_update)

lemma ctx_ok_delete:
  "ctx_ok r B \<Longrightarrow> AList.delete ct (the_ctx r) = [] \<longleftrightarrow> B \<subseteq> {ct}"
  "ctx_ok r B \<Longrightarrow> AList.delete ct (the_ctx r) \<noteq> [] \<Longrightarrow> ctx_ok (Some (AList.delete ct (the_ctx r))) (B - {ct})"
proof -
  assume ok: "ctx_ok r B"
  have f: "fst ` set (AList.delete ct (the_ctx r)) = B - {ct}"
    using ok arg_cong [OF delete_keys [of ct "the_ctx r"], of set] by (cases r) simp_all
  then have "B - {ct} = {} \<longleftrightarrow> AList.delete ct (the_ctx r) = []" by (metis image_is_empty set_empty)
  then show "AList.delete ct (the_ctx r) = [] \<longleftrightarrow> B \<subseteq> {ct}" by blast
  show "AList.delete ct (the_ctx r) \<noteq> [] \<Longrightarrow> ctx_ok (Some (AList.delete ct (the_ctx r))) (B - {ct})"
    using ok f by (cases r) (auto simp: distinct_delete)
qed

lemma ctxs_inv_Add:
  assumes "ctxs_inv c" and "GetStFromCt c ct = None \<or> GetStFromCt c ct = Some st"
  shows "ctxs_inv (ResponseCtxs_Add st ct c)"
proof -
  have "bound (ResponseCtxs_Add st ct c) s = (if s = st then insert ct (bound c s) else bound c s)" for s
    using assms(2) by (auto simp: bound_def GetStFromCt_Add)
  then show ?thesis
    using ctxs_invD [OF assms(1)] ctx_ok_add [OF ctxs_invD [OF assms(1)], of ct st]
    by (simp add: ctxs_inv_def GetCtFromSt_Add del: ctx_ok.simps)
qed

text \<open>What is left after a removal, in terms of the two lookups.\<close>

lemma Remove_none: "GetStFromCt c ct = None \<Longrightarrow>
    ResponseCtxs_Remove ct c = (\<lparr>rm_found = False, rm_removeSt = False, rm_st = None\<rparr>, c)"
  by (simp add: ResponseCtxs_Remove_def GetStFromCt_def)

lemma Remove_some:
  assumes "GetStFromCt c ct = Some st"
  defines "cts \<equiv> AList.delete ct (the_ctx (GetCtFromSt c st))"
  shows "fst (ResponseCtxs_Remove ct c) = \<lparr>rm_found = True, rm_removeSt = (cts = []), rm_st = Some st\<rparr>"
    "GetStFromCt (snd (ResponseCtxs_Remove ct c)) k = (if k = ct then None else GetStFromCt c k)"
    "GetCtFromSt (snd (ResponseCtxs_Remove ct c)) s = (if s = st then (if cts = [] then None else Some cts) else GetCtFromSt c s)"
  using assms(1) unfolding cts_def
  by (auto simp: ResponseCtxs_Remove_def GetStFromCt_def GetCtFromSt_def Let_def the_ctx_def update_conv' delete_conv'
      split: option.splits)

lemma Remove_facts:
  assumes "ctxs_inv c"
  shows "rm_found (fst (ResponseCtxs_Remove ct c)) = (GetStFromCt c ct \<noteq> None)"
    "rm_st (fst (ResponseCtxs_Remove ct c)) = GetStFromCt c ct"
    "rm_removeSt (fst (ResponseCtxs_Remove ct c)) = (\<exists>st. bound c st = {ct})"
    "bound (snd (ResponseCtxs_Remove ct c)) st = bound c st - {ct}"
    "ctxs_inv (snd (ResponseCtxs_Remove ct c))"
proof -
  have "rm_found (fst (ResponseCtxs_Remove ct c)) = (GetStFromCt c ct \<noteq> None) \<and>
    rm_st (fst (ResponseCtxs_Remove ct c)) = GetStFromCt c ct \<and>
    rm_removeSt (fst (ResponseCtxs_Remove ct c)) = (\<exists>st. bound c st = {ct}) \<and>
    (\<forall>st. bound (snd (ResponseCtxs_Remove ct c)) st = bound c st - {ct}) \<and>
    ctxs_inv (snd (ResponseCtxs_Remove ct c))"
  proof (cases "GetStFromCt c ct")
    case None
    then have "ct \<notin> bound c s" for s by (simp add: bound_def)
    then have "bound c s - {ct} = bound c s" "bound c s \<noteq> {ct}" for s by blast+
    then show ?thesis using assms None by (simp add: Remove_none)
  next
    case (Some st)
    note r = Remove_some [OF Some]
    have b: "bound (snd (ResponseCtxs_Remove ct c)) s = bound c s - {ct}" for s
      by (auto simp: bound_def r(2))
    have only: "ct \<in> bound c s \<longleftrightarrow> s = st" for s using Some by (auto simp: bound_def)
    note ok = ctxs_invD [OF assms, of st]
    have nil: "AList.delete ct (the_ctx (GetCtFromSt c st)) = [] \<longleftrightarrow> bound c st = {ct}"
      using ctx_ok_delete(1) [OF ok, of ct] only [of st] by auto
    also have "\<dots> \<longleftrightarrow> (\<exists>s. bound c s = {ct})" using only by (metis singletonI)
    finally have removeSt: "rm_removeSt (fst (ResponseCtxs_Remove ct c)) = (\<exists>s. bound c s = {ct})" by (simp add: r(1))
    have "ctx_ok (GetCtFromSt (snd (ResponseCtxs_Remove ct c)) s) (bound c s - {ct})" for s
    proof (cases "s = st")
      case True
      then show ?thesis using ctx_ok_delete(2) [OF ok] nil by (simp add: r(3) del: ctx_ok.simps(2))
    next
      case False
      then have "bound c s - {ct} = bound c s" using only by blast
      then show ?thesis using False ctxs_invD [OF assms, of s] by (simp add: r(3))
    qed
    then show ?thesis using removeSt Some b by (simp add: r(1) ctxs_inv_def)
  qed
  then show "rm_found (fst (ResponseCtxs_Remove ct c)) = (GetStFromCt c ct \<noteq> None)"
    "rm_st (fst (ResponseCtxs_Remove ct c)) = GetStFromCt c ct"
    "rm_removeSt (fst (ResponseCtxs_Remove ct c)) = (\<exists>st. bound c st = {ct})"
    "bound (snd (ResponseCtxs_Remove ct c)) st = bound c st - {ct}"
    "ctxs_inv (snd (ResponseCtxs_Remove ct c))" by blast+
qed

end
