(* ===== verification/CallState.thy ===== *)
theory CallState
  imports Message Tables
begin

text \<open>
  The call records and their table, from \<open>src/proxy_server.go\<close>. Times are nanoseconds since
  some epoch, None for the zero time; the current time and the text of a time are arguments.
  Every operation of a record does nothing once the record is closed.
\<close>

record call_info =
  ca_setupTime :: "int option"
  ca_establishedTime :: "int option"
  ca_terminatedTime :: "int option"
  ca_callerAddress :: string
  ca_callerContact :: string
  ca_calleeAddress :: string
  ca_calleeContact :: string
  ca_callId :: string
  ca_from :: "to_header option"
  ca_to :: "to_header option"
  ca_recivedRequestURI :: string
  ca_sentRequestURI :: string
  ca_disconnectedReason :: int
  ca_disconnectedLocation :: int
  ca_receivedRequest :: "message option"
  ca_sentRequest :: "message option"
  ca_receivedFinalResponse :: "message option"
  ca_closed :: bool

definition NewCallInfo :: call_info where
  "NewCallInfo =
     \<lparr>ca_setupTime = None, ca_establishedTime = None, ca_terminatedTime = None,
      ca_callerAddress = [], ca_callerContact = [], ca_calleeAddress = [], ca_calleeContact = [],
      ca_callId = [], ca_from = None, ca_to = None, ca_recivedRequestURI = [], ca_sentRequestURI = [],
      ca_disconnectedReason = 0, ca_disconnectedLocation = 0, ca_receivedRequest = None,
      ca_sentRequest = None, ca_receivedFinalResponse = None, ca_closed = False\<rparr>"

definition TERM_REMOTE :: int where "TERM_REMOTE = 0"
definition TERM_INTERNAL :: int where "TERM_INTERNAL = 1"

text \<open>The loop over the contacts keeps the text of the last one.\<close>

fun last_contact :: "contact_headers \<Rightarrow> string \<Rightarrow> string run" where
  "last_contact [] old = Inr old"
| "last_contact (c # cs) old = bindR (contact_String c) (last_contact cs)"

definition contact_of :: "message \<Rightarrow> string \<Rightarrow> string run" where
  "contact_of msg old = (case m_Contact msg of None \<Rightarrow> Inr old | Some cs \<Rightarrow> last_contact cs old)"

definition RecordCaller :: "int \<Rightarrow> message \<Rightarrow> call_info \<Rightarrow> call_info run" where
  "RecordCaller now msg c =
     (if ca_closed c then Inr c
      else bindR (deref (m_RequestURI msg)) (\<lambda>uri.
        bindR (contact_of msg (ca_callerContact c)) (\<lambda>contact.
        bindR (deref (m_CallID msg)) (\<lambda>callid.
          Inr (c\<lparr>ca_recivedRequestURI := uri_String uri, ca_from := m_From msg, ca_to := m_To msg,
            ca_setupTime := Some now, ca_callerAddress := m_RemoteAddr msg, ca_callerContact := contact,
            ca_callId := call_id_String callid, ca_receivedRequest := Some msg\<rparr>)))))"

definition RecordCallee :: "message \<Rightarrow> call_info \<Rightarrow> call_info run" where
  "RecordCallee msg c =
     (if ca_closed c then Inr c
      else bindR (deref (m_RequestURI msg)) (\<lambda>uri.
        Inr (c\<lparr>ca_sentRequestURI := uri_String uri, ca_calleeAddress := m_RemoteAddr msg,
          ca_sentRequest := Some msg\<rparr>)))"

definition RecordEstablished :: "int \<Rightarrow> message \<Rightarrow> call_info \<Rightarrow> call_info run" where
  "RecordEstablished now msg c =
     (if ca_closed c then Inr c
      else bindR (contact_of msg (ca_calleeContact c)) (\<lambda>contact.
        Inr (c\<lparr>ca_establishedTime := Some now, ca_calleeContact := contact,
          ca_receivedFinalResponse := Some msg\<rparr>)))"

definition RecordTerminated :: "int \<Rightarrow> message \<Rightarrow> int \<Rightarrow> call_info \<Rightarrow> call_info" where
  "RecordTerminated now msg location c =
     (if ca_closed c then c
      else c\<lparr>ca_terminatedTime := Some now, ca_disconnectedReason := m_StatusCode msg,
             ca_disconnectedLocation := location\<rparr>)"

definition call_Close :: "call_info \<Rightarrow> call_info" where
  "call_Close c = c\<lparr>ca_closed := True\<rparr>"

section \<open>The call data record\<close>

definition go_quot :: "int \<Rightarrow> int \<Rightarrow> int" where
  "go_quot a b = sgn a * (\<bar>a\<bar> div b)"

definition complete_duration :: "call_info \<Rightarrow> int \<times> int" where
  "complete_duration c =
     (case (ca_establishedTime c, ca_terminatedTime c) of
        (Some e, Some t) \<Rightarrow> (1, t - e)
      | _ \<Rightarrow> (0, 0))"

definition quoted :: "string \<Rightarrow> string" where
  "quoted s = [CHR 0x22] @ s @ [CHR 0x22]"

text \<open>
  \<open>fmt_time\<close> is \<open>time.Time.String\<close>. The seconds are an integer quotient, so that the two
  decimals are zeros. A nil From or To is dereferenced.
\<close>

definition call_String :: "(int option \<Rightarrow> string) \<Rightarrow> call_info \<Rightarrow> string run" where
  "call_String fmt_time c =
     (let (complete, duration) = complete_duration c;
          eTimeS = (if ca_establishedTime c = None then [] else fmt_time (ca_establishedTime c))
      in bindR (deref (ca_from c)) (\<lambda>f. bindR (to_String f) (\<lambda>from.
         bindR (deref (ca_to c)) (\<lambda>t. bindR (to_String t) (\<lambda>to.
           Inr (Join
             [Itoa complete,
              quoted (fmt_time (ca_setupTime c)), quoted eTimeS, quoted (fmt_time (ca_terminatedTime c)),
              Itoa (go_quot duration 1000000000) @ ''.00'',
              quoted (ca_callerAddress c), quoted (ca_calleeAddress c),
              quoted (ca_callerContact c), quoted (ca_calleeContact c),
              quoted (ca_callId c), quoted from, quoted to,
              quoted (ca_recivedRequestURI c), quoted (ca_sentRequestURI c),
              Itoa (ca_disconnectedReason c), Itoa (ca_disconnectedLocation c)] '',''))))))"

definition SentRequest :: "call_info \<Rightarrow> message option" where
  "SentRequest c = ca_sentRequest c"

definition call_Closed :: "call_info \<Rightarrow> bool" where
  "call_Closed c = ca_closed c"

definition call_Id :: "call_info \<Rightarrow> string" where
  "call_Id c = ca_callId c"

section \<open>The table of calls\<close>

type_synonym call_states = "(string \<times> call_info) list"

definition NewCallStates :: call_states where
  "NewCallStates = []"

definition CallStates_Add :: "call_info \<Rightarrow> call_states \<Rightarrow> bool \<times> call_states" where
  "CallStates_Add info c =
     (if ca_callId info = [] then (False, c) else (True, AList.update (ca_callId info) info c))"

definition CallStates_Remove :: "call_info \<Rightarrow> call_states \<Rightarrow> bool \<times> call_states" where
  "CallStates_Remove info c =
     (if ca_callId info = [] then (False, c)
      else if map_of c (ca_callId info) = None then (False, c)
      else (True, AList.delete (ca_callId info) c))"

definition CallStates_Get :: "string \<Rightarrow> call_states \<Rightarrow> call_info option" where
  "CallStates_Get ident c = (if ident = [] then None else map_of c ident)"

definition CallStates_Length :: "call_states \<Rightarrow> nat" where
  "CallStates_Length c = length c"

text \<open>
  \<open>Close\<close> closes the record and writes the call data record; 32 times timer A later the
  record of the same Call-ID is removed, which may be another one by then.
\<close>

definition CallStates_Close :: "(int option \<Rightarrow> string) \<Rightarrow> call_info \<Rightarrow> (call_info \<times> string) run" where
  "CallStates_Close fmt_time info =
     (let c = call_Close info in bindR (call_String fmt_time c) (\<lambda>cdr. Inr (c, cdr)))"

section \<open>Statistics\<close>

definition Increment :: "int \<Rightarrow> int \<times> int list \<Rightarrow> (int \<times> int list) run" where
  "Increment response stat =
     (if response < 0 \<or> int (length (snd stat)) \<le> response then Inl IndexOutOfRange
      else Inr (fst stat + 1, (snd stat)[nat response := snd stat ! nat response + 1]))"

end
