(* ===== verification/Proxy.thy ===== *)
theory Proxy
  imports Server RespCtx CallState Registration Routing
begin

text \<open>
  The core of the proxy: the handlers of requests and responses, from
  \<open>src/proxy_request_controller.go\<close>, \<open>src/proxy_response_controller.go\<close> and
  \<open>src/proxy_core.go\<close>. The global variables of the program are fields of a record that
  extends the server. What a handler does to other goroutines is an effect, appended to
  \<open>px_out\<close> in order: a message for the controller of a transaction, a goroutine that is
  started, a channel operation, a message sent directly, a call that was closed. A handler
  runs as one step; the other goroutines run between steps. Random bytes, the current time,
  the answer of the registration database and the number that picks a binding come in \<open>env\<close>.
\<close>

datatype proxy_effect =
    ToServerTxn server_key message
  | ToClientTxn client_key message
  | SendDirect message
  | StartServerTxn server_key
  | StartClientTxn client_key
  | StartTimerC client_key nat nat
  | SignalTimerC nat
  | CallClosed string
  | DestroyServerTxn server_key
  | DestroyClientTxn client_key

record proxy = srv +
  px_ctxs :: response_ctxs
  px_timers :: timerC_handlers
  px_chans :: nat
  px_closed :: "nat list"
  px_calls :: call_states
  px_routes :: trie
  px_out :: "proxy_effect list"

record env =
  ev_branch :: "string option"
  ev_tag :: "string option"
  ev_now :: int
  ev_bindings :: "uri \<Rightarrow> binding list option"
  ev_pick :: nat

definition emit :: "proxy_effect \<Rightarrow> proxy \<Rightarrow> proxy" where
  "emit e p = p\<lparr>px_out := px_out p @ [e]\<rparr>"

section \<open>Small steps the handlers share\<close>

text \<open>\<open>WriteMessage\<close> on a transaction does nothing once it is terminated.\<close>

definition server_write :: "server_txn \<Rightarrow> message \<Rightarrow> proxy \<Rightarrow> proxy" where
  "server_write t msg p =
     (if state_num TransactionStateTerminated \<le> state_num (s_State t) then p
      else emit (ToServerTxn (s_Key t) msg) p)"

definition client_write :: "client_txn \<Rightarrow> message \<Rightarrow> proxy \<Rightarrow> proxy" where
  "client_write t msg p =
     (if state_num TransactionStateTerminated \<le> state_num (c_State t) then p
      else emit (ToClientTxn (c_Key t) msg) p)"

text \<open>
  A response made from the request of a transaction shares its To header, so a tag that is
  added to the response is a tag of the stored request from then on; so it is of the stored
  provisional response, when the To header is taken from there.
\<close>

definition tag_request :: "server_key \<Rightarrow> message \<Rightarrow> proxy \<Rightarrow> proxy" where
  "tag_request k resp p =
     (case lookupServerTransaction k p of
        None \<Rightarrow> p
      | Some t \<Rightarrow> p\<lparr>sv_serverTransactions :=
          map_put k (t\<lparr>s_Request := share_To resp (s_Request t)\<rparr>) (sv_serverTransactions p)\<rparr>)"

definition tag_provisional :: "server_key \<Rightarrow> message \<Rightarrow> proxy \<Rightarrow> proxy" where
  "tag_provisional k resp p =
     (case lookupServerTransaction k p of
        None \<Rightarrow> p
      | Some t \<Rightarrow> p\<lparr>sv_serverTransactions :=
          map_put k (t\<lparr>s_ProvisionalRes := map_option (share_To resp) (s_ProvisionalRes t)\<rparr>) (sv_serverTransactions p)\<rparr>)"

definition put_call :: "string \<Rightarrow> call_info \<Rightarrow> proxy \<Rightarrow> proxy" where
  "put_call k info p = p\<lparr>px_calls := AList.update k info (px_calls p)\<rparr>"

text \<open>The text of the call data record needs the From and To of the caller.\<close>

definition close_call :: "string \<Rightarrow> call_info \<Rightarrow> proxy \<Rightarrow> proxy run" where
  "close_call k info p =
     bindR (CallStates_Close (\<lambda>t. []) info) (\<lambda>(c, _). Inr (emit (CallClosed k) (put_call k c p)))"

definition close_chan :: "nat \<Rightarrow> proxy \<Rightarrow> proxy run" where
  "close_chan n p =
     (if n \<in> set (px_closed p) then Inl CloseOfClosedChannel else Inr (p\<lparr>px_closed := n # px_closed p\<rparr>))"

definition start_timerC :: "client_key \<Rightarrow> proxy \<Rightarrow> proxy" where
  "start_timerC k p =
     (let n = px_chans p in
      emit (StartTimerC k n (Suc n)) (p\<lparr>px_timers := TimerC_Add n k (px_timers p), px_chans := n + 2\<rparr>))"

definition makeErrorResponse :: "env \<Rightarrow> message \<Rightarrow> server_txn option \<Rightarrow> int \<Rightarrow> proxy \<Rightarrow> proxy run" where
  "makeErrorResponse ev msg txn status p =
     bindR (GenerateResponseFromRequest msg) (\<lambda>rep0.
     bindR (AddToTag (ev_tag ev) (rep0\<lparr>m_StatusCode := status\<rparr>)) (\<lambda>rep.
     bindR (deref txn) (\<lambda>t.
     bindR (deref (m_CallID msg)) (\<lambda>callid.
       (let p1 = server_write t rep (tag_request (s_Key t) rep p);
            k = call_id_String callid
        in case CallStates_Get k (px_calls p1) of
             None \<Rightarrow> Inr p1
           | Some info \<Rightarrow> close_call k (RecordTerminated (ev_now ev) msg TERM_INTERNAL info) p1)))))"

section \<open>Routing\<close>

text \<open>
  The bindings come in descending order of q. Those with the first q are the candidates; a
  binding that does not parse is skipped, but the loop stops at the first smaller q.
\<close>

fun candidates :: "int \<Rightarrow> binding list \<Rightarrow> uri list" where
  "candidates lastQ [] = []"
| "candidates lastQ (b # bs) =
     (if lastQ > bi_Q b then []
      else case (if bi_Aor b = [] \<or> bi_Bind b = [] then None
                 else case Parse (bi_Bind b) of Inl _ \<Rightarrow> None | Inr u \<Rightarrow> Some u) of
          None \<Rightarrow> candidates lastQ bs
        | Some u \<Rightarrow> u # candidates (bi_Q b) bs)"

definition route_to :: "env \<Rightarrow> trie \<Rightarrow> uri \<Rightarrow> (string \<times> string) option" where
  "route_to ev tbl requestUri =
     (let cs = (case ev_bindings ev requestUri of None \<Rightarrow> [] | Some bs \<Rightarrow> candidates 0 bs) in
      if cs \<noteq> [] then (let u = cs ! (ev_pick ev mod length cs) in Some (u_Host u, u_Host u))
      else
        (let service = (if u_Scheme requestUri = ''sip'' then userinfo_Username (u_User requestUri)
                        else if u_Scheme requestUri = ''tel'' then u_Host requestUri else [])
         in case trie_Search tbl service of
              None \<Rightarrow> None
            | Some rt \<Rightarrow> (case tr_fwd rt of None \<Rightarrow> None | Some f \<Rightarrow> Some (fwd_Addr f, fwd_Domain f))))"

definition inviteRouted :: "env \<Rightarrow> trie \<Rightarrow> message \<Rightarrow> int + message" where
  "inviteRouted ev tbl fwdMsg =
     (case m_RequestURI fwdMsg of
        None \<Rightarrow> Inl 400
      | Some u \<Rightarrow>
          (if u_Scheme u \<noteq> ''sip'' \<and> u_Scheme u \<noteq> ''tel'' then Inl 416
           else case route_to ev tbl u of
               None \<Rightarrow> Inl 404
             | Some (addr, domain) \<Rightarrow>
                 Inr (fwdMsg\<lparr>m_RequestURI := Some (u\<lparr>u_Host := domain\<rparr>), m_RemoteAddr := addr\<rparr>)))"

section \<open>The forwarded request\<close>

text \<open>
  The parameters of the topmost Via are written anew, decoded, when the source address is
  not its sent-by.
\<close>

definition received_params :: "string \<Rightarrow> via \<Rightarrow> string" where
  "received_params addr v =
     drop 1 (concat (map (\<lambda>(key, vs). concat (map (\<lambda>x. '';'' @ key @ ''='' @ x) vs))
       (kv_set (via_Parameter v) ''received'' addr)))"

definition mark_received :: "string \<Rightarrow> via_headers \<Rightarrow> via_headers" where
  "mark_received addr vs =
     (case vs of
        [] \<Rightarrow> []
      | _ \<Rightarrow>
          (let v = last vs in
           if via_SentBy v \<noteq> addr then butlast vs @ [v\<lparr>via_RawParameter := received_params addr v\<rparr>] else vs))"

definition generateForwardingRequest :: "message \<Rightarrow> (int + message) run" where
  "generateForwardingRequest msg =
     (let f = message_Clone msg in
      bindR (deref (m_MaxForwards f)) (\<lambda>mf.
        (let (mf', ok) = max_forwards_Decrement mf in
         if \<not> ok then Inr (Inl 483)
         else bindR (deref (m_Via f)) (\<lambda>vs.
           bindR (deref (ViaHeaders_TopMost vs)) (\<lambda>_.
             Inr (Inr (f\<lparr>m_MaxForwards := Some mf', m_Via := Some (mark_received (m_RemoteAddr msg) vs)\<rparr>)))))))"

fun add_routes :: "name_addr_format list \<Rightarrow> kvs \<Rightarrow> kvs run" where
  "add_routes [] h = Inr h"
| "add_routes (r # rs) h = bindR (nf_String r) (\<lambda>s. add_routes rs (hdr_Add h ''Route'' s))"

text \<open>
  The variable that would keep the URI of the second route for strict routing is shadowed
  in the code, so that its last branch is never taken. The first route is this proxy.
\<close>

definition next_hop :: "name_addr_format list \<Rightarrow> uri \<Rightarrow> (int + string \<times> bool) run" where
  "next_hop rts ruri =
     (if length rts > 1 then
        bindR (deref (nf_Addr (rts ! 1))) (\<lambda>a.
          Inr (case na_Uri a of
              None \<Rightarrow> Inl 500
            | Some u \<Rightarrow> Inr (u_Host u, kv_values (uri_Parameter u) ''lr'' \<noteq> [])))
      else Inr (Inr (u_Host ruri, False)))"

definition generateForwardingRequestByRouteHeader :: "message \<Rightarrow> (int + message) run" where
  "generateForwardingRequestByRouteHeader msg =
     bindR (generateForwardingRequest msg) (\<lambda>r.
       case r of
         Inl status \<Rightarrow> Inr (Inl status)
       | Inr f \<Rightarrow>
           bindR (deref (m_RequestURI f)) (\<lambda>ruri.
             (let rts = foldl (\<lambda>rs v. ParseNameAddrFormats v rs) [] (hdr_Values (m_Header f) ''Route'') in
              bindR (next_hop rts ruri) (\<lambda>n.
                case n of
                  Inl status \<Rightarrow> Inr (Inl status)
                | Inr (next, nextIsLR) \<Rightarrow>
                    bindR (add_routes (drop (if nextIsLR then 1 else 2) rts) (hdr_Del (m_Header f) ''Route'')) (\<lambda>h.
                      Inr (Inr (f\<lparr>m_RemoteAddr := resolveDomain next, m_Header := h\<rparr>)))))))"

section \<open>Handlers of requests\<close>

text \<open>
  The common end of the handlers that forward a request: the client transaction is made and
  its Via put on the message, it is bound to the server transaction, added and given the
  message. Without a key the nil transaction is dereferenced.
\<close>

definition forward_request :: "env \<Rightarrow> bool \<Rightarrow> server_txn \<Rightarrow> message \<Rightarrow> proxy \<Rightarrow> (message \<times> client_txn \<times> proxy) run" where
  "forward_request ev invite txn f p =
     bindR (NewClientTransaction invite (ev_branch ev) p f True) (\<lambda>(f1, ct0).
     bindR (deref ct0) (\<lambda>ct.
       (let p1 = emit (StartClientTxn (c_Key ct)) p;
            p2 = p1\<lparr>px_ctxs := ResponseCtxs_Add (s_Key txn) (c_Key ct) (px_ctxs p1)\<rparr>;
            p3 = AddClientTransaction (c_Key ct) ct p2
        in Inr (f1, ct, client_write ct f1 p3))))"

definition add_record_route :: "string \<Rightarrow> message \<Rightarrow> message" where
  "add_record_route addr f =
     (let rrs = hdr_Values (m_Header f) ''Record-Route'';
          h = hdr_Set (m_Header f) ''Record-Route'' (''<sip:'' @ addr @ '';lr>'')
      in f\<lparr>m_Header := foldl (\<lambda>h rr. hdr_Add h ''Record-Route'' rr) h rrs\<rparr>)"

text \<open>A request with a Route header is forwarded along it, another one is routed by its URI.\<close>

definition invite_forward :: "env \<Rightarrow> message \<Rightarrow> proxy \<Rightarrow> (int + message) run" where
  "invite_forward ev msg p =
     (if hdr_Values (m_Header msg) ''Route'' \<noteq> [] then generateForwardingRequestByRouteHeader msg
      else bindR (generateForwardingRequest msg) (\<lambda>r.
        Inr (case r of
            Inl status \<Rightarrow> Inl status
          | Inr f \<Rightarrow>
              (case inviteRouted ev (px_routes p) f of
                 Inl status \<Rightarrow> Inl status
               | Inr g \<Rightarrow> Inr (add_record_route (Address p) g)))))"

text \<open>Every address is taken for a subscriber; one without a colon has no second part.\<close>

definition TrunkSubscriber :: int where "TrunkSubscriber = 0"

definition lookupTrunkType :: "string \<Rightarrow> int run" where
  "lookupTrunkType addr = bindR (index_at (SplitN addr (CHR '':'') 2) 1) (\<lambda>_. Inr TrunkSubscriber)"

text \<open>The result is the status of the error response, or None.\<close>

definition inviteHandler :: "env \<Rightarrow> message \<Rightarrow> server_txn \<Rightarrow> proxy \<Rightarrow> (int option \<times> proxy) run" where
  "inviteHandler ev msg txn p =
     bindR (deref (m_CallID msg)) (\<lambda>callid.
     bindR (RecordCaller (ev_now ev) msg NewCallInfo) (\<lambda>info.
       (let k = call_id_String callid;
            p1 = p\<lparr>px_calls := snd (CallStates_Add info (px_calls p))\<rparr>
        in bindR (invite_forward ev msg p1) (\<lambda>r.
             case r of
               Inl status \<Rightarrow> Inr (Some status, p1)
             | Inr f \<Rightarrow>
                 bindR (forward_request ev True txn f p1) (\<lambda>(f1, ct, p2).
                 bindR (RecordCallee f1 info) (\<lambda>info'.
                   (let p3 = (if k = [] then p2 else put_call k info' p2)
                    in bindR (lookupTrunkType (m_RemoteAddr msg)) (\<lambda>_. Inr (None, start_timerC (c_Key ct) p3)))))))))"

definition ackHandler :: "message \<Rightarrow> proxy \<Rightarrow> (int option \<times> proxy) run" where
  "ackHandler msg p =
     bindR (generateForwardingRequestByRouteHeader msg) (\<lambda>r.
       Inr (case r of Inl status \<Rightarrow> (Some status, p) | Inr f \<Rightarrow> (None, emit (SendDirect f) p)))"

definition nonInviteHandler :: "env \<Rightarrow> message \<Rightarrow> server_txn \<Rightarrow> proxy \<Rightarrow> (int option \<times> proxy) run" where
  "nonInviteHandler ev msg txn p =
     bindR (deref (m_CallID msg)) (\<lambda>callid.
       if CallStates_Get (call_id_String callid) (px_calls p) = None then Inr (Some 481, p)
       else bindR (generateForwardingRequestByRouteHeader msg) (\<lambda>r.
         case r of
           Inl status \<Rightarrow> Inr (Some status, p)
         | Inr f \<Rightarrow> bindR (forward_request ev False txn f p) (\<lambda>(_, _, p'). Inr (None, p'))))"

text \<open>
  The run of the registrar comes as an argument; None is a nil result. A nil contact in it
  is dereferenced when the response is written.
\<close>

fun all_contacts :: "contact option list \<Rightarrow> contact list run" where
  "all_contacts [] = Inr []"
| "all_contacts (c # cs) = bindR (deref c) (\<lambda>x. bindR (all_contacts cs) (\<lambda>xs. Inr (x # xs)))"

definition registerHandler :: "env \<Rightarrow> reg_result option run \<Rightarrow> message \<Rightarrow> server_txn \<Rightarrow> proxy \<Rightarrow> (int option \<times> proxy) run" where
  "registerHandler ev result msg txn p =
     bindR result (\<lambda>r0. case r0 of
        None \<Rightarrow> Inr (Some 500, p)
      | Some r \<Rightarrow>
          bindR (GenerateResponseFromRequest msg) (\<lambda>rep0.
          bindR (case rr_Contact r of None \<Rightarrow> Inr None | Some cs \<Rightarrow> bindR (all_contacts cs) (\<lambda>xs. Inr (Some xs))) (\<lambda>contact.
          bindR (AddToTag (ev_tag ev) (rep0\<lparr>m_StatusCode := rr_Status r, m_Contact := contact\<rparr>)) (\<lambda>rep.
            Inr (None, server_write txn rep (tag_request (s_Key txn) rep p))))))"

text \<open>One round of the loop of \<open>cancelHandler\<close>; a lookup that finds nothing fails its type assertion.\<close>

definition cancel_one :: "env \<Rightarrow> server_key \<Rightarrow> client_key \<Rightarrow> proxy \<Rightarrow> proxy run" where
  "cancel_one ev stKey ctKey p =
     (case (lookupClientTransaction ctKey p, lookupServerTransaction stKey p) of
        (Some ct, Some _) \<Rightarrow>
          bindR (GenerateCancelRequest (Some (c_Request ct))) (\<lambda>r.
            case r of
              Inl _ \<Rightarrow> Inl NilDereference
            | Inr can \<Rightarrow>
                bindR (NewClientTransaction False (ev_branch ev) p can True) (\<lambda>(can1, t0).
                bindR (deref t0) (\<lambda>t.
                  Inr (client_write t can1 (AddClientTransaction (c_Key t) t (emit (StartClientTxn (c_Key t)) p))))))
      | _ \<Rightarrow> Inl NilTypeAssertion)"

fun cancel_all :: "env \<Rightarrow> server_key \<Rightarrow> client_key list \<Rightarrow> proxy \<Rightarrow> proxy run" where
  "cancel_all ev st [] p = Inr p"
| "cancel_all ev st (ct # cts) p = bindR (cancel_one ev st ct p) (cancel_all ev st cts)"

definition cancelHandler :: "env \<Rightarrow> message \<Rightarrow> server_txn \<Rightarrow> proxy \<Rightarrow> (int option \<times> proxy) run" where
  "cancelHandler ev msg txn p =
     bindR (GenerateServerTransactionKey msg) (\<lambda>r.
       case r of
         Inl _ \<Rightarrow> Inr (Some 500, p)
       | Inr k0 \<Rightarrow>
           (let k = UpdateMethod k0 ''INVITE'' in
            case GetCtFromSt (px_ctxs p) k of
              None \<Rightarrow> Inr (Some 481, p)
            | Some cts \<Rightarrow>
                bindR (GenerateResponseFromRequest msg) (\<lambda>rep.
                bindR (cancel_all ev k (map fst cts) (server_write txn (rep\<lparr>m_StatusCode := 200\<rparr>) p)) (\<lambda>p'.
                  Inr (None, p')))))"

text \<open>
  \<open>Destroy\<close> of the refused duplicate deletes the entry of its key, which is the one of the
  first transaction.
\<close>

definition add_server_txn :: "server_txn option \<Rightarrow> proxy \<Rightarrow> protocol_error option \<times> proxy" where
  "add_server_txn txn p =
     (case txn of
        None \<Rightarrow> (None, p)
      | Some t \<Rightarrow>
          (let p0 = emit (StartServerTxn (s_Key t)) p in
           case AddServerTransaction (s_Key t) t p0 of
             (None, p1) \<Rightarrow> (None, p1)
           | (Some e, p1) \<Rightarrow> (Some e, srv_DeleteServerTransaction (s_Key t) (emit (DestroyServerTxn (s_Key t)) p1))))"

definition request_method :: "env \<Rightarrow> reg_result option run \<Rightarrow> message \<Rightarrow> server_txn option \<Rightarrow> proxy \<Rightarrow> (int option \<times> proxy) run" where
  "request_method ev reg msg txn p =
     (if m_Method msg = ''ACK'' then ackHandler msg p
      else bindR (deref txn) (\<lambda>t.
        if m_Method msg = ''INVITE'' then inviteHandler ev msg t p
        else if m_Method msg \<in> {''BYE'', ''UPDATE'', ''PRACK''} then nonInviteHandler ev msg t p
        else if m_Method msg = ''REGISTER'' then registerHandler ev reg msg t p
        else if m_Method msg = ''CANCEL'' then cancelHandler ev msg t p
        else if m_Method msg = ''OPTIONS'' then Inr (Some 200, p)
        else Inr (Some 405, p)))"

text \<open>The error of the handler, when it is not None, is refused to the layer below.\<close>

definition requestHandler :: "env \<Rightarrow> reg_result option run \<Rightarrow> message \<Rightarrow> proxy \<Rightarrow> (protocol_error option \<times> proxy) run" where
  "requestHandler ev reg msg p =
     bindR (GenerateServerTransactionKey msg) (\<lambda>r.
       case r of
         Inl e \<Rightarrow> Inr (Some e, p)
       | Inr k \<Rightarrow>
           (let txn = (if m_Method msg = ''ACK'' then None
                       else Some (newServerTransaction (m_Method msg = ''INVITE'') k msg)) in
            case add_server_txn txn p of
              (Some e, p1) \<Rightarrow> Inr (Some e, p1)
            | (None, p1) \<Rightarrow>
                bindR (request_method ev reg msg txn p1) (\<lambda>(status, p2).
                  case status of
                    None \<Rightarrow> Inr (None, p2)
                  | Some code \<Rightarrow> bindR (makeErrorResponse ev msg txn code p2) (\<lambda>p3. Inr (None, p3)))))"

section \<open>The end of a branch\<close>

definition responseContextCloser :: "env \<Rightarrow> server_txn \<Rightarrow> client_key \<Rightarrow> int \<Rightarrow> proxy \<Rightarrow> proxy run" where
  "responseContextCloser ev st ctKey status p =
     (let (r, ctxs) = ResponseCtxs_Remove ctKey (px_ctxs p); p1 = p\<lparr>px_ctxs := ctxs\<rparr> in
      if \<not> rm_removeSt r then Inr p1
      else bindR (GenerateResponseFromRequest (s_Request st)) (\<lambda>res0.
        (let res1 = res0\<lparr>m_StatusCode := status,
               m_To := (case s_ProvisionalRes st of None \<Rightarrow> m_To res0 | Some pr \<Rightarrow> m_To pr)\<rparr>
         in bindR (AddToTag (ev_tag ev) res1) (\<lambda>res.
              Inr (server_write st res
                (if s_ProvisionalRes st = None then tag_request (s_Key st) res p1
                 else tag_provisional (s_Key st) res p1))))))"

text \<open>
  Timer C: a branch with a provisional response is cancelled, any other one answered 408.
  The transactions are the ones the goroutine was started for, as they are now.
\<close>

definition fireTimerC :: "env \<Rightarrow> server_txn \<Rightarrow> client_txn \<Rightarrow> proxy \<Rightarrow> proxy run" where
  "fireTimerC ev st ct p =
     (if c_ProvisionalRes ct = None then responseContextCloser ev st (c_Key ct) 408 p
      else bindR (GenerateCancelRequest (Some (c_Request ct))) (\<lambda>r.
        case r of
          Inl _ \<Rightarrow> responseContextCloser ev st (c_Key ct) 408 (emit (DestroyClientTxn (c_Key ct)) p)
        | Inr can \<Rightarrow>
            bindR (NewClientTransaction False (ev_branch ev) p can True) (\<lambda>(can1, t0).
            bindR (deref t0) (\<lambda>t.
              Inr (client_write t can1 (AddClientTransaction (c_Key t) t (emit (StartClientTxn (c_Key t)) p)))))))"

definition timerC_expired :: "env \<Rightarrow> server_txn \<Rightarrow> client_txn \<Rightarrow> proxy \<Rightarrow> proxy run" where
  "timerC_expired ev st ct p =
     bindR (fireTimerC ev st ct p) (\<lambda>p1. Inr (p1\<lparr>px_timers := snd (TimerC_Remove (c_Key ct) (px_timers p1))\<rparr>))"

definition timerC_destroyed :: "client_key \<Rightarrow> proxy \<Rightarrow> proxy" where
  "timerC_destroyed k p = p\<lparr>px_timers := snd (TimerC_Remove k (px_timers p))\<rparr>"

text \<open>
  The function a CANCEL transaction calls with its error, for the branch it was made for.
\<close>

definition cancelErrorHandler :: "env \<Rightarrow> server_txn \<Rightarrow> client_key \<Rightarrow> protocol_error option \<Rightarrow> proxy \<Rightarrow> proxy run" where
  "cancelErrorHandler ev st ctKey err p =
     (case err of
        Some ErrTransactionTimedOut \<Rightarrow> responseContextCloser ev st ctKey 408 p
      | None \<Rightarrow> Inr p
      | Some _ \<Rightarrow> responseContextCloser ev st ctKey 487 p)"

text \<open>The function every forwarded request's transaction calls with its error.\<close>

definition clientTransactionErrorHandler :: "env \<Rightarrow> client_txn \<Rightarrow> proxy \<Rightarrow> proxy run" where
  "clientTransactionErrorHandler ev txn p =
     (case GetStFromCt (px_ctxs p) (c_Key txn) of
        None \<Rightarrow> Inr p
      | Some stKey \<Rightarrow>
          bindR (case TimerC_Get (c_Key txn) (px_timers p) of None \<Rightarrow> Inr p | Some (_, d) \<Rightarrow> close_chan d p) (\<lambda>p1.
            case lookupServerTransaction stKey p1 of
              None \<Rightarrow> Inl NilTypeAssertion
            | Some st \<Rightarrow>
                (let (r, ctxs) = ResponseCtxs_Remove (c_Key txn) (px_ctxs p1); p2 = p1\<lparr>px_ctxs := ctxs\<rparr> in
                 if rm_removeSt r
                 then makeErrorResponse ev (s_Request st) (Some st)
                        (if c_Err txn = Some ErrTransactionTimedOut then 408 else 500) p2
                 else Inr p2)))"

definition call_removed :: "string \<Rightarrow> proxy \<Rightarrow> proxy" where
  "call_removed k p = p\<lparr>px_calls := AList.delete k (px_calls p)\<rparr>"

section \<open>Handlers of responses\<close>

definition received_or_sent_by :: "via \<Rightarrow> string" where
  "received_or_sent_by v =
     (let r = kv_get (via_Parameter v) ''received'' in if r \<noteq> [] then r else via_SentBy v)"

definition forwardingResponse :: "message \<Rightarrow> server_txn \<Rightarrow> proxy \<Rightarrow> proxy run" where
  "forwardingResponse msg txn p =
     (let cp = message_Clone msg in
      bindR (deref (m_Via cp)) (\<lambda>vs0.
        (let vs = snd (ViaHeaders_Pop vs0) in
         case ViaHeaders_TopMost vs of
           None \<Rightarrow> Inr p
         | Some v \<Rightarrow>
             Inr (server_write txn (cp\<lparr>m_Via := Some vs, m_RemoteAddr := received_or_sent_by v\<rparr>) p))))"

definition byeResponseHandler :: "env \<Rightarrow> message \<Rightarrow> server_txn \<Rightarrow> client_key \<Rightarrow> string \<Rightarrow> call_info \<Rightarrow> proxy \<Rightarrow> proxy run" where
  "byeResponseHandler ev msg txn ctKey k info p =
     (let code = m_StatusCode msg in
      if code = 100 then Inr p
      else if 200 \<le> code then
        (let p1 = p\<lparr>px_ctxs := snd (ResponseCtxs_Remove ctKey (px_ctxs p))\<rparr> in
         bindR (if code < 300 then close_call k (RecordTerminated (ev_now ev) msg TERM_REMOTE info) p1 else Inr p1)
           (forwardingResponse msg txn))
      else forwardingResponse msg txn p)"

text \<open>
  A redirection: the request that was sent is sent again to the first contact. The record
  of the call gets the new callee.
\<close>

definition forwardRedirection :: "env \<Rightarrow> message \<Rightarrow> string \<Rightarrow> call_info \<Rightarrow> server_txn \<Rightarrow> proxy \<Rightarrow> proxy run" where
  "forwardRedirection ev msg k info txn p =
     (let not_found = makeErrorResponse ev (s_Request txn) (Some txn) 404
            (put_call k (RecordTerminated (ev_now ev) msg TERM_INTERNAL info) p) in
      case m_Contact msg of
        None \<Rightarrow> not_found
      | Some [] \<Rightarrow> not_found
      | Some (contact # _) \<Rightarrow>
          (case (if co_Star contact then None else case co_Addr contact of None \<Rightarrow> None | Some a \<Rightarrow> na_Uri a) of
             None \<Rightarrow> not_found
           | Some u \<Rightarrow>
               bindR (deref (ca_sentRequest info)) (\<lambda>sent.
               bindR (deref (m_MaxForwards sent)) (\<lambda>mf.
                 (let (mf', ok) = max_forwards_Decrement mf in
                  if \<not> ok then makeErrorResponse ev (s_Request txn) (Some txn) 483 p
                  else bindR (deref (m_Via sent)) (\<lambda>vs.
                    case inviteRouted ev (px_routes p) ((message_Clone sent)\<lparr>m_MaxForwards := Some mf',
                        m_RequestURI := Some u, m_Via := Some (snd (ViaHeaders_Pop vs))\<rparr>) of
                      Inl status \<Rightarrow> makeErrorResponse ev (s_Request txn) (Some txn) status p
                    | Inr f \<Rightarrow>
                        bindR (forward_request ev True txn f p) (\<lambda>(f1, ct, p1).
                        bindR (RecordCallee f1 info) (\<lambda>info'.
                          Inr (start_timerC (c_Key ct) (put_call k info' p1))))))))))"

text \<open>A final response stops timer C before anything else, a provisional one starts it anew.\<close>

definition stop_timerC :: "(nat \<times> nat) option \<Rightarrow> proxy \<Rightarrow> proxy run" where
  "stop_timerC chans p =
     (case chans of None \<Rightarrow> Inr p | Some (u, d) \<Rightarrow> bindR (close_chan d p) (close_chan u))"

definition invaiteResponseHandler :: "env \<Rightarrow> message \<Rightarrow> server_txn \<Rightarrow> client_key \<Rightarrow> string \<Rightarrow> call_info \<Rightarrow> proxy \<Rightarrow> proxy run" where
  "invaiteResponseHandler ev msg txn ctKey k info p =
     (let code = m_StatusCode msg; chans = TimerC_Get ctKey (px_timers p) in
      if code = 100 then Inr p
      else if 100 < code \<and> code < 200 then
        (case chans of
           None \<Rightarrow> forwardingResponse msg txn p
         | Some (u, _) \<Rightarrow>
             (if u \<in> set (px_closed p) then Inl SendOnClosedChannel
              else forwardingResponse msg txn (emit (SignalTimerC u) p)))
      else if 200 \<le> code then
        bindR (stop_timerC chans p) (\<lambda>p1.
          (let p2 = p1\<lparr>px_ctxs := snd (ResponseCtxs_Remove ctKey (px_ctxs p1))\<rparr> in
           if code < 300 then
             bindR (RecordEstablished (ev_now ev) msg info) (\<lambda>info'. forwardingResponse msg txn (put_call k info' p2))
           else if code < 400 then forwardRedirection ev msg k info txn p2
           else bindR (close_call k (RecordTerminated (ev_now ev) msg TERM_REMOTE info) p2) (forwardingResponse msg txn)))
      else forwardingResponse msg txn p)"

text \<open>
  Responses of no known call, without a key or without a context are dropped. A response
  without a CSeq is an error, one without a Call-ID dereferences nil.
\<close>

definition responseHandler :: "env \<Rightarrow> message \<Rightarrow> proxy \<Rightarrow> (protocol_error option \<times> proxy) run" where
  "responseHandler ev msg p =
     (case m_CSeq msg of
        None \<Rightarrow> Inr (Some ErrMalformedMessage, p)
      | Some cs \<Rightarrow>
          bindR (deref (m_CallID msg)) (\<lambda>callid.
            (let k = call_id_String callid in
             case CallStates_Get k (px_calls p) of
               None \<Rightarrow>
                 (if cs_Method cs = ''OPTIONS'' \<or> cs_Method cs = ''REGISTER''
                  then bindR (GenerateClientTransactionKey msg) (\<lambda>_. Inr (None, p)) else Inr (None, p))
             | Some info \<Rightarrow>
                 bindR (GenerateClientTransactionKey msg) (\<lambda>r.
                   case r of
                     Inl _ \<Rightarrow> Inr (None, p)
                   | Inr ctKey \<Rightarrow>
                       (case GetStFromCt (px_ctxs p) ctKey of
                          None \<Rightarrow> Inr (None, p)
                        | Some stKey \<Rightarrow>
                            (case lookupServerTransaction stKey p of
                               None \<Rightarrow> Inr (None, p)
                             | Some txn \<Rightarrow>
                                 bindR (if cs_Method cs = ''INVITE'' then invaiteResponseHandler ev msg txn ctKey k info p
                                        else if cs_Method cs = ''BYE'' then byeResponseHandler ev msg txn ctKey k info p
                                        else if m_StatusCode msg = 100 then Inr p
                                        else forwardingResponse msg txn
                                          (if 200 \<le> m_StatusCode msg
                                           then p\<lparr>px_ctxs := snd (ResponseCtxs_Remove ctKey (px_ctxs p))\<rparr> else p))
                                   (\<lambda>p'. Inr (None, p'))))))))"

section \<open>The handler of the core\<close>

definition proxyCoreHandler :: "env \<Rightarrow> reg_result option run \<Rightarrow> layer \<Rightarrow> message \<Rightarrow> proxy \<Rightarrow> (protocol_error option \<times> proxy) run" where
  "proxyCoreHandler ev reg l msg p =
     (if l \<noteq> LayerCore \<and> l \<noteq> LayerTransaction then Inr (None, p)
      else if m_Request msg then requestHandler ev reg msg p
      else if m_Response msg then responseHandler ev msg p
      else Inr (None, p))"

definition messageManipulationHandler :: "layer \<Rightarrow> message \<Rightarrow> proxy \<Rightarrow> (protocol_error option \<times> proxy) run" where
  "messageManipulationHandler l msg p = Inr (None, p)"

end
