(* ===== verification/Proxy_Facts.thy ===== *)
theory Proxy_Facts
  imports Proxy Message_Props
begin

text \<open>
  Facts about the parts of the handlers: the parameters a forwarded Via carries, the effects
  of the shared steps, and what the tables hold after them.
\<close>

section \<open>Rewritten parameters\<close>

definition plain_text :: "string \<Rightarrow> bool" where
  "plain_text s \<longleftrightarrow> set s \<inter> {CHR ''&'', CHR '';'', CHR ''='', CHR ''%'', CHR ''+''} = {}"

definition kv_pairs :: "kvs \<Rightarrow> (string \<times> string) list" where
  "kv_pairs m = concat (map (\<lambda>(k, vs). map (\<lambda>x. (k, x)) vs) m)"

definition plain_pair :: "string \<times> string \<Rightarrow> bool" where
  "plain_pair p \<longleftrightarrow> plain_text (fst p) \<and> plain_text (snd p)"

definition pair_text :: "string \<times> string \<Rightarrow> string" where
  "pair_text p = fst p @ ''='' @ snd p"

lemma split_amp_pieces:
  "set a \<inter> {CHR ''&'', CHR '';''} = {} \<Longrightarrow> \<forall>p \<in> set ps. set p \<inter> {CHR ''&'', CHR '';''} = {} \<Longrightarrow>
     split_amp (a @ concat (map (\<lambda>p. CHR '';'' # p) ps)) = a # ps"
proof (induction ps arbitrary: a)
  case Nil
  then show ?case using split_amp_append [of a "[]"] by simp
next
  case (Cons p ps)
  then show ?case using split_amp_append [of a "CHR '';'' # p @ concat (map (\<lambda>p. CHR '';'' # p) ps)"] by simp
qed

lemma query_piece_pair: "plain_pair p \<Longrightarrow> query_piece m (pair_text p) = kv_add m (fst p) (snd p)"
  using QueryUnescape_plain [of "fst p"] QueryUnescape_plain [of "snd p"]
  by (cases p) (auto simp: plain_pair_def plain_text_def pair_text_def query_piece_def split_at_def)

lemma foldl_query_pairs:
  "list_all plain_pair ps \<Longrightarrow> kv_values (foldl query_piece m (map pair_text ps)) k
     = kv_values m k @ map snd (filter (\<lambda>p. fst p = k) ps)"
  by (induction ps arbitrary: m) (auto simp: query_piece_pair)

lemma kv_pairs_values: "kv_wf m \<Longrightarrow> map snd (filter (\<lambda>p. fst p = k) (kv_pairs m)) = kv_values m k"
proof (induction m)
  case (Cons e m)
  obtain k' vs where e: "e = (k', vs)" by (cases e)
  have w: "kv_wf m" "k' \<notin> fst ` set m" using Cons.prems by (auto simp: e kv_wf_def)
  have "filter (\<lambda>p. fst p = k) (kv_pairs m) = []" if "k = k'"
    using w(2) that by (auto simp: filter_empty_conv kv_pairs_def image_iff)
  then show ?case using Cons.IH [OF w(1)] by (auto simp: e kv_pairs_def kv_values_def filter_map o_def)
qed (simp add: kv_pairs_def kv_values_def)

lemma kv_wf_ParseQuery: "kv_wf (ParseQuery s)"
proof -
  have "kv_wf m \<Longrightarrow> kv_wf (foldl query_piece m ps)" for m ps
    by (induction ps arbitrary: m) (auto simp: query_piece_def split: prod.split sum.split)
  then show ?thesis by (simp add: ParseQuery_def)
qed

definition plain_via :: "string \<Rightarrow> via \<Rightarrow> bool" where
  "plain_via addr v \<longleftrightarrow> plain_text addr \<and> list_all plain_pair (kv_pairs (via_Parameter v))"

lemma kv_pairs_Cons: "kv_pairs ((k, vs) # m) = map (Pair k) vs @ kv_pairs m"
  by (simp add: kv_pairs_def)

lemma kv_pairs_set: "set (kv_pairs (kv_set m k x)) \<subseteq> insert (k, x) (set (kv_pairs m))"
  unfolding kv_set_def
proof (induction m)
  case Nil
  then show ?case by (simp add: kv_pairs_def)
next
  case (Cons e m)
  then show ?case by (cases e) (auto simp: kv_pairs_Cons)
qed

lemma params_text:
  "concat (map (\<lambda>(key, vs). concat (map (\<lambda>x. '';'' @ key @ ''='' @ x) vs)) m)
     = concat (map (\<lambda>p. CHR '';'' # p) (map pair_text (kv_pairs m)))"
proof (induction m)
  case (Cons e m)
  then show ?case by (cases e) (simp add: kv_pairs_Cons pair_text_def o_def)
qed (simp add: kv_pairs_def)

lemma received_params_values:
  assumes "plain_via addr v"
  shows "kv_values (ParseQuery (received_params addr v)) k = kv_values (kv_set (via_Parameter v) ''received'' addr) k"
proof -
  let ?m = "kv_set (via_Parameter v) ''received'' addr"
  let ?ps = "kv_pairs ?m"
  have wf: "kv_wf ?m" by (simp add: via_Parameter_def kv_wf_ParseQuery)
  have "plain_pair (''received'', addr)" using assms by (simp add: plain_via_def plain_pair_def plain_text_def)
  then have pl: "list_all plain_pair ?ps"
    using assms kv_pairs_set [of "via_Parameter v" "''received''" addr] by (auto simp: plain_via_def list_all_iff)
  have written: "received_params addr v = drop 1 (concat (map (\<lambda>p. CHR '';'' # p) (map pair_text ?ps)))"
    unfolding received_params_def params_text ..
  have "map snd (filter (\<lambda>p. fst p = ''received'') ?ps) = [addr]"
    using kv_pairs_values [OF wf, of "''received''"] by simp
  then obtain p ps where ps: "?ps = p # ps" by (cases ?ps) auto
  have sep: "set (pair_text q) \<inter> {CHR ''&'', CHR '';''} = {}" if "q \<in> set ?ps" for q
    using pl that by (auto simp: list_all_iff plain_pair_def plain_text_def pair_text_def)
  have "split_amp (received_params addr v) = map pair_text ?ps"
    unfolding written ps using split_amp_pieces [of "pair_text p" "map pair_text ps"] sep ps by simp
  then have "kv_values (ParseQuery (received_params addr v)) k = map snd (filter (\<lambda>p. fst p = k) ?ps)"
    using foldl_query_pairs [OF pl, of "[]" k] by (simp add: ParseQuery_def kv_values_def)
  then show ?thesis using kv_pairs_values [OF wf, of k] by simp
qed

section \<open>The Via list along the way\<close>

lemma via_Clone_id [simp]: "via_Clone v = v"
  by (simp add: via_Clone_def)

lemma Clone_fields [simp]:
  "m_Via (message_Clone m) = m_Via m" "m_RemoteAddr (message_Clone m) = m_RemoteAddr m"
  "m_StatusCode (message_Clone m) = m_StatusCode m" "m_MaxForwards (message_Clone m) = m_MaxForwards m"
  by (cases "m_Via m"; cases "m_MaxForwards m";
      simp add: message_Clone_def ViaHeaders_Clone_def CreateMessage_def max_forwards_Clone_def map_idI)+

lemma TopMost_Nil [simp]: "ViaHeaders_TopMost [] = None"
  by (simp add: ViaHeaders_TopMost_def ViaHeaders_Get_def)

lemma TopMost_snoc [simp]: "ViaHeaders_TopMost (vs @ [v]) = Some v"
  by (simp add: ViaHeaders_TopMost_last)

lemma Pop_snoc [simp]: "ViaHeaders_Pop (vs @ [v]) = (Some v, vs)"
  by (simp add: ViaHeaders_Pop_def ViaHeaders_Length_def ViaHeaders_Get_def)

text \<open>The request that is forwarded has the Via list of the request that came, with the source marked.\<close>

lemma forwarding_request_via:
  assumes "generateForwardingRequest msg = Inr (Inr f)"
  shows "\<exists>vs. m_Via msg = Some vs \<and> vs \<noteq> [] \<and> m_Via f = Some (mark_received (m_RemoteAddr msg) vs)"
  using assms
  by (cases "m_Via msg"; cases "m_MaxForwards msg")
     (auto simp: generateForwardingRequest_def deref_def Let_def split: prod.splits if_splits option.splits)

lemma routed_request_via:
  assumes "generateForwardingRequestByRouteHeader msg = Inr (Inr g)"
  obtains f where "generateForwardingRequest msg = Inr (Inr f)" and "m_Via g = m_Via f"
  using assms
  by (auto simp: generateForwardingRequestByRouteHeader_def Let_def bindR_def split: sum.splits prod.splits)

lemma inviteRouted_via: "inviteRouted ev tbl f = Inr g \<Longrightarrow> m_Via g = m_Via f"
  by (auto simp: inviteRouted_def split: option.splits if_splits)

lemma record_route_via [simp]: "m_Via (add_record_route a f) = m_Via f"
  by (simp add: add_record_route_def Let_def)

lemma invite_forward_via:
  assumes "invite_forward ev msg p = Inr (Inr g)"
  shows "\<exists>vs. m_Via msg = Some vs \<and> vs \<noteq> [] \<and> m_Via g = Some (mark_received (m_RemoteAddr msg) vs)"
proof (cases "hdr_Values (m_Header msg) ''Route'' = []")
  case True
  then obtain f h where "generateForwardingRequest msg = Inr (Inr f)" "inviteRouted ev (px_routes p) f = Inr h"
    "g = add_record_route (Address p) h"
    using assms by (auto simp: invite_forward_def bindR_def split: sum.splits)
  then show ?thesis using forwarding_request_via inviteRouted_via by fastforce
next
  case False
  then have "generateForwardingRequestByRouteHeader msg = Inr (Inr g)" using assms by (simp add: invite_forward_def)
  then obtain f where "generateForwardingRequest msg = Inr (Inr f)" "m_Via g = m_Via f" by (rule routed_request_via)
  then show ?thesis using forwarding_request_via by fastforce
qed

text \<open>The marked Via tells where the response goes.\<close>

lemma mark_received_source:
  assumes "vs \<noteq> []" and "plain_via addr (last vs)" and "addr \<noteq> []"
    and "via_SentBy (last vs) = addr \<Longrightarrow> kv_values (via_Parameter (last vs)) ''received'' = []"
  obtains v where "mark_received addr vs = butlast vs @ [v]" and "received_or_sent_by v = addr"
    and "via_SentBy v = via_SentBy (last vs)"
proof (cases "via_SentBy (last vs) = addr")
  case True
  have "mark_received addr vs = butlast vs @ [last vs]"
    using assms(1) True by (cases vs) (simp_all add: mark_received_def)
  moreover have "received_or_sent_by (last vs) = addr"
    using True assms(4) by (simp add: received_or_sent_by_def kv_get_def)
  ultimately show ?thesis using that by blast
next
  case False
  let ?v = "(last vs)\<lparr>via_RawParameter := received_params addr (last vs)\<rparr>"
  have "via_Parameter ?v = ParseQuery (received_params addr (last vs))" by (simp add: via_Parameter_def)
  then have "kv_values (via_Parameter ?v) ''received'' = [addr]"
    using received_params_values [OF assms(2)] by (simp add: kv_values_set)
  then have "received_or_sent_by ?v = addr" using assms(3) by (simp add: received_or_sent_by_def kv_get_def)
  moreover have "mark_received addr vs = butlast vs @ [?v]"
    using assms(1) False by (cases vs) (simp_all add: mark_received_def Let_def)
  ultimately show ?thesis using that by simp
qed

lemma new_client_via:
  assumes "NewClientTransaction invite rnd s f b = Inr (f1, Some ct)" and "m_Via f = Some (us @ [v])"
    and "via_SentBy v \<noteq> Address s"
  shows "m_Via f1 = Some (us @ [v, own_via rnd (Address s)])"
  using assms by (auto simp: NewClientTransaction_def Let_def bindR_def with_own_via_def ViaHeaders_Insert_def split: sum.splits)

section \<open>Effects of the shared steps\<close>

lemma emit_simps [simp]:
  "px_out (emit e p) = px_out p @ [e]" "px_ctxs (emit e p) = px_ctxs p" "px_timers (emit e p) = px_timers p"
  "px_chans (emit e p) = px_chans p" "px_calls (emit e p) = px_calls p" "px_routes (emit e p) = px_routes p"
  "px_closed (emit e p) = px_closed p" "sv_serverTransactions (emit e p) = sv_serverTransactions p"
  "sv_clientTransactions (emit e p) = sv_clientTransactions p"
  "lookupServerTransaction k (emit e p) = lookupServerTransaction k p"
  "lookupClientTransaction c (emit e p) = lookupClientTransaction c p" "Address (emit e p) = Address p"
  by (simp_all add: emit_def lookupServerTransaction_def lookupClientTransaction_def Address_def)

lemma tag_request_simps [simp]:
  "px_out (tag_request k r p) = px_out p" "px_ctxs (tag_request k r p) = px_ctxs p"
  "px_calls (tag_request k r p) = px_calls p" "px_timers (tag_request k r p) = px_timers p"
  by (simp_all add: tag_request_def split: option.split)

lemma put_call_simps [simp]:
  "px_out (put_call k i p) = px_out p" "px_ctxs (put_call k i p) = px_ctxs p" "px_timers (put_call k i p) = px_timers p"
  "lookupServerTransaction s (put_call k i p) = lookupServerTransaction s p"
  "lookupClientTransaction c (put_call k i p) = lookupClientTransaction c p"
  by (simp_all add: put_call_def lookupServerTransaction_def lookupClientTransaction_def)

lemma start_timerC_simps [simp]:
  "px_out (start_timerC k p) = px_out p @ [StartTimerC k (px_chans p) (Suc (px_chans p))]"
  "px_ctxs (start_timerC k p) = px_ctxs p"
  "lookupClientTransaction c (start_timerC k p) = lookupClientTransaction c p"
  "TimerC_Get k (px_timers (start_timerC k p)) = Some (px_chans p, Suc (px_chans p))"
  by (simp_all add: start_timerC_def Let_def emit_def lookupClientTransaction_def TimerC_Get_def TimerC_Add_def update_conv')

text \<open>A transaction that is not terminated gets the message.\<close>

definition live :: "transactionState \<Rightarrow> bool" where
  "live s \<longleftrightarrow> state_num s < state_num TransactionStateTerminated"

lemma writes_live:
  "live (s_State t) \<Longrightarrow> server_write t m p = emit (ToServerTxn (s_Key t) m) p"
  "live (c_State u) \<Longrightarrow> client_write u m p = emit (ToClientTxn (c_Key u) m) p"
  by (simp_all add: server_write_def client_write_def live_def)

lemma closed_channel_simps:
  "close_chan n p = Inr p' \<Longrightarrow> px_out p' = px_out p \<and> px_ctxs p' = px_ctxs p \<and>
     lookupServerTransaction k p' = lookupServerTransaction k p"
  by (auto simp: close_chan_def lookupServerTransaction_def split: if_splits)

lemma close_call_out:
  "close_call k i p = Inr p' \<Longrightarrow> px_out p' = px_out p @ [CallClosed k] \<and> px_ctxs p' = px_ctxs p"
  by (auto simp: close_call_def bindR_def split: sum.splits prod.splits)

lemma AddToTag_keeps:
  "AddToTag rnd m = Inr r \<Longrightarrow> m_StatusCode r = m_StatusCode m \<and> m_Response r = m_Response m \<and>
     m_Via r = m_Via m \<and> m_RemoteAddr r = m_RemoteAddr m"
  by (auto simp: AddToTag_def bindR_def split: sum.splits if_splits)

lemma response_of:
  "GenerateResponseFromRequest m = Inr r \<Longrightarrow> m_Response r \<and> m_Via r = m_Via m \<and> m_RemoteAddr r = m_RemoteAddr m"
  by (auto simp: GenerateResponseFromRequest_def CreateMessage_def Let_def split: option.splits)

definition answers :: "message \<Rightarrow> int \<Rightarrow> message \<Rightarrow> bool" where
  "answers req code rep \<longleftrightarrow> m_Response rep \<and> m_StatusCode rep = code \<and> m_Via rep = m_Via req \<and>
     m_RemoteAddr rep = m_RemoteAddr req"

lemma makeErrorResponse_out:
  assumes "makeErrorResponse ev msg (Some t) code p = Inr p'" and "live (s_State t)"
  obtains rep es where "px_out p' = px_out p @ ToServerTxn (s_Key t) rep # es" and "answers msg code rep"
    and "es = [] \<or> (\<exists>k. es = [CallClosed k])" and "px_ctxs p' = px_ctxs p"
proof -
  from assms(1) obtain rep0 rep ci where r: "GenerateResponseFromRequest msg = Inr rep0"
    "AddToTag (ev_tag ev) (rep0\<lparr>m_StatusCode := code\<rparr>) = Inr rep" "m_CallID msg = Some ci"
    by (auto simp: makeErrorResponse_def bindR_def deref_def split: sum.splits option.splits)
  let ?p1 = "emit (ToServerTxn (s_Key t) rep) (tag_request (s_Key t) rep p)"
  have a: "answers msg code rep" using response_of [OF r(1)] AddToTag_keeps [OF r(2)] by (simp add: answers_def)
  show ?thesis
  proof (cases "CallStates_Get (call_id_String ci) (px_calls ?p1)")
    case None
    then have "p' = ?p1" using assms r by (simp add: makeErrorResponse_def deref_def Let_def writes_live)
    then show ?thesis using that [of rep "[]"] a by simp
  next
    case (Some info)
    then have "close_call (call_id_String ci) (RecordTerminated (ev_now ev) msg TERM_INTERNAL info) ?p1 = Inr p'"
      using assms r by (simp add: makeErrorResponse_def deref_def Let_def writes_live)
    from close_call_out [OF this] show ?thesis using that [of rep "[CallClosed (call_id_String ci)]"] a by simp
  qed
qed

section \<open>A request sent on\<close>

lemma new_client_facts:
  assumes "NewClientTransaction invite rnd s f b = Inr (f1, Some ct)"
  shows "c_Request ct = f1 \<and> live (c_State ct) \<and> f1 = with_own_via rnd (Address s) f"
  using assms
  by (auto simp: NewClientTransaction_def Let_def bindR_def newClientTransaction_def live_def split: sum.splits)

lemma AddClientTransaction_simps [simp]:
  "px_out (AddClientTransaction k t p) = px_out p" "px_ctxs (AddClientTransaction k t p) = px_ctxs p"
  "px_timers (AddClientTransaction k t p) = px_timers p" "px_chans (AddClientTransaction k t p) = px_chans p"
  "px_calls (AddClientTransaction k t p) = px_calls p"
  "lookupClientTransaction c (AddClientTransaction k t p) = (if c = k then Some t else lookupClientTransaction c p)"
  by (simp_all add: AddClientTransaction_def lookupClientTransaction_def)

lemma forward_request_facts:
  assumes "forward_request ev invite txn f p = Inr (f1, ct, p')"
  shows "px_out p' = px_out p @ [StartClientTxn (c_Key ct), ToClientTxn (c_Key ct) f1] \<and>
    px_ctxs p' = ResponseCtxs_Add (s_Key txn) (c_Key ct) (px_ctxs p) \<and>
    lookupClientTransaction (c_Key ct) p' = Some ct \<and> c_Request ct = f1 \<and> px_chans p' = px_chans p \<and>
    px_calls p' = px_calls p \<and> f1 = with_own_via (ev_branch ev) (Address p) f"
proof -
  from assms have new: "NewClientTransaction invite (ev_branch ev) p f True = Inr (f1, Some ct)"
    by (auto simp: forward_request_def bindR_def deref_def Let_def split: sum.splits prod.splits option.splits)
  note c = new_client_facts [OF new]
  have "p' = emit (ToClientTxn (c_Key ct) f1) (AddClientTransaction (c_Key ct) ct
      ((emit (StartClientTxn (c_Key ct)) p)\<lparr>px_ctxs := ResponseCtxs_Add (s_Key txn) (c_Key ct) (px_ctxs p)\<rparr>))"
    using assms c by (simp add: forward_request_def new deref_def Let_def writes_live)
  then show ?thesis using c by simp
qed

end
