(* ===== verification/Proxy_Props.thy ===== *)
theory Proxy_Props
  imports Proxy_Facts
begin

text \<open>
  The properties of the proxy: the way of a request and of its responses, the end of its
  branches, and the requests that end the program.
\<close>

section \<open>The branches of a request\<close>

fun remove_all :: "client_key list \<Rightarrow> response_ctxs \<Rightarrow> bool list \<times> response_ctxs" where
  "remove_all [] c = ([], c)"
| "remove_all (k # ks) c =
     (let (r, c1) = ResponseCtxs_Remove k c; (bs, c2) = remove_all ks c1 in (rm_removeSt r # bs, c2))"

lemma remove_all_facts:
  assumes "ctxs_inv c" and "distinct cts" and "set cts = bound c st" and "cts \<noteq> []"
  shows "fst (remove_all cts c) = replicate (length cts - 1) False @ [True] \<and>
    ctxs_inv (snd (remove_all cts c)) \<and> bound (snd (remove_all cts c)) s = (if s = st then {} else bound c s)"
  using assms
proof (induction cts arbitrary: c)
  case (Cons k ks)
  let ?c = "snd (ResponseCtxs_Remove k c)"
  note f = Remove_facts [OF Cons.prems(1), of k]
  have k: "GetStFromCt c k = Some st" using Cons.prems(3) by (auto simp: bound_def)
  have other: "k \<notin> bound c s" if "s \<noteq> st" for s using k that by (simp add: bound_def)
  have b: "set ks = bound ?c st" using Cons.prems(2,3) f(4) [of st] by auto
  have same: "bound ?c s = bound c s" if "s \<noteq> st" using f(4) [of s] other [OF that] by simp
  have last: "rm_removeSt (fst (ResponseCtxs_Remove k c)) \<longleftrightarrow> ks = []"
  proof
    assume "rm_removeSt (fst (ResponseCtxs_Remove k c))"
    then obtain s where "bound c s = {k}" using f(3) by blast
    then have "set (k # ks) = {k}" using other Cons.prems(3) by (cases "s = st") auto
    then show "ks = []" using Cons.prems(2) by (cases ks) auto
  next
    assume "ks = []"
    then have "bound c st = {k}" using Cons.prems(3) by simp
    then show "rm_removeSt (fst (ResponseCtxs_Remove k c))" using f(3) by blast
  qed
  show ?case
  proof (cases "ks = []")
    case True
    then show ?thesis using last f(5) b same by (simp add: case_prod_beta)
  next
    case False
    then have "fst (remove_all ks ?c) = replicate (length ks - 1) False @ [True] \<and>
        ctxs_inv (snd (remove_all ks ?c)) \<and> bound (snd (remove_all ks ?c)) s = (if s = st then {} else bound ?c s)"
      using Cons.IH [OF f(5) _ b] Cons.prems(2) by simp
    moreover have "replicate (length ks) False = False # replicate (length ks - 1) False"
      using False by (cases ks) simp_all
    ultimately show ?thesis using False last same by (simp add: case_prod_beta)
  qed
qed simp

text \<open>
  C10: The branches of a request end in some order, and it is the last one, and no other,
  that is told to answer: then the request has no context left, the contexts of the other
  requests are as they were, the two tables still agree, and they still do when the next
  branch is bound.
\<close>

theorem last_branch_answers:
  assumes "ctxs_inv c" and "distinct cts" and "set cts = bound c st" and "cts \<noteq> []"
    and "GetStFromCt (snd (remove_all cts c)) k = None"
  shows "fst (remove_all cts c) = replicate (length cts - 1) False @ [True] \<and>
    GetCtFromSt (snd (remove_all cts c)) st = None \<and>
    (\<forall>s. s \<noteq> st \<longrightarrow> bound (snd (remove_all cts c)) s = bound c s) \<and>
    ctxs_inv (snd (remove_all cts c)) \<and> ctxs_inv (ResponseCtxs_Add s' k (snd (remove_all cts c)))"
proof -
  note f = remove_all_facts [OF assms(1-4)]
  have inv: "ctxs_inv (snd (remove_all cts c))" using f by blast
  have "ctx_ok (GetCtFromSt (snd (remove_all cts c)) st) {}" using ctxs_invD [OF inv, of st] f [of st] by simp
  then have "GetCtFromSt (snd (remove_all cts c)) st = None"
    by (cases "GetCtFromSt (snd (remove_all cts c)) st") auto
  then show ?thesis using f inv ctxs_inv_Add [OF inv] assms(5) by simp
qed

definition sample_sk :: server_key where
  "sample_sk = \<lparr>sk_viaBranch = ''z9hG4bK1'', sk_sentBy = ''a.com'', sk_method = ''INVITE''\<rparr>"

definition sample_ck :: "string \<Rightarrow> client_key" where
  "sample_ck b = \<lparr>ck_viaBranch = b, ck_cseqMethod = ''INVITE''\<rparr>"

definition sample_ctxs :: response_ctxs where
  "sample_ctxs = ResponseCtxs_Add sample_sk (sample_ck ''b2'') (ResponseCtxs_Add sample_sk (sample_ck ''b1'') NewResponseCtxs)"

lemma sample_ctxs_inv: "ctxs_inv sample_ctxs"
  unfolding sample_ctxs_def
  by (intro ctxs_inv_Add ctxs_inv_new)
     (simp_all add: GetStFromCt_Add sample_ck_def)

lemma sample_bound: "bound sample_ctxs sample_sk = {sample_ck ''b2'', sample_ck ''b1''}"
  by (auto simp: bound_def sample_ctxs_def GetStFromCt_Add split: if_splits)

theorem last_branch_answers_witness:
  "fst (remove_all [sample_ck ''b2'', sample_ck ''b1''] sample_ctxs) = [False, True] \<and>
   GetCtFromSt (snd (remove_all [sample_ck ''b2'', sample_ck ''b1''] sample_ctxs)) sample_sk = None"
proof -
  have "distinct [sample_ck ''b2'', sample_ck ''b1'']" by code_simp
  moreover have "GetStFromCt (snd (remove_all [sample_ck ''b2'', sample_ck ''b1''] sample_ctxs)) (sample_ck ''b1'') = None"
    by code_simp
  ultimately show ?thesis
    using last_branch_answers [OF sample_ctxs_inv, of "[sample_ck ''b2'', sample_ck ''b1'']" sample_sk "sample_ck ''b1''" sample_sk]
      sample_bound by simp
qed

section \<open>The way of an INVITE and of its responses\<close>

text \<open>
  C4: However an INVITE is routed, a response that carries the Via list it was forwarded with
  goes back through its server transaction to the address the INVITE came from, with the Via of
  this proxy removed; the parameters of its topmost Via need no escape, and it names no other
  source when its sent-by is the address the INVITE came from.
\<close>

theorem forwarded_response_returns:
  assumes "invite_forward ev msg p = Inr (Inr f)" and "m_Via msg = Some (us @ [v])"
    and "plain_via (m_RemoteAddr msg) v" and "m_RemoteAddr msg \<noteq> []"
    and "via_SentBy v = m_RemoteAddr msg \<Longrightarrow> kv_values (via_Parameter v) ''received'' = []"
    and "NewClientTransaction True rnd p f b = Inr (f1, Some ct)" and "via_SentBy v \<noteq> Address p"
    and "m_Via resp = m_Via f1" and "live (s_State txn)"
  shows "\<exists>out. forwardingResponse resp txn q = Inr (emit (ToServerTxn (s_Key txn) out) q) \<and>
    m_RemoteAddr out = m_RemoteAddr msg \<and> m_Via out = m_Via f \<and> m_StatusCode out = m_StatusCode resp"
proof -
  have f: "m_Via f = Some (mark_received (m_RemoteAddr msg) (us @ [v]))"
    using invite_forward_via [OF assms(1)] assms(2) by simp
  obtain w where w: "mark_received (m_RemoteAddr msg) (us @ [v]) = us @ [w]"
    "received_or_sent_by w = m_RemoteAddr msg" "via_SentBy w = via_SentBy v"
    using mark_received_source [of "us @ [v]" "m_RemoteAddr msg"] assms(3-5) by auto
  have "m_Via resp = Some ((us @ [w]) @ [own_via rnd (Address p)])"
    using new_client_via [OF assms(6)] f w assms(7,8) by simp
  then have out: "forwardingResponse resp txn q = Inr (emit (ToServerTxn (s_Key txn)
      ((message_Clone resp)\<lparr>m_Via := Some (us @ [w]), m_RemoteAddr := m_RemoteAddr msg\<rparr>)) q)"
    using w(2) assms(9) by (simp add: forwardingResponse_def Let_def deref_def writes_live del: append_assoc)
  show ?thesis by (rule exI, intro conjI, rule out) (simp_all add: f w(1))
qed

definition sample_proxy :: proxy where
  "sample_proxy =
     \<lparr>sv_LocalAddr = ''p.net:5060'', sv_Host = [], sv_AoR = [], sv_serverTransactions = None,
      sv_clientTransactions = None, px_ctxs = NewResponseCtxs, px_timers = NewTimerCHandlers, px_chans = 0,
      px_closed = [], px_calls = [],
      px_routes = trie_Add ''bo'' \<lparr>fwd_Addr = ''10.1.1.1:5060'', fwd_Domain = ''next.org''\<rparr> NewPrefixTrie,
      px_out = []\<rparr>"

definition sample_env :: env where
  "sample_env = \<lparr>ev_branch = Some ''abcd'', ev_tag = Some ''efgh'', ev_now = 5, ev_bindings = (\<lambda>_. None), ev_pick = 0\<rparr>"

definition sample_via :: via where
  "sample_via = \<lparr>via_SentProtocol = ''SIP/2.0/UDP'', via_SentBy = ''a.com'', via_RawParameter = ''branch=z9hG4bK1''\<rparr>"

definition sample_forwarded :: message where
  "sample_forwarded = (case invite_forward sample_env sample_invite sample_proxy of Inr (Inr f) \<Rightarrow> f | _ \<Rightarrow> sample_invite)"

definition sample_sent :: "message \<times> client_txn option" where
  "sample_sent = (case NewClientTransaction True (Some ''abcd'') sample_proxy sample_forwarded True of
     Inr x \<Rightarrow> x | Inl _ \<Rightarrow> (sample_invite, None))"

definition sample_txn :: server_txn where
  "sample_txn = newServerTransaction True sample_sk (sample_invite\<lparr>m_ctx := Some Background\<rparr>)"

theorem forwarded_response_returns_witness:
  "\<exists>out. forwardingResponse (fst sample_sent) sample_txn sample_proxy
      = Inr (emit (ToServerTxn sample_sk out) sample_proxy) \<and> m_RemoteAddr out = ''10.0.0.9:5060''"
proof -
  have 1: "invite_forward sample_env sample_invite sample_proxy = Inr (Inr sample_forwarded)" by code_simp
  have 2: "m_Via sample_invite = Some ([] @ [sample_via])" by code_simp
  have 3: "plain_via (m_RemoteAddr sample_invite) sample_via" by code_simp
  have 4: "m_RemoteAddr sample_invite = ''10.0.0.9:5060''" "via_SentBy sample_via \<noteq> ''10.0.0.9:5060''"
    "via_SentBy sample_via \<noteq> Address sample_proxy" by code_simp+
  have "snd sample_sent \<noteq> None" by code_simp
  then obtain ct where "snd sample_sent = Some ct" by blast
  then have 5: "sample_sent = (fst sample_sent, Some ct)" by (metis prod.collapse)
  have "NewClientTransaction True (Some ''abcd'') sample_proxy sample_forwarded True = Inr sample_sent" by code_simp
  then have sent: "NewClientTransaction True (Some ''abcd'') sample_proxy sample_forwarded True = Inr (fst sample_sent, Some ct)"
    using 5 by argo
  have 6: "live (s_State sample_txn)" "s_Key sample_txn = sample_sk" by code_simp+
  show ?thesis
    using forwarded_response_returns [OF 1 2 3 _ _ sent 4(3) refl 6(1), of sample_proxy] 4(1,2) 6(2) by auto
qed

text \<open>
  C8: Handling an INVITE ends in one of two ways. Either nothing was sent or bound, and the
  handler asks for an error response; or a client transaction with the forwarded request is
  started, found under its key, bound to the server transaction and guarded by timer C, the
  record of the call holds both requests, and the tables of contexts agree if the key was free.
\<close>

theorem invite_outcome:
  assumes "inviteHandler ev msg txn p = Inr (st, p')"
  shows "case st of
     Some code \<Rightarrow> px_out p' = px_out p \<and> px_ctxs p' = px_ctxs p \<and> px_timers p' = px_timers p
   | None \<Rightarrow> \<exists>ct f1 n. px_out p' = px_out p @
         [StartClientTxn (c_Key ct), ToClientTxn (c_Key ct) f1, StartTimerC (c_Key ct) n (Suc n)] \<and>
       lookupClientTransaction (c_Key ct) p' = Some ct \<and> c_Request ct = f1 \<and>
       GetStFromCt (px_ctxs p') (c_Key ct) = Some (s_Key txn) \<and>
       TimerC_Get (c_Key ct) (px_timers p') = Some (n, Suc n) \<and>
       (\<forall>ci info. m_CallID msg = Some ci \<and> CallStates_Get (call_id_String ci) (px_calls p') = Some info \<longrightarrow>
          ca_receivedRequest info = Some msg \<and> ca_sentRequest info = Some f1) \<and>
       (ctxs_inv (px_ctxs p) \<and> GetStFromCt (px_ctxs p) (c_Key ct) = None \<longrightarrow> ctxs_inv (px_ctxs p'))"
proof -
  obtain ci info where ci: "m_CallID msg = Some ci" "RecordCaller (ev_now ev) msg NewCallInfo = Inr info"
    using assms by (auto simp: inviteHandler_def bindR_def deref_def split: sum.splits option.splits)
  let ?p1 = "p\<lparr>px_calls := snd (CallStates_Add info (px_calls p))\<rparr>"
  obtain r where r: "invite_forward ev msg ?p1 = Inr r"
    using assms by (auto simp: inviteHandler_def ci deref_def bindR_def Let_def split: sum.splits)
  show ?thesis
  proof (cases r)
    case (Inl code)
    then show ?thesis using assms by (auto simp: inviteHandler_def ci deref_def r)
  next
    case (Inr f)
    then obtain f1 ct p2 info' where f: "forward_request ev True txn f ?p1 = Inr (f1, ct, p2)"
      and info': "RecordCallee f1 info = Inr info'" and st: "st = None"
      and p': "p' = start_timerC (c_Key ct) (if call_id_String ci = [] then p2 else put_call (call_id_String ci) info' p2)"
      using assms by (auto simp: inviteHandler_def ci deref_def r bindR_def Let_def split: sum.splits prod.splits)
    note ff = forward_request_facts [OF f]
    have chans: "px_chans (if call_id_String ci = [] then p2 else put_call (call_id_String ci) info' p2) = px_chans p"
      using ff by (simp add: put_call_def)
    have rec: "ca_receivedRequest info' = Some msg \<and> ca_sentRequest info' = Some f1"
      using ci(2) info'
      by (auto simp: RecordCaller_def RecordCallee_def NewCallInfo_def bindR_def split: sum.splits if_splits)
    have calls: "CallStates_Get (call_id_String ci) (px_calls p') \<in> {None, Some info'}"
      by (simp add: p' CallStates_Get_def start_timerC_def Let_def put_call_def update_conv')
    show ?thesis
      unfolding st option.case
    proof (rule exI [of _ ct], rule exI [of _ f1], rule exI [of _ "px_chans p"], intro conjI)
      show "px_out p' = px_out p @ [StartClientTxn (c_Key ct), ToClientTxn (c_Key ct) f1,
          StartTimerC (c_Key ct) (px_chans p) (Suc (px_chans p))]"
        using ff chans by (simp add: p')
      show "lookupClientTransaction (c_Key ct) p' = Some ct" "c_Request ct = f1" using ff by (simp_all add: p')
      show "GetStFromCt (px_ctxs p') (c_Key ct) = Some (s_Key txn)" using ff by (simp add: p' GetStFromCt_Add)
      show "TimerC_Get (c_Key ct) (px_timers p') = Some (px_chans p, Suc (px_chans p))" using chans by (simp add: p')
      show "\<forall>ci info. m_CallID msg = Some ci \<and> CallStates_Get (call_id_String ci) (px_calls p') = Some info \<longrightarrow>
          ca_receivedRequest info = Some msg \<and> ca_sentRequest info = Some f1"
        using calls rec ci(1) by auto
      show "ctxs_inv (px_ctxs p) \<and> GetStFromCt (px_ctxs p) (c_Key ct) = None \<longrightarrow> ctxs_inv (px_ctxs p')"
        using ff by (simp add: p' ctxs_inv_Add)
    qed
  qed
qed

definition sample_handled :: "int option \<times> proxy" where
  "sample_handled = (case inviteHandler sample_env sample_invite sample_txn sample_proxy of
     Inr x \<Rightarrow> x | Inl _ \<Rightarrow> (Some 0, sample_proxy))"

theorem invite_outcome_witness:
  "\<exists>(ct :: client_txn) f1. px_out (snd sample_handled) =
       [StartClientTxn (c_Key ct), ToClientTxn (c_Key ct) f1, StartTimerC (c_Key ct) 0 1] \<and>
     GetStFromCt (px_ctxs (snd sample_handled)) (c_Key ct) = Some sample_sk \<and> ctxs_inv (px_ctxs (snd sample_handled))"
proof -
  have none: "fst sample_handled = None" by code_simp
  have run: "inviteHandler sample_env sample_invite sample_txn sample_proxy = Inr sample_handled" by code_simp
  have "px_chans (snd sample_handled) = 2" by code_simp
  have out: "px_out sample_proxy = []" and key: "s_Key sample_txn = sample_sk"
    and new: "px_ctxs sample_proxy = NewResponseCtxs" by (simp_all add: sample_proxy_def sample_txn_def newServerTransaction_def)
  have "(case sample_handled of (st, p') \<Rightarrow> (st, p')) = (None, snd sample_handled)"
    using none by (metis case_prod_conv prod.collapse)
  then have "inviteHandler sample_env sample_invite sample_txn sample_proxy = Inr (None, snd sample_handled)"
    using run by (simp add: case_prod_eta)
  note outcome = invite_outcome [OF this, unfolded option.case out key new append_Nil]
  show ?thesis
    using outcome
  proof (elim exE conjE)
    fix ct :: client_txn and f1 n
    assume out: "px_out (snd sample_handled) =
        [StartClientTxn (c_Key ct), ToClientTxn (c_Key ct) f1, StartTimerC (c_Key ct) n (Suc n)]"
      and key: "GetStFromCt (px_ctxs (snd sample_handled)) (c_Key ct) = Some sample_sk"
      and kept: "ctxs_inv NewResponseCtxs \<and> GetStFromCt NewResponseCtxs (c_Key ct) = None \<longrightarrow>
        ctxs_inv (px_ctxs (snd sample_handled))"
    have "(case px_out (snd sample_handled) of [_, _, StartTimerC _ u d] \<Rightarrow> u = 0 | _ \<Rightarrow> False)" by code_simp
    then have "n = 0" unfolding out by simp
    then show ?thesis using out key kept ctxs_inv_new by - (rule exI [of _ ct], rule exI [of _ f1], simp)
  qed
qed

section \<open>The end of a branch\<close>

text \<open>
  C9: When the transaction of a forwarded request fails, exactly one answer goes to the server
  transaction if that was its last branch, 408 after a time-out and 500 after any other error,
  and none goes to it otherwise; the branch is bound no more and the tables of contexts agree.
\<close>

theorem branch_error_answers_once:
  assumes "ctxs_inv (px_ctxs p)" and "GetStFromCt (px_ctxs p) (c_Key ct) = Some k"
    and "lookupServerTransaction k p = Some st" and "live (s_State st)" and "s_Key st = k"
    and "clientTransactionErrorHandler ev ct p = Inr p'"
  shows "ctxs_inv (px_ctxs p') \<and> bound (px_ctxs p') s = bound (px_ctxs p) s - {c_Key ct} \<and>
    (if bound (px_ctxs p) k = {c_Key ct}
     then \<exists>rep es. px_out p' = px_out p @ ToServerTxn k rep # es \<and> (es = [] \<or> (\<exists>c. es = [CallClosed c])) \<and>
       answers (s_Request st) (if c_Err ct = Some ErrTransactionTimedOut then 408 else 500) rep
     else px_out p' = px_out p)"
proof -
  obtain p1 where p1: "(case TimerC_Get (c_Key ct) (px_timers p) of None \<Rightarrow> Inr p | Some (_, d) \<Rightarrow> close_chan d p) = Inr p1"
    using assms(2,6) by (auto simp: clientTransactionErrorHandler_def bindR_def split: sum.splits)
  then have same: "px_out p1 = px_out p \<and> px_ctxs p1 = px_ctxs p \<and> lookupServerTransaction k p1 = Some st"
    using assms(3) closed_channel_simps [of _ p p1 k] by (auto split: option.splits prod.splits)
  let ?r = "ResponseCtxs_Remove (c_Key ct) (px_ctxs p)"
  let ?code = "if c_Err ct = Some ErrTransactionTimedOut then 408 else 500 :: int"
  let ?p2 = "p1\<lparr>px_ctxs := snd ?r\<rparr>"
  note f = Remove_facts [OF assms(1), of "c_Key ct"]
  have "s = k" if "c_Key ct \<in> bound (px_ctxs p) s" for s using that assms(2) by (simp add: bound_def)
  then have only: "(\<exists>s. bound (px_ctxs p) s = {c_Key ct}) \<longleftrightarrow> bound (px_ctxs p) k = {c_Key ct}"
    by (metis singletonI)
  have p': "(if rm_removeSt (fst ?r) then makeErrorResponse ev (s_Request st) (Some st) ?code ?p2 else Inr ?p2) = Inr p'"
    using assms(2,6) same by (simp add: clientTransactionErrorHandler_def p1 case_prod_beta Let_def)
  show ?thesis
  proof (cases "bound (px_ctxs p) k = {c_Key ct}")
    case True
    then have e: "makeErrorResponse ev (s_Request st) (Some st) ?code ?p2 = Inr p'" using p' f(3) only by simp
    obtain rep es where "px_out p' = px_out ?p2 @ ToServerTxn (s_Key st) rep # es" "answers (s_Request st) ?code rep"
      "es = [] \<or> (\<exists>c. es = [CallClosed c])" "px_ctxs p' = px_ctxs ?p2"
      by (rule makeErrorResponse_out [OF e assms(4)])
    then show ?thesis using True same f(4,5) assms(5) by simp
  next
    case False
    then have "p' = ?p2" using p' f(3) only by simp
    then show ?thesis using False same f(4,5) by simp
  qed
qed

definition sample_busy :: proxy where
  "sample_busy = sample_proxy\<lparr>px_ctxs := ResponseCtxs_Add sample_sk (sample_ck ''b1'') NewResponseCtxs,
     sv_serverTransactions := Some [(sample_sk, sample_txn)]\<rparr>"

definition sample_branch :: client_txn where
  "sample_branch = (newClientTransaction True (sample_ck ''b1'') sample_invite True)\<lparr>c_Err := Some ErrTransactionTimedOut\<rparr>"

lemma sample_busy_inv: "ctxs_inv (px_ctxs sample_busy)" "bound (px_ctxs sample_busy) sample_sk = {sample_ck ''b1''}"
  by (auto simp: sample_busy_def ctxs_inv_Add ctxs_inv_new bound_def GetStFromCt_Add split: if_splits)

definition sample_answered :: proxy where
  "sample_answered = (case clientTransactionErrorHandler sample_env sample_branch sample_busy of Inr x \<Rightarrow> x | Inl _ \<Rightarrow> sample_busy)"

theorem branch_error_answers_once_witness:
  "\<exists>rep. px_out sample_answered = [ToServerTxn sample_sk rep] \<and> m_StatusCode rep = 408 \<and> ctxs_inv (px_ctxs sample_answered)"
proof -
  have 1: "GetStFromCt (px_ctxs sample_busy) (c_Key sample_branch) = Some sample_sk"
    "lookupServerTransaction sample_sk sample_busy = Some sample_txn"
    "clientTransactionErrorHandler sample_env sample_branch sample_busy = Inr sample_answered" by code_simp+
  have 2: "live (s_State sample_txn)" "s_Key sample_txn = sample_sk" "c_Err sample_branch = Some ErrTransactionTimedOut"
    "c_Key sample_branch = sample_ck ''b1''" "px_out sample_busy = []" by code_simp+
  note t = branch_error_answers_once [OF sample_busy_inv(1) 1(1,2) 2(1,2) 1(3), of sample_sk]
  have "length (px_out sample_answered) = 1" by code_simp
  then show ?thesis using t unfolding 2(3-5) by (auto simp: sample_busy_inv(2) answers_def)
qed

section \<open>Requests that are not handled\<close>

text \<open>
  C36: When two copies of a request are handled before either is in the table, the second one is
  refused, and refusing it makes the server forget the transaction of the first one: its
  responses find it no more, and a third copy starts the request anew. The entries of other
  requests stay.
\<close>

theorem duplicate_forgets_original:
  assumes "GenerateServerTransactionKey msg = Inr (Inr k)" and "m_Method msg \<noteq> ''ACK''"
    and "lookupServerTransaction k p = Some t"
  shows "\<exists>p'. requestHandler ev reg msg p = Inr (Some ErrTransactionDuplicated, p') \<and>
    lookupServerTransaction k p' = None \<and>
    (\<forall>k'. k' \<noteq> k \<longrightarrow> lookupServerTransaction k' p' = lookupServerTransaction k' p) \<and>
    px_out p' = px_out p @ [StartServerTxn k, DestroyServerTxn k]"
proof -
  let ?t = "newServerTransaction (m_Method msg = ''INVITE'') k msg"
  let ?p0 = "emit (StartServerTxn k) p"
  let ?p1 = "?p0\<lparr>sv_serverTransactions := Some (made (sv_serverTransactions p))\<rparr>"
  let ?p2 = "srv_DeleteServerTransaction k (emit (DestroyServerTxn k) ?p1)"
  have key: "s_Key ?t = k" by (simp add: newServerTransaction_def)
  have "AddServerTransaction k ?t ?p0 = (Some ErrTransactionDuplicated, ?p1)"
    using assms(3) by (simp add: AddServerTransaction_def lookupServerTransaction_def)
  then have "add_server_txn (Some ?t) p = (Some ErrTransactionDuplicated, ?p2)"
    by (simp add: add_server_txn_def key)
  then have "requestHandler ev reg msg p = Inr (Some ErrTransactionDuplicated, ?p2)"
    using assms(1,2) by (simp add: requestHandler_def Let_def)
  moreover have "lookupServerTransaction k ?p2 = None \<and>
      (\<forall>k'. k' \<noteq> k \<longrightarrow> lookupServerTransaction k' ?p2 = lookupServerTransaction k' p) \<and>
      px_out ?p2 = px_out p @ [StartServerTxn k, DestroyServerTxn k]"
    by (simp add: srv_DeleteServerTransaction_def lookupServerTransaction_def map_get_def map_delete_def made_def
        emit_def delete_conv' split: option.split)
  ultimately show ?thesis by blast
qed

definition sample_key :: server_key where
  "sample_key = (case GenerateServerTransactionKey sample_invite of Inr (Inr k) \<Rightarrow> k | _ \<Rightarrow> sample_sk)"

theorem duplicate_forgets_original_witness:
  "\<exists>p'. requestHandler sample_env (Inr None) sample_invite
        (sample_proxy\<lparr>sv_serverTransactions := Some [(sample_key, sample_txn)]\<rparr>)
      = Inr (Some ErrTransactionDuplicated, p') \<and> lookupServerTransaction sample_key p' = None"
proof -
  have "GenerateServerTransactionKey sample_invite = Inr (Inr sample_key)" "m_Method sample_invite \<noteq> ''ACK''"
    "lookupServerTransaction sample_key (sample_proxy\<lparr>sv_serverTransactions := Some [(sample_key, sample_txn)]\<rparr>)
      = Some sample_txn" by code_simp+
  from duplicate_forgets_original [OF this, of sample_env "Inr None"] show ?thesis by blast
qed

lemma makeErrorResponse_panics:
  assumes "m_ctx msg \<noteq> None" and "txn = None \<or> m_CallID msg = None"
  shows "makeErrorResponse ev msg txn code p = Inl NilDereference"
proof -
  obtain rep where rep: "GenerateResponseFromRequest msg = Inr rep"
    using assms(1) by (auto simp: GenerateResponseFromRequest_def Let_def)
  show ?thesis
  proof (cases "AddToTag (ev_tag ev) (rep\<lparr>m_StatusCode := code\<rparr>)")
    case (Inl e)
    then have "e = NilDereference"
      by (auto simp: AddToTag_def deref_def split: option.splits if_splits)
    then show ?thesis using Inl rep by (simp add: makeErrorResponse_def)
  next
    case (Inr r)
    then show ?thesis using rep assms(2) by (cases txn) (simp_all add: makeErrorResponse_def deref_def)
  qed
qed

text \<open>
  C37: A request ends the program with a nil dereference if it is an ACK whose Max-Forwards is
  missing, or at most 1, so that the error response has no transaction to go to; or if it has
  no Call-ID and is of any method but ACK, REGISTER and CANCEL.
\<close>

theorem requests_that_panic:
  assumes "GenerateServerTransactionKey msg = Inr (Inr k)" and "lookupServerTransaction k p = None"
    and "m_ctx msg \<noteq> None"
    and "m_Method msg = ''ACK'' \<and>
          (case m_MaxForwards msg of None \<Rightarrow> True | Some mf \<Rightarrow> - (2 ^ 63) < mf_Remains mf \<and> mf_Remains mf \<le> 1) \<or>
        m_Method msg \<noteq> ''ACK'' \<and> m_Method msg \<noteq> ''REGISTER'' \<and> m_Method msg \<noteq> ''CANCEL'' \<and> m_CallID msg = None"
  shows "requestHandler ev reg msg p = Inl NilDereference"
  using assms(4)
proof (elim disjE conjE)
  assume ack: "m_Method msg = ''ACK''" and mf: "case m_MaxForwards msg of None \<Rightarrow> True
    | Some mf \<Rightarrow> - (2 ^ 63) < mf_Remains mf \<and> mf_Remains mf \<le> 1"
  have "ackHandler msg p = Inl NilDereference \<or> ackHandler msg p = Inr (Some 483, p)"
  proof (cases "m_MaxForwards msg")
    case (Some f)
    then have "wrap64 (mf_Remains f - 1) = mf_Remains f - 1" using mf by (intro wrap64_id) (simp add: in_int64_def)
    then show ?thesis using Some mf
      by (simp add: ackHandler_def generateForwardingRequestByRouteHeader_def generateForwardingRequest_def
          deref_def max_forwards_Decrement_def Let_def)
  qed (simp add: ackHandler_def generateForwardingRequestByRouteHeader_def generateForwardingRequest_def deref_def Let_def)
  then show ?thesis
    using assms(1) ack makeErrorResponse_panics [OF assms(3), of None]
    by (auto simp: requestHandler_def add_server_txn_def request_method_def)
next
  assume m: "m_Method msg \<noteq> ''ACK''" "m_Method msg \<noteq> ''REGISTER''" "m_Method msg \<noteq> ''CANCEL''" "m_CallID msg = None"
  let ?u = "newServerTransaction (m_Method msg = ''INVITE'') k msg"
  obtain p1 where t: "add_server_txn (Some ?u) p = (None, p1)"
    using assms(2) by (simp add: add_server_txn_def newServerTransaction_def AddServerTransaction_def lookupServerTransaction_def)
  have "request_method ev reg msg (Some ?u) p1 = Inl NilDereference \<or>
      (\<exists>code. request_method ev reg msg (Some ?u) p1 = Inr (Some code, p1))"
    using m by (simp add: request_method_def inviteHandler_def nonInviteHandler_def deref_def)
  then show ?thesis
    using assms(1) m(1) t makeErrorResponse_panics [OF assms(3) disjI2 [OF m(4)], of ev "Some ?u"]
    by (elim disjE exE) (simp_all add: requestHandler_def)
qed

theorem requests_that_panic_witness:
  "requestHandler sample_env (Inr None) (sample_invite\<lparr>m_Method := ''ACK'', m_MaxForwards := Some \<lparr>mf_Remains = 1\<rparr>,
     m_ctx := Some Background\<rparr>) sample_proxy = Inl NilDereference"
proof (rule requests_that_panic [of _ sample_key])
  show "GenerateServerTransactionKey (sample_invite\<lparr>m_Method := ''ACK'', m_MaxForwards := Some \<lparr>mf_Remains = 1\<rparr>,
     m_ctx := Some Background\<rparr>) = Inr (Inr sample_key)" by code_simp
qed (simp_all add: sample_proxy_def lookupServerTransaction_def map_get_def)

end
