(* ===== verification/Proxy_Run.thy ===== *)
theory Proxy_Run
  imports Proxy_Facts
begin

text \<open>
  The proxy as a system of events: messages that arrive, transactions that fail, timers that
  fire and what the transaction goroutines do to the tables, in any order. The channels of
  timer C belong to the branch they were made for, and are open as long as the branch is bound.
\<close>

section \<open>Runs without a channel panic\<close>

definition quiet :: "'a run \<Rightarrow> bool" where
  "quiet r \<longleftrightarrow> r \<noteq> Inl CloseOfClosedChannel \<and> r \<noteq> Inl SendOnClosedChannel"

named_theorems quiets

lemma quiet_base [simp, quiets]: "quiet (Inr x)" "quiet (Inl NilDereference)" "quiet (Inl NilTypeAssertion)"
  "quiet (Inl NilParentContext)" "quiet (Inl IndexOutOfRange)" "quiet (deref y)" "quiet (index_at xs i)"
  by (simp_all add: quiet_def deref_def index_at_def split: option.split)

lemma quiet_bindR [quiets]: "quiet m \<Longrightarrow> (\<And>x. m = Inr x \<Longrightarrow> quiet (f x)) \<Longrightarrow> quiet (bindR m f)"
  by (cases m) (simp_all add: quiet_def)

lemma quiet_if [quiets]: "(b \<Longrightarrow> quiet x) \<Longrightarrow> (\<not> b \<Longrightarrow> quiet y) \<Longrightarrow> quiet (if b then x else y)"
  by simp

lemma quiet_option [quiets]:
  "(x = None \<Longrightarrow> quiet a) \<Longrightarrow> (\<And>y. x = Some y \<Longrightarrow> quiet (f y)) \<Longrightarrow> quiet (case x of None \<Rightarrow> a | Some y \<Rightarrow> f y)"
  by (cases x) simp_all

lemma quiet_sum [quiets]:
  "(\<And>y. x = Inl y \<Longrightarrow> quiet (g y)) \<Longrightarrow> (\<And>y. x = Inr y \<Longrightarrow> quiet (f y)) \<Longrightarrow> quiet (case x of Inl y \<Rightarrow> g y | Inr y \<Rightarrow> f y)"
  by (cases x) simp_all

lemma quiet_prod [quiets]: "(\<And>a b. x = (a, b) \<Longrightarrow> quiet (f a b)) \<Longrightarrow> quiet (case x of (a, b) \<Rightarrow> f a b)"
  by (cases x) simp

lemma quiet_list [quiets]:
  "(x = [] \<Longrightarrow> quiet a) \<Longrightarrow> (\<And>y ys. x = y # ys \<Longrightarrow> quiet (f y ys)) \<Longrightarrow> quiet (case x of [] \<Rightarrow> a | y # ys \<Rightarrow> f y ys)"
  by (cases x) simp_all

lemma quiet_Let [quiets]: "quiet (f x) \<Longrightarrow> quiet (Let x f)"
  by simp

subsection \<open>Messages and headers\<close>

lemma quiet_strings [quiets]: "quiet (name_addr_String a)" "quiet (to_String t)" "quiet (contact_String c)" "quiet (nf_String n)"
  by (unfold name_addr_String_def to_String_def contact_String_def nf_String_def) (intro quiets)+

lemma quiet_messages [quiets]:
  "quiet (GenerateResponseFromRequest m)" "quiet (AddToTag r m)" "quiet (GetTopMostVia m)" "quiet (GenerateCancelRequest q)"
  "quiet (GenerateClientTransactionKey m)" "quiet (GenerateServerTransactionKey m)"
  by (unfold GenerateResponseFromRequest_def AddToTag_def GetTopMostVia_def GenerateCancelRequest_def
      GenerateClientTransactionKey_def GenerateServerTransactionKey_def) (intro quiets)+


lemma quiet_last_contact [quiets]: "quiet (last_contact cs old)"
  by (induction cs arbitrary: old) (simp_all add: quiet_bindR quiets)

lemma quiet_records [quiets]: "quiet (contact_of m old)" "quiet (RecordCaller now m c)" "quiet (RecordCallee m c)"
  "quiet (RecordEstablished now m c)"
  by (unfold contact_of_def RecordCaller_def RecordCallee_def RecordEstablished_def) (intro quiets)+

lemma quiet_close [quiets]: "quiet (CallStates_Close fmt c)" "quiet (close_call k c p)"
  by (unfold CallStates_Close_def close_call_def call_String_def Let_def) (intro quiets)+

lemma quiet_NewClient [quiets]: "quiet (NewClientTransaction i rnd s m f)"
  by (unfold NewClientTransaction_def) (intro quiets)

lemma quiet_add_routes [quiets]: "quiet (add_routes rs h)"
  by (induction rs arbitrary: h) (simp_all add: quiet_bindR quiets)

lemma quiet_forwarding [quiets]: "quiet (generateForwardingRequest m)" "quiet (next_hop rts u)"
  "quiet (generateForwardingRequestByRouteHeader m)" "quiet (invite_forward ev m p)" "quiet (forward_request ev i t f p)"
  "quiet (lookupTrunkType a)" "quiet (forwardingResponse m t p)" "quiet (makeErrorResponse ev m tx code p)"
  by (unfold generateForwardingRequest_def next_hop_def generateForwardingRequestByRouteHeader_def invite_forward_def
      forward_request_def lookupTrunkType_def forwardingResponse_def makeErrorResponse_def Let_def) (intro quiets)+

lemma quiet_all_contacts [quiets]: "quiet (all_contacts cs)"
  by (induction cs) (simp_all add: quiet_bindR quiets)

lemma quiet_cancel_one [quiets]: "quiet (cancel_one ev s k p)"
  by (unfold cancel_one_def) (intro quiets)

lemma quiet_cancel_all [quiets]: "quiet (cancel_all ev s ks p)"
  by (induction ks arbitrary: p) (simp_all add: quiet_bindR quiets)

lemma quiet_requests [quiets]:
  "quiet (inviteHandler ev m t p)" "quiet (ackHandler m p)" "quiet (nonInviteHandler ev m t p)"
  "quiet reg \<Longrightarrow> quiet (registerHandler ev reg m t p)" "quiet (cancelHandler ev m t p)"
  "quiet (responseContextCloser ev t k code p)"
  by (unfold inviteHandler_def ackHandler_def nonInviteHandler_def registerHandler_def cancelHandler_def
      responseContextCloser_def Let_def) (intro quiets | assumption)+

lemma quiet_requestHandler [quiets]: "quiet reg \<Longrightarrow> quiet (requestHandler ev reg m p)"
  by (unfold requestHandler_def request_method_def Let_def) (intro quiets | assumption)+

lemma quiet_timerC [quiets]: "quiet (fireTimerC ev st ct p)" "quiet (timerC_expired ev st ct p)"
  "quiet (cancelErrorHandler ev st k e p)"
  by (unfold fireTimerC_def timerC_expired_def cancelErrorHandler_def) (intro quiets | simp add: quiet_requests split: protocol_error.split)+

lemma quiet_redirection [quiets]: "quiet (forwardRedirection ev m k c t p)"
  by (unfold forwardRedirection_def Let_def) (intro quiets)


section \<open>The tables of branches and of timers\<close>

text \<open>
  The channels of a timer are a pair of neighbours that no other timer has, they exist, and
  they are open while the branch is bound.
\<close>

definition timers_own :: "timerC_handlers \<Rightarrow> nat \<Rightarrow> bool" where
  "timers_own t n \<longleftrightarrow> even n \<and>
     (\<forall>k u d. TimerC_Get k t = Some (u, d) \<longrightarrow> even u \<and> d = Suc u \<and> d < n \<and>
       (\<forall>k' d'. TimerC_Get k' t = Some (u, d') \<longrightarrow> k' = k))"

definition branches_open :: "response_ctxs \<Rightarrow> timerC_handlers \<Rightarrow> nat list \<Rightarrow> bool" where
  "branches_open c t cl \<longleftrightarrow>
     (\<forall>k u d. GetStFromCt c k \<noteq> None \<and> TimerC_Get k t = Some (u, d) \<longrightarrow> u \<notin> set cl \<and> d \<notin> set cl)"

definition tables_inv :: "response_ctxs \<times> timerC_handlers \<times> nat \<times> nat list \<Rightarrow> bool" where
  "tables_inv = (\<lambda>(c, t, n, cl). ctxs_inv c \<and> timers_own t n \<and> branches_open c t cl \<and> (\<forall>m \<in> set cl. m < n))"

lemma TimerC_Get_Add: "TimerC_Get k (TimerC_Add n k' t) = (if k = k' then Some (n, Suc n) else TimerC_Get k t)"
  by (auto simp: TimerC_Get_def TimerC_Add_def update_conv' split: option.split)

lemma TimerC_Get_Remove: "TimerC_Get k (snd (TimerC_Remove k' t)) = (if k = k' then None else TimerC_Get k t)"
  by (auto simp: TimerC_Get_def TimerC_Remove_def delete_conv' split: option.split)

lemma GetStFromCt_Remove: "GetStFromCt (snd (ResponseCtxs_Remove ct c)) k = (if k = ct then None else GetStFromCt c k)"
  by (cases "GetStFromCt c ct") (auto simp: Remove_none Remove_some(2))

lemma timers_ownD: "timers_own t n \<Longrightarrow> TimerC_Get k t = Some (u, d) \<Longrightarrow> even u \<and> d = Suc u \<and> d < n"
  by (auto simp: timers_own_def)

lemma timers_own_apart:
  assumes "timers_own t n" and "TimerC_Get k t = Some (u, d)" and "TimerC_Get k' t = Some (u', d')" and "k \<noteq> k'"
  shows "{u', d'} \<inter> {u, d} = {}"
proof -
  note a = timers_ownD [OF assms(1,2)] timers_ownD [OF assms(1,3)]
  have "u \<noteq> u'" using assms by (auto simp: timers_own_def)
  then show ?thesis using a by auto
qed

lemma tables_inv_new: "tables_inv (NewResponseCtxs, NewTimerCHandlers, 0, [])"
  by (simp add: tables_inv_def ctxs_inv_new timers_own_def branches_open_def NewTimerCHandlers_def TimerC_Get_def)

lemma tables_inv_bind:
  assumes "tables_inv (c, t, n, cl)" and "GetStFromCt c k = None" and "TimerC_Get k t = None"
  shows "tables_inv (ResponseCtxs_Add s k c, t, n, cl)"
  using assms by (auto simp: tables_inv_def ctxs_inv_Add branches_open_def GetStFromCt_Add)

lemma tables_inv_timer:
  assumes "tables_inv (c, t, n, cl)"
  shows "tables_inv (c, TimerC_Add n k t, n + 2, cl)"
proof -
  have own: "timers_own t n" and op: "branches_open c t cl" and cl: "\<forall>m \<in> set cl. m < n"
    using assms by (simp_all add: tables_inv_def)
  have old: "u \<noteq> n" if "TimerC_Get k' t = Some (u, d)" for k' u d using timers_ownD [OF own that] by simp
  have "timers_own (TimerC_Add n k t) (n + 2)"
    using own old unfolding timers_own_def TimerC_Get_Add by (auto simp: less_SucI)
  moreover have "branches_open c (TimerC_Add n k t) cl"
    using op cl unfolding branches_open_def TimerC_Get_Add by (auto dest: less_imp_neq)
  ultimately show ?thesis using assms by (auto simp: tables_inv_def)
qed

lemma tables_inv_unbind: "tables_inv (c, t, n, cl) \<Longrightarrow> tables_inv (snd (ResponseCtxs_Remove k c), t, n, cl)"
  by (auto simp: tables_inv_def Remove_facts(5) branches_open_def GetStFromCt_Remove)

lemma tables_inv_untimed: "tables_inv (c, t, n, cl) \<Longrightarrow> tables_inv (c, snd (TimerC_Remove k t), n, cl)"
  by (auto simp: tables_inv_def timers_own_def branches_open_def TimerC_Get_Remove)

lemma tables_inv_stop:
  assumes "tables_inv (c, t, n, cl)" and "TimerC_Get k t = Some (u, d)" and "set ms \<subseteq> {u, d}"
  shows "tables_inv (snd (ResponseCtxs_Remove k c), t, n, ms @ cl)"
proof -
  have own: "timers_own t n" and op: "branches_open c t cl" using assms(1) by (simp_all add: tables_inv_def)
  have "branches_open (snd (ResponseCtxs_Remove k c)) t (ms @ cl)"
    unfolding branches_open_def GetStFromCt_Remove
  proof (intro allI impI)
    fix k' u' d'
    assume "(if k' = k then None else GetStFromCt c k') \<noteq> None \<and> TimerC_Get k' t = Some (u', d')"
    then have k': "k' \<noteq> k" "GetStFromCt c k' \<noteq> None" "TimerC_Get k' t = Some (u', d')" by (auto split: if_splits)
    have "u' \<notin> set cl \<and> d' \<notin> set cl" using op k' by (auto simp: branches_open_def)
    then show "u' \<notin> set (ms @ cl) \<and> d' \<notin> set (ms @ cl)"
      using timers_own_apart [OF own assms(2) k'(3)] k'(1) assms(3) by auto
  qed
  moreover have "\<forall>m \<in> set (ms @ cl). m < n"
    using timers_ownD [OF own assms(2)] assms(1,3) by (auto simp: tables_inv_def)
  ultimately show ?thesis using assms(1) by (simp add: tables_inv_def Remove_facts(5))
qed


section \<open>What the handlers do to the tables\<close>

definition tables :: "proxy \<Rightarrow> response_ctxs \<times> timerC_handlers \<times> nat \<times> nat list" where
  "tables p = (px_ctxs p, px_timers p, px_chans p, px_closed p)"

lemma tables_step [simp]:
  "tables (emit e p) = tables p" "tables (put_call k i p) = tables p" "tables (tag_request s r p) = tables p"
  "tables (tag_provisional s r p) = tables p" "tables (server_write t m p) = tables p" "tables (client_write u m p) = tables p"
  "tables (AddClientTransaction c u p) = tables p" "tables (srv_DeleteServerTransaction s p) = tables p"
  "tables (p\<lparr>px_calls := x\<rparr>) = tables p" "tables (p\<lparr>sv_serverTransactions := y\<rparr>) = tables p"
  "tables (p\<lparr>sv_clientTransactions := z\<rparr>) = tables p"
  by (simp_all add: tables_def put_call_def tag_request_def tag_provisional_def server_write_def client_write_def
      AddClientTransaction_def srv_DeleteServerTransaction_def split: option.split)

lemma out_step [simp]:
  "px_out (srv_DeleteServerTransaction s p) = px_out p" "px_out (p\<lparr>px_calls := x\<rparr>) = px_out p"
  "px_out (p\<lparr>px_ctxs := c\<rparr>) = px_out p"
  by (simp_all add: srv_DeleteServerTransaction_def)

lemma tables_AddServer: "AddServerTransaction k t p = (e, p') \<Longrightarrow> tables p' = tables p \<and> px_out p' = px_out p"
  by (auto simp: AddServerTransaction_def Let_def tables_def split: if_splits)

lemma tables_close_call: "close_call k i p = Inr p' \<Longrightarrow> tables p' = tables p"
  by (auto simp: close_call_def split: prod.splits)

lemma tables_makeErrorResponse:
  assumes "makeErrorResponse ev m tx code p = Inr p'" shows "tables p' = tables p"
  using assms by (auto simp: makeErrorResponse_def Let_def split: option.splits dest!: tables_close_call)

lemma tables_forwardingResponse: "forwardingResponse m t p = Inr p' \<Longrightarrow> tables p' = tables p"
  by (auto simp: forwardingResponse_def Let_def split: option.splits)

lemma tables_cancel_one: "cancel_one ev s k p = Inr p' \<Longrightarrow> tables p' = tables p"
  by (auto simp: cancel_one_def split: option.splits sum.splits prod.splits)

lemma tables_cancel_all: "cancel_all ev s ks p = Inr p' \<Longrightarrow> tables p' = tables p"
  by (induction ks arbitrary: p) (auto dest: tables_cancel_one)


text \<open>A new branch is bound, with or without timer C; its transaction was started by the same step.\<close>

definition binds :: "server_key \<Rightarrow> client_key \<Rightarrow> bool \<Rightarrow> proxy \<Rightarrow> proxy \<Rightarrow> bool" where
  "binds s k timed p p' \<longleftrightarrow> (\<exists>es. px_out p' = px_out p @ es \<and> StartClientTxn k \<in> set es) \<and>
     tables p' = (ResponseCtxs_Add s k (px_ctxs p), if timed then TimerC_Add (px_chans p) k (px_timers p) else px_timers p,
       if timed then px_chans p + 2 else px_chans p, px_closed p)"

lemma binds_forward_request:
  assumes "forward_request ev i txn f p = Inr (f1, ct, p')"
  shows "binds (s_Key txn) (c_Key ct) False p p'"
proof -
  have "px_timers p' = px_timers p \<and> px_closed p' = px_closed p"
    using assms by (auto simp: forward_request_def Let_def client_write_def AddClientTransaction_def split: prod.splits)
  then show ?thesis using forward_request_facts [OF assms] by (simp add: binds_def tables_def)
qed

lemma binds_forward_ex: "forward_request ev i txn f p = Inr (f1, ct, p') \<Longrightarrow> \<exists>k. binds (s_Key txn) k False p p'"
  by (rule exI, rule binds_forward_request)

lemma binds_timed:
  assumes "binds s k False p p1" and "tables p2 = tables p1" and "px_out p2 = px_out p1"
  shows "binds s k True p (start_timerC k p2)"
  using assms by (auto simp: binds_def tables_def start_timerC_def Let_def)

lemma binds_after:
  assumes "binds s k b p p'" and "tables p = tables p0" and "px_out p = px_out p0 @ es"
  shows "binds s k b p0 p'"
  using assms by (auto simp: binds_def tables_def)

lemma tables_invite:
  assumes "inviteHandler ev m t p = Inr (st, p')"
  shows "tables p' = tables p \<or> st = None \<and> (\<exists>k. binds (s_Key t) k True p p')"
proof -
  obtain ci info where c: "m_CallID m = Some ci" "RecordCaller (ev_now ev) m NewCallInfo = Inr info"
    using assms by (auto simp: inviteHandler_def deref_def split: option.splits)
  let ?p1 = "p\<lparr>px_calls := snd (CallStates_Add info (px_calls p))\<rparr>"
  obtain r where r: "invite_forward ev m ?p1 = Inr r" using assms c by (auto simp: inviteHandler_def Let_def)
  show ?thesis
  proof (cases r)
    case (Inl code)
    then show ?thesis using assms c r by (auto simp: inviteHandler_def Let_def)
  next
    case (Inr f)
    then obtain f1 ct p2 info' where f: "forward_request ev True t f ?p1 = Inr (f1, ct, p2)"
      and p': "st = None" "p' = start_timerC (c_Key ct) (if call_id_String ci = [] then p2 else put_call (call_id_String ci) info' p2)"
      using assms c r by (auto simp: inviteHandler_def Let_def)
    have "binds (s_Key t) (c_Key ct) True ?p1 p'"
      unfolding p' by (rule binds_timed [OF binds_forward_request [OF f]]) simp_all
    then have "binds (s_Key t) (c_Key ct) True p p'" by (rule binds_after [where es = "[]"]) simp_all
    then show ?thesis using p'(1) by - (rule disjI2, rule conjI, assumption, rule exI)
  qed
qed

lemma tables_nonInvite:
  assumes "nonInviteHandler ev m t p = Inr (st, p')"
  shows "tables p' = tables p \<or> st = None \<and> (\<exists>k. binds (s_Key t) k False p p')"
proof (cases "tables p' = tables p")
  case False
  then obtain f f1 ct where "st = None" and "forward_request ev False t f p = Inr (f1, ct, p')"
    using assms by (auto simp: nonInviteHandler_def split: sum.splits if_splits)
  then show ?thesis using binds_forward_ex by - (rule disjI2, rule conjI, assumption, rule binds_forward_ex)
qed simp

lemma tables_ack: "ackHandler m p = Inr (st, p') \<Longrightarrow> tables p' = tables p"
  by (auto simp: ackHandler_def split: sum.splits)

lemma tables_register: "registerHandler ev reg m t p = Inr (st, p') \<Longrightarrow> tables p' = tables p"
  by (auto simp: registerHandler_def split: option.splits)

lemma tables_cancel: "cancelHandler ev m t p = Inr (st, p') \<Longrightarrow> tables p' = tables p"
  by (auto simp: cancelHandler_def Let_def split: sum.splits option.splits dest!: tables_cancel_all)

lemma tables_request_method:
  assumes "request_method ev reg m tx p = Inr (st, p')"
  shows "tables p' = tables p \<or> st = None \<and> (\<exists>s k b. binds s k b p p')"
proof (cases "m_Method m = ''ACK''")
  case True
  then show ?thesis using assms tables_ack by (auto simp: request_method_def)
next
  case False
  then obtain t where t: "tx = Some t" using assms by (auto simp: request_method_def deref_def split: option.splits)
  show ?thesis
    using assms False tables_invite tables_nonInvite tables_register tables_cancel
    unfolding request_method_def t deref_simps bindR_simps by (fastforce split: if_splits)
qed

lemma tables_add_server:
  "add_server_txn tx p = (e, p') \<Longrightarrow> tables p' = tables p \<and> (\<exists>es. px_out p' = px_out p @ es)"
  by (auto simp: add_server_txn_def Let_def split: option.splits prod.splits dest!: tables_AddServer)

lemma tables_requestHandler:
  assumes "requestHandler ev reg m p = Inr (e, p')"
  shows "tables p' = tables p \<or> (\<exists>s k b. binds s k b p p')"
proof -
  obtain r where r: "GenerateServerTransactionKey m = Inr r" using assms by (auto simp: requestHandler_def)
  show ?thesis
  proof (cases r)
    case (Inl x)
    then show ?thesis using assms r by (simp add: requestHandler_def)
  next
    case (Inr key)
    let ?tx = "if m_Method m = ''ACK'' then None else Some (newServerTransaction (m_Method m = ''INVITE'') key m)"
    obtain e1 p1 where a: "add_server_txn ?tx p = (e1, p1)" by fastforce
    note t = tables_add_server [OF a]
    show ?thesis
    proof (cases e1)
      case (Some x)
      then have "p' = p1" using assms r Inr a by (auto simp: requestHandler_def Let_def)
      then show ?thesis using t by simp
    next
      case None
      then obtain status p2 where q: "request_method ev reg m ?tx p1 = Inr (status, p2)"
        and p': "(case status of None \<Rightarrow> Inr (None, p2)
          | Some code \<Rightarrow> bindR (makeErrorResponse ev m ?tx code p2) (\<lambda>p3. Inr (None, p3))) = Inr (e, p')"
        using assms r Inr a by (auto simp: requestHandler_def Let_def)
      from tables_request_method [OF q] show ?thesis
      proof (elim disjE conjE exE)
        assume "tables p2 = tables p1"
        then show ?thesis using p' t by (auto split: option.splits dest: tables_makeErrorResponse)
      next
        fix s k b assume "status = None" and "binds s k b p1 p2"
        then have "binds s k b p p'" using p' t binds_after [of s k b p1 p2 p] by auto
        then show ?thesis by blast
      qed
    qed
  qed
qed


section \<open>The invariant\<close>

definition proxy_inv :: "proxy \<Rightarrow> bool" where
  "proxy_inv p \<longleftrightarrow> tables_inv (tables p)"

text \<open>The transactions a step starts have keys that no branch and no timer has.\<close>

definition fresh_keys :: "proxy \<Rightarrow> proxy \<Rightarrow> bool" where
  "fresh_keys p p' \<longleftrightarrow>
     list_all (\<lambda>e. case e of
         StartClientTxn k \<Rightarrow> GetStFromCt (px_ctxs p) k = None \<and> TimerC_Get k (px_timers p) = None
       | _ \<Rightarrow> True) (drop (length (px_out p)) (px_out p'))"

lemma same_tables_inv: "tables p' = tables p \<Longrightarrow> proxy_inv p \<Longrightarrow> proxy_inv p'"
  by (simp add: proxy_inv_def)

lemma inv_binds:
  assumes "binds s k b p p'" and "fresh_keys p p'" and "proxy_inv p"
  shows "proxy_inv p'"
proof -
  have new: "GetStFromCt (px_ctxs p) k = None \<and> TimerC_Get k (px_timers p) = None"
    using assms(1,2) by (fastforce simp: binds_def fresh_keys_def list_all_iff)
  then have "tables_inv (ResponseCtxs_Add s k (px_ctxs p), px_timers p, px_chans p, px_closed p)"
    using assms(3) by (simp add: proxy_inv_def tables_def tables_inv_bind)
  then show ?thesis using assms(1) tables_inv_timer by (simp add: proxy_inv_def binds_def)
qed

text \<open>A branch ends: it is bound no more, and only channels of its own timer are closed.\<close>

definition ended :: "client_key \<Rightarrow> proxy \<Rightarrow> proxy \<Rightarrow> bool" where
  "ended k p p1 \<longleftrightarrow>
     (\<exists>ms. tables p1 = (snd (ResponseCtxs_Remove k (px_ctxs p)), px_timers p, px_chans p, ms @ px_closed p) \<and>
       (ms = [] \<or> (\<exists>u d. TimerC_Get k (px_timers p) = Some (u, d) \<and> set ms \<subseteq> {u, d})))"

lemma inv_ended: "ended k p p1 \<Longrightarrow> proxy_inv p \<Longrightarrow> proxy_inv p1"
  using tables_inv_stop tables_inv_unbind by (fastforce simp: ended_def proxy_inv_def tables_def)

lemma ended_unbind: "ended k p (p\<lparr>px_ctxs := snd (ResponseCtxs_Remove k (px_ctxs p))\<rparr>)"
  unfolding ended_def by (rule exI [of _ "[]"]) (simp add: tables_def)

lemma ended_same: "ended k p p1 \<Longrightarrow> tables p2 = tables p1 \<Longrightarrow> ended k p p2"
  by (simp add: ended_def)

lemma fresh_ended:
  assumes "fresh_keys p p'" and "ended k p p1" and "px_out p1 = px_out p"
  shows "fresh_keys p1 p'"
proof -
  have t: "px_timers p1 = px_timers p" and c: "px_ctxs p1 = snd (ResponseCtxs_Remove k (px_ctxs p))"
    using assms(2) by (auto simp: ended_def tables_def)
  show ?thesis
    using assms(1) unfolding fresh_keys_def assms(3)
    by (rule list.pred_mono_strong) (auto simp: t c GetStFromCt_Remove split: proxy_effect.splits)
qed

lemma close_chan_tables:
  "close_chan n p = Inr p' \<Longrightarrow> px_out p' = px_out p \<and> tables p' = (px_ctxs p, px_timers p, px_chans p, n # px_closed p)"
  by (auto simp: close_chan_def tables_def split: if_splits)

lemma stop_timerC_ended:
  assumes "stop_timerC (TimerC_Get k (px_timers p)) p = Inr p1"
  shows "ended k p (p1\<lparr>px_ctxs := snd (ResponseCtxs_Remove k (px_ctxs p1))\<rparr>) \<and> px_out p1 = px_out p"
proof (cases "TimerC_Get k (px_timers p)")
  case None
  then show ?thesis using assms ended_unbind by (simp add: stop_timerC_def)
next
  case (Some ud)
  obtain u d where ud: "ud = (u, d)" by fastforce
  then obtain p0 where 1: "close_chan d p = Inr p0" "close_chan u p0 = Inr p1" using assms Some by (auto simp: stop_timerC_def)
  note t = close_chan_tables [OF 1(1)] close_chan_tables [OF 1(2)]
  have "ended k p (p1\<lparr>px_ctxs := snd (ResponseCtxs_Remove k (px_ctxs p1))\<rparr>)"
    unfolding ended_def using t Some ud by (intro exI [of _ "[u, d]"]) (auto simp: tables_def)
  then show ?thesis using t by simp
qed

lemma open_channels:
  assumes "proxy_inv p" and "GetStFromCt (px_ctxs p) k \<noteq> None" and "TimerC_Get k (px_timers p) = Some (u, d)"
  shows "u \<notin> set (px_closed p)" "d \<notin> set (px_closed p)" "u \<noteq> d"
  using assms timers_ownD [of "px_timers p" "px_chans p" k u d]
  by (auto simp: proxy_inv_def tables_inv_def tables_def branches_open_def)

lemma quiet_stop_timerC:
  assumes "proxy_inv p" and "GetStFromCt (px_ctxs p) k \<noteq> None"
  shows "quiet (stop_timerC (TimerC_Get k (px_timers p)) p)"
  using open_channels [OF assms]
  by (cases "TimerC_Get k (px_timers p)") (auto simp: stop_timerC_def close_chan_def)


section \<open>The handlers keep the invariant\<close>

lemma tables_redirection:
  assumes "forwardRedirection ev m k info t p = Inr p'" and "tables p' \<noteq> tables p"
  shows "\<exists>k. binds (s_Key t) k True p p'"
proof -
  obtain f f1 ct p1 info' where f: "forward_request ev True t f p = Inr (f1, ct, p1)"
    and p': "p' = start_timerC (c_Key ct) (put_call k info' p1)"
    using assms
    by (auto simp: forwardRedirection_def Let_def split: option.splits list.splits prod.splits sum.splits if_splits
        dest!: tables_makeErrorResponse)
  have "binds (s_Key t) (c_Key ct) True p p'"
    unfolding p' by (rule binds_timed [OF binds_forward_request [OF f]]) simp_all
  then show ?thesis by (rule exI)
qed

lemma inv_redirection:
  assumes "forwardRedirection ev m k info t p = Inr p'" and "proxy_inv p" and "fresh_keys p p'"
  shows "proxy_inv p'"
proof (cases "tables p' = tables p")
  case False
  from tables_redirection [OF assms(1) False] obtain k' where "binds (s_Key t) k' True p p'" by (elim exE)
  then show ?thesis using assms(2,3) inv_binds by simp
qed (use assms(2) same_tables_inv in simp)

lemma inv_bye:
  assumes "byeResponseHandler ev m t k c info p = Inr p'" and "proxy_inv p"
  shows "proxy_inv p'"
proof -
  have "tables p' = tables p \<or> ended k p p'"
    using assms(1) ended_same [OF ended_unbind [of k p]]
    by (auto simp: byeResponseHandler_def Let_def split: if_splits dest!: tables_forwardingResponse tables_close_call)
  then show ?thesis using same_tables_inv inv_ended assms(2) by (elim disjE) simp_all
qed

lemma inv_invite_response:
  assumes "invaiteResponseHandler ev m t k c info p = Inr p'" and "proxy_inv p" and "fresh_keys p p'"
  shows "proxy_inv p'"
proof (cases "200 \<le> m_StatusCode m")
  case False
  then have "tables p' = tables p"
    using assms(1)
    by (auto simp: invaiteResponseHandler_def Let_def split: if_splits option.splits dest!: tables_forwardingResponse)
  then show ?thesis using same_tables_inv assms(2) by simp
next
  case True
  then obtain p1 where s: "stop_timerC (TimerC_Get k (px_timers p)) p = Inr p1"
    using assms(1) by (auto simp: invaiteResponseHandler_def Let_def split: if_splits)
  let ?p2 = "p1\<lparr>px_ctxs := snd (ResponseCtxs_Remove k (px_ctxs p1))\<rparr>"
  have e: "ended k p ?p2" "px_out ?p2 = px_out p" using stop_timerC_ended [OF s] by simp_all
  have inv2: "proxy_inv ?p2" by (rule inv_ended [OF e(1) assms(2)])
  show ?thesis
  proof (cases "300 \<le> m_StatusCode m \<and> m_StatusCode m < 400")
    case redirect: True
    then have "forwardRedirection ev m c info t ?p2 = Inr p'"
      using assms(1) s by (simp add: invaiteResponseHandler_def Let_def)
    then show ?thesis using inv2 fresh_ended [OF assms(3) e] by (rule inv_redirection)
  next
    case False
    then have "tables p' = tables ?p2"
      using assms(1) s True
      by (auto simp: invaiteResponseHandler_def Let_def split: if_splits dest!: tables_forwardingResponse tables_close_call)
    then show ?thesis using same_tables_inv inv2 by simp
  qed
qed

lemma inv_response:
  assumes "responseHandler ev m p = Inr (e, p')" and "proxy_inv p" and "fresh_keys p p'"
  shows "proxy_inv p'"
proof (cases "p' = p")
  case False
  then obtain t k c info where
    r: "(if cs_Method (the (m_CSeq m)) = ''INVITE'' then invaiteResponseHandler ev m t k c info p
         else if cs_Method (the (m_CSeq m)) = ''BYE'' then byeResponseHandler ev m t k c info p
         else if m_StatusCode m = 100 then Inr p
         else forwardingResponse m t
           (if 200 \<le> m_StatusCode m then p\<lparr>px_ctxs := snd (ResponseCtxs_Remove k (px_ctxs p))\<rparr> else p)) = Inr p'"
    using assms(1) unfolding responseHandler_def Let_def
    by (auto split: option.splits sum.splits if_splits)
  have "proxy_inv p'" if "forwardingResponse m t
      (if 200 \<le> m_StatusCode m then p\<lparr>px_ctxs := snd (ResponseCtxs_Remove k (px_ctxs p))\<rparr> else p) = Inr p'"
    using tables_forwardingResponse [OF that] same_tables_inv inv_ended [OF ended_unbind assms(2)] assms(2)
    by (auto split: if_splits)
  then show ?thesis using r inv_invite_response inv_bye assms(2,3) by (auto split: if_splits)
qed (use assms(2) in simp)


lemma ended_closer: "responseContextCloser ev st k code p = Inr p' \<Longrightarrow> ended k p p'"
  using ended_same [OF ended_unbind [of k p]]
  by (auto simp: responseContextCloser_def Let_def split: prod.splits if_splits option.splits)

lemma inv_closer: "responseContextCloser ev st k code p = Inr p' \<Longrightarrow> proxy_inv p \<Longrightarrow> proxy_inv p'"
  by (rule inv_ended [OF ended_closer])

lemma inv_fireTimerC:
  assumes "fireTimerC ev st ct p = Inr p'" and "proxy_inv p"
  shows "proxy_inv p'"
proof (cases "c_ProvisionalRes ct = None")
  case True
  then have "responseContextCloser ev st (c_Key ct) 408 p = Inr p'" using assms(1) by (simp add: fireTimerC_def)
  then show ?thesis using assms(2) by (rule inv_closer)
next
  case False
  then obtain r where r: "GenerateCancelRequest (Some (c_Request ct)) = Inr r"
    using assms(1) by (auto simp: fireTimerC_def)
  show ?thesis
  proof (cases r)
    case (Inl x)
    then have "responseContextCloser ev st (c_Key ct) 408 (emit (DestroyClientTxn (c_Key ct)) p) = Inr p'"
      using assms(1) False r by (simp add: fireTimerC_def)
    then show ?thesis by (rule inv_closer) (rule same_tables_inv [OF _ assms(2)], simp)
  next
    case (Inr can)
    then have "tables p' = tables p" using assms(1) False r by (auto simp: fireTimerC_def)
    then show ?thesis using assms(2) by (rule same_tables_inv)
  qed
qed

lemma inv_timer_removed:
  "proxy_inv p \<Longrightarrow> proxy_inv (p\<lparr>px_timers := snd (TimerC_Remove k (px_timers p))\<rparr>)"
  by (simp add: proxy_inv_def tables_def tables_inv_untimed)

lemma inv_timerC_expired: "timerC_expired ev st ct p = Inr p' \<Longrightarrow> proxy_inv p \<Longrightarrow> proxy_inv p'"
  using inv_fireTimerC inv_timer_removed by (auto simp: timerC_expired_def)

lemma inv_cancel_error: "cancelErrorHandler ev st k e p = Inr p' \<Longrightarrow> proxy_inv p \<Longrightarrow> proxy_inv p'"
  using inv_closer by (auto simp: cancelErrorHandler_def split: option.splits protocol_error.splits)

lemma inv_branch_error:
  assumes "clientTransactionErrorHandler ev ct p = Inr p'" and "proxy_inv p"
  shows "proxy_inv p'"
proof (cases "GetStFromCt (px_ctxs p) (c_Key ct)")
  case None
  then show ?thesis using assms by (simp add: clientTransactionErrorHandler_def)
next
  case (Some s)
  then obtain p1 where c: "(case TimerC_Get (c_Key ct) (px_timers p) of None \<Rightarrow> Inr p | Some (_, d) \<Rightarrow> close_chan d p) = Inr p1"
    using assms(1) by (auto simp: clientTransactionErrorHandler_def)
  let ?p2 = "p1\<lparr>px_ctxs := snd (ResponseCtxs_Remove (c_Key ct) (px_ctxs p1))\<rparr>"
  have "ended (c_Key ct) p ?p2"
  proof (cases "TimerC_Get (c_Key ct) (px_timers p)")
    case None
    then show ?thesis using c ended_unbind by simp
  next
    case timer: (Some ud)
    obtain u d where ud: "ud = (u, d)" by fastforce
    then have "tables p1 = (px_ctxs p, px_timers p, px_chans p, d # px_closed p)"
      using c timer close_chan_tables [of d p p1] by simp
    then show ?thesis unfolding ended_def using timer ud by (intro exI [of _ "[d]"]) (auto simp: tables_def)
  qed
  then have "proxy_inv ?p2" using inv_ended assms(2) by simp
  moreover have "tables p' = tables ?p2"
    using assms(1) Some c
    by (auto simp: clientTransactionErrorHandler_def Let_def split: option.splits prod.splits if_splits dest!: tables_makeErrorResponse)
  ultimately show ?thesis using same_tables_inv by simp
qed

lemma inv_request: "requestHandler ev reg m p = Inr (e, p') \<Longrightarrow> proxy_inv p \<Longrightarrow> fresh_keys p p' \<Longrightarrow> proxy_inv p'"
  by (drule tables_requestHandler, elim disjE exE) (erule same_tables_inv, assumption, erule inv_binds)

section \<open>Events\<close>

text \<open>
  What can happen next. The transactions and the registrar's result an event carries are
  arbitrary; the goroutines of the transactions may change both transaction tables in any way.
\<close>

datatype proxy_event =
    Arrives env "reg_result option run" layer message
  | BranchFails env client_txn
  | CancelFails env server_txn client_key "protocol_error option"
  | TimerCFires env server_txn client_txn
  | TimerCDestroyed client_key
  | CallForgotten string
  | TransactionsChange "(server_key \<times> server_txn) list option" "(client_key \<times> client_txn) list option"

fun proxy_event_step :: "proxy_event \<Rightarrow> proxy \<Rightarrow> proxy run" where
  "proxy_event_step (Arrives ev reg l m) p = bindR (proxyCoreHandler ev reg l m p) (\<lambda>(_, p'). Inr p')"
| "proxy_event_step (BranchFails ev ct) p = clientTransactionErrorHandler ev ct p"
| "proxy_event_step (CancelFails ev st k e) p = cancelErrorHandler ev st k e p"
| "proxy_event_step (TimerCFires ev st ct) p = timerC_expired ev st ct p"
| "proxy_event_step (TimerCDestroyed k) p = Inr (timerC_destroyed k p)"
| "proxy_event_step (CallForgotten c) p = Inr (call_removed c p)"
| "proxy_event_step (TransactionsChange sts cts) p =
     Inr (p\<lparr>sv_serverTransactions := sts, sv_clientTransactions := cts\<rparr>)"

fun registrar_run :: "proxy_event \<Rightarrow> reg_result option run" where
  "registrar_run (Arrives ev reg l m) = reg"
| "registrar_run _ = Inr None"

definition proxy_start :: "proxy \<Rightarrow> bool" where
  "proxy_start p \<longleftrightarrow> px_ctxs p = NewResponseCtxs \<and> px_timers p = NewTimerCHandlers \<and> px_chans p = 0 \<and> px_closed p = []"

inductive proxy_reach :: "proxy \<Rightarrow> bool" where
  start: "proxy_start p \<Longrightarrow> proxy_reach p"
| event: "proxy_reach p \<Longrightarrow> proxy_event_step e p = Inr p' \<Longrightarrow> fresh_keys p p' \<Longrightarrow> proxy_reach p'"

lemma event_keeps_inv:
  assumes "proxy_event_step e p = Inr p'" and "fresh_keys p p'" and "proxy_inv p"
  shows "proxy_inv p'"
proof (cases e)
  case (Arrives ev reg l m)
  then obtain x where x: "proxyCoreHandler ev reg l m p = Inr (x, p')" using assms(1) by auto
  then have "p' = p \<or> requestHandler ev reg m p = Inr (x, p') \<or> responseHandler ev m p = Inr (x, p')"
    by (auto simp: proxyCoreHandler_def split: if_splits)
  then show ?thesis using inv_request inv_response assms(2,3) by (elim disjE) simp_all
next
  case (TimerCDestroyed k)
  then show ?thesis using assms inv_timer_removed by (auto simp: timerC_destroyed_def)
next
  case (CallForgotten c)
  then show ?thesis using assms by (auto simp: call_removed_def intro: same_tables_inv)
next
  case (TransactionsChange a b)
  then show ?thesis using assms by (auto intro!: same_tables_inv [OF _ assms(3)] simp: tables_def)
qed (use assms inv_branch_error inv_cancel_error inv_timerC_expired in auto)

lemma proxy_reach_inv: "proxy_reach p \<Longrightarrow> proxy_inv p"
proof (induction rule: proxy_reach.induct)
  case (start p)
  then show ?case using tables_inv_new by (simp add: proxy_start_def proxy_inv_def tables_def)
qed (rule event_keeps_inv)

end
