(* ===== verification/Proxy_Run_Props.thy ===== *)
theory Proxy_Run_Props
  imports Proxy_Run Proxy_Props
begin

text \<open>
  Properties of the proxy in every state it can reach: no handler panics because of a channel
  of timer C, a final response is passed on once, and a CANCEL reaches all branches.
\<close>

section \<open>Channels of timer C\<close>

lemma quiet_invite_response:
  assumes "proxy_inv p" and "GetStFromCt (px_ctxs p) k \<noteq> None"
  shows "quiet (invaiteResponseHandler ev m t k c info p)"
proof -
  note o = open_channels [OF assms] and s = quiet_stop_timerC [OF assms]
  have "TimerC_Get k (px_timers p) = Some (u, d) \<Longrightarrow> u \<in> set (px_closed p) \<Longrightarrow> False" for u d
    using o(1) by simp
  then show ?thesis
    unfolding invaiteResponseHandler_def Let_def
    by (intro quiets s | erule FalseE | blast)+
qed

lemma quiet_bye: "quiet (byeResponseHandler ev m t k c info p)"
  unfolding byeResponseHandler_def Let_def by (intro quiets)

lemma quiet_responseHandler:
  assumes "proxy_inv p" shows "quiet (responseHandler ev m p)"
  unfolding responseHandler_def Let_def
  by (intro quiets quiet_bye quiet_invite_response [OF assms]) simp_all

lemma quiet_branch_error:
  assumes "proxy_inv p" shows "quiet (clientTransactionErrorHandler ev ct p)"
proof (cases "GetStFromCt (px_ctxs p) (c_Key ct)")
  case None
  then show ?thesis by (simp add: clientTransactionErrorHandler_def)
next
  case (Some s)
  then have bound: "GetStFromCt (px_ctxs p) (c_Key ct) \<noteq> None" by simp
  have "quiet (case TimerC_Get (c_Key ct) (px_timers p) of None \<Rightarrow> Inr p | Some (_, d) \<Rightarrow> close_chan d p)"
  proof (cases "TimerC_Get (c_Key ct) (px_timers p)")
    case timer: (Some ud)
    then show ?thesis using open_channels [OF assms bound] by (cases ud) (simp add: close_chan_def)
  qed simp
  then show ?thesis
    unfolding clientTransactionErrorHandler_def Some option.case Let_def by (rule quiet_bindR) (intro quiets)
qed

definition no_channel_fault :: "'a run \<Rightarrow> bool" where
  "no_channel_fault r \<longleftrightarrow> (\<forall>c \<in> {CloseOfClosedChannel, SendOnClosedChannel}. r \<noteq> Inl c)"

lemma no_channel_fault_quiet: "no_channel_fault r = quiet r"
  by (simp add: no_channel_fault_def quiet_def)

text \<open>
  C2: In every state the proxy can reach, the two tables of response contexts agree and no event
  of whatever kind panics by closing a channel of timer C twice or by sending on a closed one,
  unless the registrar does. The keys of new transactions are unused ones.
\<close>

theorem no_channel_panic:
  assumes "proxy_reach p" and "no_channel_fault (registrar_run e)"
  shows "ctxs_inv (px_ctxs p) \<and> no_channel_fault (proxy_event_step e p)"
proof
  have i: "proxy_inv p" using assms(1) by (rule proxy_reach_inv)
  then show "ctxs_inv (px_ctxs p)" by (simp add: proxy_inv_def tables_inv_def tables_def)
  have reg: "quiet (registrar_run e)" using assms(2) by (simp add: no_channel_fault_quiet)
  show "no_channel_fault (proxy_event_step e p)"
    unfolding no_channel_fault_quiet
  proof (cases e)
    case (Arrives ev r l m)
    then have "quiet r" using reg by simp
    then show "quiet (proxy_event_step e p)"
      unfolding Arrives proxy_event_step.simps proxyCoreHandler_def by (intro quiets quiet_responseHandler [OF i])
  qed (use quiet_branch_error [OF i] quiet_timerC in simp_all)
qed

section \<open>A witness\<close>

definition sample_response :: "int \<Rightarrow> message" where
  "sample_response code = (CreateMessage ''10.1.1.1:5060'')\<lparr>m_Response := True, m_StatusCode := code,
     m_Via := m_Via (fst sample_sent), m_CSeq := m_CSeq sample_invite, m_CallID := m_CallID sample_invite,
     m_To := m_To sample_invite, m_From := m_From sample_invite\<rparr>"

definition sample_arrival :: proxy_event where
  "sample_arrival = Arrives sample_env (Inr None) LayerCore (sample_invite\<lparr>m_ctx := Some Background\<rparr>)"

definition sample_reply_arrival :: "int \<Rightarrow> proxy_event" where
  "sample_reply_arrival code = Arrives sample_env (Inr None) LayerCore (sample_response code)"

definition sample_next :: "proxy_event \<Rightarrow> proxy \<Rightarrow> proxy" where
  "sample_next e p = (case proxy_event_step e p of Inr p' \<Rightarrow> p' | Inl _ \<Rightarrow> p)"

definition sample_called :: proxy where "sample_called = sample_next sample_arrival sample_proxy"

lemma sample_called_reach: "proxy_reach sample_called"
proof (rule proxy_reach.event)
  show "proxy_reach sample_proxy" by (rule proxy_reach.start) (simp add: proxy_start_def sample_proxy_def)
  show "proxy_event_step sample_arrival sample_proxy = Inr sample_called" by code_simp
  show "fresh_keys sample_proxy sample_called" by code_simp
qed

theorem no_channel_panic_witness:
  "ctxs_inv (px_ctxs sample_called) \<and> no_channel_fault (proxy_event_step (sample_reply_arrival 200) sample_called) \<and>
   px_closed (sample_next (sample_reply_arrival 200) sample_called) = [0, 1]"
proof -
  have "no_channel_fault (registrar_run (sample_reply_arrival 200))"
    by (simp add: sample_reply_arrival_def no_channel_fault_def)
  from no_channel_panic [OF sample_called_reach this]
  have "ctxs_inv (px_ctxs sample_called) \<and> no_channel_fault (proxy_event_step (sample_reply_arrival 200) sample_called)" .
  moreover have "px_closed (sample_next (sample_reply_arrival 200) sample_called) = [0, 1]" by code_simp
  ultimately show ?thesis by blast
qed


section \<open>A final response is passed on once\<close>

lemma ended_unbound: "ended k p p1 \<Longrightarrow> GetStFromCt (px_ctxs p1) k = None"
  by (auto simp: ended_def tables_def GetStFromCt_Remove)

lemma tables_ctxs: "tables p' = tables p \<Longrightarrow> px_ctxs p' = px_ctxs p"
  by (simp add: tables_def)

lemma binds_other:
  assumes "binds s k' b p p'" and "GetStFromCt (px_ctxs p) k = None" and "fresh_keys p0 p'"
    and "px_out p = px_out p0" and "GetStFromCt (px_ctxs p0) k \<noteq> None"
  shows "GetStFromCt (px_ctxs p') k = None"
proof -
  have "GetStFromCt (px_ctxs p0) k' = None"
    using assms(1,3,4) by (fastforce simp: binds_def fresh_keys_def list_all_iff)
  then have "k \<noteq> k'" using assms(5) by auto
  then show ?thesis using assms(1,2) by (simp add: binds_def tables_def GetStFromCt_Add)
qed

text \<open>The message a final response becomes, when a second Via tells where it goes.\<close>

definition passed_on :: "message \<Rightarrow> proxy_effect \<Rightarrow> server_key \<Rightarrow> bool" where
  "passed_on m e s \<longleftrightarrow> (case e of
     ToServerTxn s' out \<Rightarrow> s' = s \<and> m_StatusCode out = m_StatusCode m \<and> m_Via out = map_option butlast (m_Via m)
   | _ \<Rightarrow> False)"

definition passed_once :: "message \<Rightarrow> server_key \<Rightarrow> proxy \<Rightarrow> proxy \<Rightarrow> bool" where
  "passed_once m s p p' \<longleftrightarrow>
     (\<exists>es e. px_out p' = px_out p @ es @ [e] \<and> passed_on m e s \<and> (es = [] \<or> (\<exists>c. es = [CallClosed c])))"

lemma forwarding_passes:
  assumes "forwardingResponse m t p = Inr p'" and "m_Via m = Some (us @ [v, w])" and "live (s_State t)"
  shows "tables p' = tables p" and "\<exists>e. px_out p' = px_out p @ [e] \<and> passed_on m e (s_Key t)"
proof -
  show "tables p' = tables p" using assms(1) by (rule tables_forwardingResponse)
  have "ViaHeaders_Pop (us @ [v, w]) = (Some w, us @ [v])" "butlast (us @ [v, w]) = us @ [v]"
    using Pop_snoc [of "us @ [v]" w] by (simp_all add: butlast_append)
  then show "\<exists>e. px_out p' = px_out p @ [e] \<and> passed_on m e (s_Key t)"
    using assms by (auto simp: forwardingResponse_def Let_def writes_live passed_on_def)
qed

text \<open>The handlers of final responses, of INVITE, of BYE and of any other request.\<close>

lemma invite_final_unbound:
  assumes "invaiteResponseHandler ev m t k c info p = Inr p'" and "200 \<le> m_StatusCode m"
    and "GetStFromCt (px_ctxs p) k \<noteq> None" and "fresh_keys p p'"
  shows "GetStFromCt (px_ctxs p') k = None"
proof -
  obtain p1 where s: "stop_timerC (TimerC_Get k (px_timers p)) p = Inr p1"
    using assms(1,2) by (auto simp: invaiteResponseHandler_def Let_def split: if_splits)
  let ?p2 = "p1\<lparr>px_ctxs := snd (ResponseCtxs_Remove k (px_ctxs p1))\<rparr>"
  have e: "ended k p ?p2" "px_out ?p2 = px_out p" using stop_timerC_ended [OF s] by simp_all
  have same: ?thesis if "tables p' = tables ?p2"
    using ended_unbound [OF e(1)] unfolding tables_ctxs [OF that] .
  show ?thesis
  proof (cases "300 \<le> m_StatusCode m \<and> m_StatusCode m < 400")
    case True
    then have r: "forwardRedirection ev m c info t ?p2 = Inr p'"
      using assms(1) s by (simp add: invaiteResponseHandler_def Let_def)
    show ?thesis
    proof (cases "tables p' = tables ?p2")
      case False
      from tables_redirection [OF r False] obtain k' where "binds (s_Key t) k' True ?p2 p'" by (elim exE)
      then show ?thesis using ended_unbound [OF e(1)] assms(4) e(2) assms(3) by (rule binds_other)
    qed (rule same)
  next
    case False
    then have "tables p' = tables ?p2"
      using assms(1,2) s
      by (auto simp: invaiteResponseHandler_def Let_def split: if_splits dest!: tables_forwardingResponse tables_close_call)
    then show ?thesis by (rule same)
  qed
qed

lemma bye_final_unbound:
  assumes "byeResponseHandler ev m t k c info p = Inr p'" and "200 \<le> m_StatusCode m"
  shows "GetStFromCt (px_ctxs p') k = None"
proof -
  have "ended k p p'"
    using assms ended_same [OF ended_unbind [of k p]]
    by (auto simp: byeResponseHandler_def Let_def split: if_splits dest!: tables_forwardingResponse tables_close_call)
  then show ?thesis by (rule ended_unbound)
qed

lemma passed_onceI:
  assumes "forwardingResponse m t q = Inr p'" and "m_Via m = Some (us @ [v, w])" and "live (s_State t)"
    and "px_out q = px_out p \<or> (\<exists>c. px_out q = px_out p @ [CallClosed c])"
  shows "passed_once m (s_Key t) p p'"
proof -
  obtain e where e: "px_out p' = px_out q @ [e]" "passed_on m e (s_Key t)"
    using forwarding_passes(2) [OF assms(1-3)] by (elim exE conjE)
  from assms(4) obtain es where "px_out q = px_out p @ es" "es = [] \<or> (\<exists>c. es = [CallClosed c])" by fastforce
  then show ?thesis using e by (simp add: passed_once_def)
qed

lemma invite_final_passed:
  assumes "invaiteResponseHandler ev m t k c info p = Inr p'" and "200 \<le> m_StatusCode m"
    and "m_StatusCode m < 300 \<or> 400 \<le> m_StatusCode m" and "m_Via m = Some (us @ [v, w])" and "live (s_State t)"
  shows "passed_once m (s_Key t) p p'"
proof -
  obtain p1 where s: "stop_timerC (TimerC_Get k (px_timers p)) p = Inr p1"
    using assms(1,2) by (auto simp: invaiteResponseHandler_def Let_def split: if_splits)
  let ?p2 = "p1\<lparr>px_ctxs := snd (ResponseCtxs_Remove k (px_ctxs p1))\<rparr>"
  have "px_out ?p2 = px_out p" using stop_timerC_ended [OF s] by simp
  moreover obtain q where "forwardingResponse m t q = Inr p'"
    and "px_out q = px_out ?p2 \<or> px_out q = px_out ?p2 @ [CallClosed c]"
    using assms(1-3) s by (auto simp: invaiteResponseHandler_def Let_def split: if_splits dest!: close_call_out)
  ultimately show ?thesis using passed_onceI assms(4,5) by metis
qed

lemma bye_final_passed:
  assumes "byeResponseHandler ev m t k c info p = Inr p'" and "200 \<le> m_StatusCode m"
    and "m_Via m = Some (us @ [v, w])" and "live (s_State t)"
  shows "passed_once m (s_Key t) p p'"
proof -
  obtain q where "forwardingResponse m t q = Inr p'" and "px_out q = px_out p \<or> px_out q = px_out p @ [CallClosed c]"
    using assms(1,2) by (auto simp: byeResponseHandler_def Let_def split: if_splits dest!: close_call_out)
  then show ?thesis using passed_onceI assms(3,4) by metis
qed


lemma other_final:
  assumes "forwardingResponse m t (p\<lparr>px_ctxs := snd (ResponseCtxs_Remove k (px_ctxs p))\<rparr>) = Inr p'"
  shows "GetStFromCt (px_ctxs p') k = None"
    and "m_Via m = Some (us @ [v, w]) \<Longrightarrow> live (s_State t) \<Longrightarrow> passed_once m (s_Key t) p p'"
proof -
  show "GetStFromCt (px_ctxs p') k = None"
    unfolding tables_ctxs [OF tables_forwardingResponse [OF assms]] by (simp add: GetStFromCt_Remove)
  show "m_Via m = Some (us @ [v, w]) \<Longrightarrow> live (s_State t) \<Longrightarrow> passed_once m (s_Key t) p p'"
    by (rule passed_onceI [OF assms]) simp_all
qed

lemma response_of_unbound:
  assumes "GenerateClientTransactionKey m = Inr (Inr k)" and "GetStFromCt (px_ctxs p) k = None" and "m_CallID m \<noteq> None"
  shows "responseHandler ev m p = Inr (None, p)"
proof -
  obtain cs where cs: "m_CSeq m = Some cs"
    using assms(1) by (auto simp: GenerateClientTransactionKey_def GetCSeq_def split: sum.splits prod.splits list.splits option.splits)
  show ?thesis
    using assms cs by (cases "m_CallID m") (simp_all add: responseHandler_def Let_def split: option.split)
qed

text \<open>
  C5: A final response to a bound branch is passed on exactly once, under the Via list without the
  topmost value, unless it redirects an INVITE; the branch is bound no more, so that any further
  response to it, a repeated 200 that the caller may need for its ACK among them, is dropped and
  changes nothing.
\<close>

theorem final_response_once:
  assumes "responseHandler ev m p = Inr (None, p')" and "200 \<le> m_StatusCode m"
    and "GenerateClientTransactionKey m = Inr (Inr k)" and "GetStFromCt (px_ctxs p) k = Some s"
    and "lookupServerTransaction s p = Some t" and "m_CallID m = Some ci"
    and "CallStates_Get (call_id_String ci) (px_calls p) = Some info" and "fresh_keys p p'"
    and "live (s_State t)" and "m_Via m = Some (us @ [v, w])"
    and "GenerateClientTransactionKey m2 = Inr (Inr k)" and "m_CallID m2 \<noteq> None"
  shows "GetStFromCt (px_ctxs p') k = None \<and> responseHandler ev2 m2 p' = Inr (None, p') \<and>
    (passed_once m (s_Key t) p p' \<or> map_option cs_Method (m_CSeq m) = Some ''INVITE'' \<and> 300 \<le> m_StatusCode m \<and> m_StatusCode m < 400)"
proof -
  obtain cs where cs: "m_CSeq m = Some cs"
    using assms(3) by (auto simp: GenerateClientTransactionKey_def GetCSeq_def split: sum.splits prod.splits list.splits option.splits)
  let ?q = "p\<lparr>px_ctxs := snd (ResponseCtxs_Remove k (px_ctxs p))\<rparr>"
  let ?c = "call_id_String ci"
  have bound: "GetStFromCt (px_ctxs p) k \<noteq> None" using assms(4) by simp
  have run: "(if cs_Method cs = ''INVITE'' then invaiteResponseHandler ev m t k ?c info p
      else if cs_Method cs = ''BYE'' then byeResponseHandler ev m t k ?c info p
      else forwardingResponse m t ?q) = Inr p'"
    using assms(1-7) cs by (auto simp: responseHandler_def Let_def)
  have "GetStFromCt (px_ctxs p') k = None \<and>
    (passed_once m (s_Key t) p p' \<or> cs_Method cs = ''INVITE'' \<and> 300 \<le> m_StatusCode m \<and> m_StatusCode m < 400)"
  proof (cases "cs_Method cs = ''INVITE''")
    case True
    then have r: "invaiteResponseHandler ev m t k ?c info p = Inr p'" using run by simp
    show ?thesis
      using invite_final_unbound [OF r assms(2) bound assms(8)] invite_final_passed [OF r assms(2) _ assms(10,9)] True by linarith
  next
    case False
    show ?thesis
    proof (cases "cs_Method cs = ''BYE''")
      case True
      then have r: "byeResponseHandler ev m t k ?c info p = Inr p'" using run by simp
      show ?thesis using bye_final_unbound [OF r assms(2)] bye_final_passed [OF r assms(2,10,9)] by simp
    next
      case other: False
      then have r: "forwardingResponse m t ?q = Inr p'" using run False by simp
      show ?thesis using other_final(1) [OF r] other_final(2) [OF r assms(10,9)] by simp
    qed
  qed
  then show ?thesis using response_of_unbound [OF assms(11) _ assms(12)] cs by simp
qed


definition sample_branch_key :: client_key where
  "sample_branch_key = (case GenerateClientTransactionKey (sample_response 200) of Inr (Inr k) \<Rightarrow> k | _ \<Rightarrow> sample_ck [])"

definition sample_done :: proxy where "sample_done = sample_next (sample_reply_arrival 200) sample_called"

theorem final_response_once_witness:
  "passed_once (sample_response 200) sample_key sample_called sample_done \<and>
   responseHandler sample_env (sample_response 200) sample_done = Inr (None, sample_done)"
proof -
  let ?m = "sample_response 200" and ?p = sample_called
  have "case m_Via ?m of Some [v, w] \<Rightarrow> True | _ \<Rightarrow> False" by code_simp
  then obtain v w where via: "m_Via ?m = Some ([] @ [v, w])" by (auto split: option.splits list.splits)
  have "case m_CallID ?m of Some ci \<Rightarrow> CallStates_Get (call_id_String ci) (px_calls ?p) \<noteq> None | None \<Rightarrow> False" by code_simp
  then obtain ci info where ci: "m_CallID ?m = Some ci"
    and info: "CallStates_Get (call_id_String ci) (px_calls ?p) = Some info" by (auto split: option.splits)
  have "case lookupServerTransaction sample_key ?p of Some t \<Rightarrow> live (s_State t) \<and> s_Key t = sample_key | None \<Rightarrow> False" by code_simp
  then obtain t where t: "lookupServerTransaction sample_key ?p = Some t" "live (s_State t)" "s_Key t = sample_key"
    by (auto split: option.splits)
  have 1: "responseHandler sample_env ?m ?p = Inr (None, sample_done)"
    "GenerateClientTransactionKey ?m = Inr (Inr sample_branch_key)"
    "GetStFromCt (px_ctxs ?p) sample_branch_key = Some sample_key" "fresh_keys ?p sample_done" by code_simp+
  have 2: "(200 :: int) \<le> m_StatusCode ?m" "\<not> 300 \<le> m_StatusCode ?m" by (simp_all add: sample_response_def)
  show ?thesis
    using final_response_once [OF 1(1) 2(1) 1(2,3) t(1) ci info 1(4) t(2) via 1(2), of sample_env] ci 2 t(3) by simp
qed


section \<open>A CANCEL reaches all branches\<close>

text \<open>A branch as the proxy makes it: its INVITE has a Via of the proxy on top, with the branch of its key.\<close>

definition own_branch :: "string \<Rightarrow> client_key \<Rightarrow> client_txn \<Rightarrow> bool" where
  "own_branch addr b ct \<longleftrightarrow> ck_cseqMethod b = ''INVITE'' \<and> m_Request (c_Request ct) \<and> m_Method (c_Request ct) = ''INVITE'' \<and>
     m_CSeq (c_Request ct) \<noteq> None \<and>
     (case m_Via (c_Request ct) of None \<Rightarrow> False
      | Some vs \<Rightarrow> vs \<noteq> [] \<and> via_SentBy (last vs) = addr \<and>
          take 1 (kv_values (via_Parameter (last vs)) ''branch'') = [ck_viaBranch b])"

definition cancel_key :: "client_key \<Rightarrow> client_key" where
  "cancel_key b = b\<lparr>ck_cseqMethod := ''CANCEL''\<rparr>"

text \<open>The CANCEL of a request: to the same address, with its topmost Via alone and its sequence number.\<close>

definition cancels :: "message \<Rightarrow> message \<Rightarrow> bool" where
  "cancels r can \<longleftrightarrow> m_Request can \<and> m_Method can = ''CANCEL'' \<and> m_RemoteAddr can = m_RemoteAddr r \<and>
     m_Via can = map_option (\<lambda>vs. [last vs]) (m_Via r) \<and>
     m_CSeq can = map_option (\<lambda>cs. cs\<lparr>cs_Method := ''CANCEL''\<rparr>) (m_CSeq r)"

lemma GenerateCancelRequest_ok:
  assumes "own_branch addr b ct"
  shows "\<exists>can. GenerateCancelRequest (Some (c_Request ct)) = Inr (Inr can) \<and> cancels (c_Request ct) can"
proof -
  let ?r = "c_Request ct"
  obtain vs cs where f: "m_Via ?r = Some vs" "vs \<noteq> []" "m_CSeq ?r = Some cs" "m_Request ?r" "m_Method ?r = ''INVITE''"
    using assms by (auto simp: own_branch_def split: option.splits)
  then obtain us v where vs: "vs = us @ [v]" by (metis append_butlast_last_id)
  have "m_CSeq (message_Clone ?r) = Some cs" "m_Request (message_Clone ?r)"
    using f by (simp_all add: message_Clone_def CreateMessage_def cseq_Clone_def)
  then show ?thesis using f vs
    by (simp add: GenerateCancelRequest_def cancels_def NewViaHeaders_def ViaHeaders_Insert_def Let_def)
qed

lemma cancel_one_out:
  assumes "own_branch (Address p) b ct" and "lookupClientTransaction b p = Some ct" and "lookupServerTransaction s p \<noteq> None"
  shows "\<exists>can t. cancel_one ev s b p = Inr (emit (ToClientTxn (cancel_key b) can)
      (AddClientTransaction (cancel_key b) t (emit (StartClientTxn (cancel_key b)) p))) \<and> cancels (c_Request ct) can"
proof -
  obtain can where can: "GenerateCancelRequest (Some (c_Request ct)) = Inr (Inr can)" "cancels (c_Request ct) can"
    using GenerateCancelRequest_ok [OF assms(1)] by (elim exE conjE)
  obtain vs cs where f: "m_Via (c_Request ct) = Some vs" "via_SentBy (last vs) = Address p"
    "take 1 (kv_values (via_Parameter (last vs)) ''branch'') = [ck_viaBranch b]" "m_CSeq (c_Request ct) = Some cs"
    using assms(1) by (auto simp: own_branch_def split: option.splits)
  have c: "m_Via can = Some [last vs]" "m_CSeq can = Some (cs\<lparr>cs_Method := ''CANCEL''\<rparr>)"
    using can(2) f by (simp_all add: cancels_def)
  obtain bs where br: "kv_values (via_Parameter (last vs)) ''branch'' = ck_viaBranch b # bs"
    using f(3) by (cases "kv_values (via_Parameter (last vs)) ''branch''") auto
  have top: "ViaHeaders_TopMost [last vs] = Some (last vs)" using TopMost_snoc [of "[]"] by simp
  have m: "with_own_via (ev_branch ev) (Address p) can = can"
    using c f(2) top by (simp add: with_own_via_def)
  have "GenerateClientTransactionKey can = Inr (Inr (cancel_key b))"
    using c br top by (simp add: GenerateClientTransactionKey_def GetTopMostVia_def GetCSeq_def cancel_key_def)
  then have "NewClientTransaction False (ev_branch ev) p can True
      = Inr (can, Some (newClientTransaction False (cancel_key b) can True))"
    by (simp add: NewClientTransaction_def m)
  then have "cancel_one ev s b p = Inr (emit (ToClientTxn (cancel_key b) can) (AddClientTransaction (cancel_key b)
      (newClientTransaction False (cancel_key b) can True) (emit (StartClientTxn (cancel_key b)) p)))"
    using assms(2,3) can(1)
    by (auto simp: cancel_one_def newClientTransaction_def client_write_def)
  then show ?thesis using can(2) by (intro exI conjI)
qed


definition branches_ok :: "client_key list \<Rightarrow> (client_key \<Rightarrow> client_txn) \<Rightarrow> proxy \<Rightarrow> bool" where
  "branches_ok bs cts p \<longleftrightarrow> list_all (\<lambda>b. lookupClientTransaction b p = Some (cts b) \<and> own_branch (Address p) b (cts b)) bs"

definition cancel_effects :: "(client_key \<Rightarrow> message) \<Rightarrow> client_key list \<Rightarrow> proxy_effect list" where
  "cancel_effects can bs = concat (map (\<lambda>b. [StartClientTxn (cancel_key b), ToClientTxn (cancel_key b) (can b)]) bs)"

lemma Address_AddClient [simp]: "Address (AddClientTransaction k t p) = Address p"
  by (simp add: AddClientTransaction_def Address_def)

lemma lookupServer_AddClient [simp]: "lookupServerTransaction s (AddClientTransaction k t p) = lookupServerTransaction s p"
  by (simp add: AddClientTransaction_def lookupServerTransaction_def)

lemma cancel_all_out:
  assumes "distinct bs" and "branches_ok bs cts p" and "lookupServerTransaction s p \<noteq> None"
  shows "\<exists>p' can. cancel_all ev s bs p = Inr p' \<and> px_out p' = px_out p @ cancel_effects can bs \<and>
    (\<forall>b \<in> set bs. cancels (c_Request (cts b)) (can b))"
  using assms
proof (induction bs arbitrary: p)
  case (Cons b bs)
  have b: "own_branch (Address p) b (cts b)" "lookupClientTransaction b p = Some (cts b)"
    using Cons.prems(2) by (simp_all add: branches_ok_def)
  obtain c t where one: "cancel_one ev s b p = Inr (emit (ToClientTxn (cancel_key b) c)
      (AddClientTransaction (cancel_key b) t (emit (StartClientTxn (cancel_key b)) p)))"
    and c: "cancels (c_Request (cts b)) c"
    using cancel_one_out [OF b Cons.prems(3), of ev] by (elim exE conjE)
  let ?p1 = "emit (ToClientTxn (cancel_key b) c) (AddClientTransaction (cancel_key b) t (emit (StartClientTxn (cancel_key b)) p))"
  have other: "b' \<noteq> cancel_key b" if "own_branch a b' ct" for a b' ct
    using that by (auto simp: own_branch_def cancel_key_def)
  then have "branches_ok bs cts ?p1"
    using Cons.prems(2) unfolding branches_ok_def list_all_iff by auto
  moreover have "lookupServerTransaction s ?p1 \<noteq> None" using Cons.prems(3) by simp
  ultimately obtain p' can where ih: "cancel_all ev s bs ?p1 = Inr p'" "px_out p' = px_out ?p1 @ cancel_effects can bs"
    "\<forall>b \<in> set bs. cancels (c_Request (cts b)) (can b)"
    using Cons.IH [of ?p1] Cons.prems(1) by auto
  let ?can = "can(b := c)"
  have "cancel_effects ?can bs = cancel_effects can bs"
    using Cons.prems(1) by (auto simp: cancel_effects_def intro!: arg_cong [of _ _ concat])
  then have "px_out p' = px_out p @ cancel_effects ?can (b # bs)"
    using ih(2) by (simp add: cancel_effects_def)
  moreover have "\<forall>b' \<in> set (b # bs). cancels (c_Request (cts b')) (?can b')"
    using ih(3) c Cons.prems(1) by auto
  moreover have "cancel_all ev s (b # bs) p = Inr p'" using one ih(1) by simp
  ultimately show ?case by (intro exI conjI)
qed (simp add: cancel_effects_def)

text \<open>
  C6: A CANCEL of an INVITE that has branches is answered 200, and then a CANCEL with a transaction of
  its own goes to every branch, once: to the address and with the topmost Via and the sequence
  number of the INVITE that went there.
\<close>

theorem cancel_reaches_branches:
  assumes "GenerateServerTransactionKey msg = Inr (Inr k0)" and "ctxs_inv (px_ctxs p)"
    and "bound (px_ctxs p) (UpdateMethod k0 ''INVITE'') \<noteq> {}"
    and "lookupServerTransaction (UpdateMethod k0 ''INVITE'') p \<noteq> None"
    and "\<And>b. b \<in> bound (px_ctxs p) (UpdateMethod k0 ''INVITE'') \<Longrightarrow>
      lookupClientTransaction b p = Some (cts b) \<and> own_branch (Address p) b (cts b)"
    and "m_ctx msg \<noteq> None" and "live (s_State txn)"
  shows "\<exists>p' bs rep can. cancelHandler ev msg txn p = Inr (None, p') \<and>
    distinct bs \<and> set bs = bound (px_ctxs p) (UpdateMethod k0 ''INVITE'') \<and>
    px_out p' = px_out p @ ToServerTxn (s_Key txn) rep # cancel_effects can bs \<and> m_StatusCode rep = 200 \<and>
    (\<forall>b \<in> set bs. cancels (c_Request (cts b)) (can b))"
proof -
  let ?k = "UpdateMethod k0 ''INVITE''"
  obtain ctx where ctx: "GetCtFromSt (px_ctxs p) ?k = Some ctx"
    using ctxs_invD [OF assms(2), of ?k] assms(3) by (cases "GetCtFromSt (px_ctxs p) ?k") auto
  let ?bs = "map fst ctx"
  have bs: "distinct ?bs" "set ?bs = bound (px_ctxs p) ?k" using ctxs_invD [OF assms(2), of ?k] ctx by auto
  obtain rep where rep: "GenerateResponseFromRequest msg = Inr rep"
    using assms(6) by (auto simp: GenerateResponseFromRequest_def Let_def)
  let ?p1 = "emit (ToServerTxn (s_Key txn) (rep\<lparr>m_StatusCode := 200\<rparr>)) p"
  have "branches_ok ?bs cts ?p1" using assms(5) bs(2) by (auto simp: branches_ok_def list_all_iff)
  then obtain p' can where c: "cancel_all ev ?k ?bs ?p1 = Inr p'" "px_out p' = px_out ?p1 @ cancel_effects can ?bs"
    "\<forall>b \<in> set ?bs. cancels (c_Request (cts b)) (can b)"
    using cancel_all_out [OF bs(1), of cts ?p1 ?k ev] assms(4) by auto
  have "cancelHandler ev msg txn p = Inr (None, p')"
    using assms(1,7) ctx rep c(1) by (simp add: cancelHandler_def writes_live)
  then show ?thesis
    using bs c(2,3) by - (rule exI [of _ p'], rule exI [of _ ?bs], rule exI [of _ "rep\<lparr>m_StatusCode := 200\<rparr>"], rule exI [of _ can], simp)
qed


definition sample_cancel :: message where
  "sample_cancel = sample_invite\<lparr>m_Method := ''CANCEL'', m_ctx := Some Background\<rparr>"

definition sample_cancel_key :: server_key where
  "sample_cancel_key = UpdateMethod sample_key ''CANCEL''"

definition sample_cts :: "client_key \<Rightarrow> client_txn" where
  "sample_cts b = (case lookupClientTransaction b sample_called of
     Some t \<Rightarrow> t | None \<Rightarrow> newClientTransaction True b sample_invite True)"

definition sample_cancel_txn :: server_txn where
  "sample_cancel_txn = newServerTransaction False sample_cancel_key sample_cancel"

lemma sample_called_bound: "bound (px_ctxs sample_called) sample_key = {sample_branch_key}"
proof -
  have "px_ctxs sample_called = ResponseCtxs_Add sample_key sample_branch_key NewResponseCtxs" by code_simp
  then show ?thesis by (auto simp: bound_def GetStFromCt_Add split: if_splits)
qed

theorem cancel_reaches_branches_witness:
  "\<exists>p' rep can. cancelHandler sample_env sample_cancel sample_cancel_txn sample_called = Inr (None, p') \<and>
     px_out p' = px_out sample_called @ [ToServerTxn sample_cancel_key rep, StartClientTxn (cancel_key sample_branch_key),
       ToClientTxn (cancel_key sample_branch_key) (can sample_branch_key)]"
proof -
  have 1: "GenerateServerTransactionKey sample_cancel = Inr (Inr sample_cancel_key)"
    "UpdateMethod sample_cancel_key ''INVITE'' = sample_key" "lookupServerTransaction sample_key sample_called \<noteq> None"
    "live (s_State sample_cancel_txn)" "s_Key sample_cancel_txn = sample_cancel_key" "m_ctx sample_cancel \<noteq> None"
    "lookupClientTransaction sample_branch_key sample_called \<noteq> None"
    "own_branch (Address sample_called) sample_branch_key (sample_cts sample_branch_key)" by code_simp+
  have "lookupClientTransaction b sample_called = Some (sample_cts b) \<and> own_branch (Address sample_called) b (sample_cts b)"
    if "b \<in> bound (px_ctxs sample_called) (UpdateMethod sample_cancel_key ''INVITE'')" for b
    using that 1 by (auto simp: sample_called_bound sample_cts_def)
  moreover have "ctxs_inv (px_ctxs sample_called)"
    using proxy_reach_inv [OF sample_called_reach] by (simp add: proxy_inv_def tables_inv_def tables_def)
  ultimately obtain p' bs rep can where c: "cancelHandler sample_env sample_cancel sample_cancel_txn sample_called = Inr (None, p')"
    "distinct bs" "set bs = {sample_branch_key}"
    "px_out p' = px_out sample_called @ ToServerTxn sample_cancel_key rep # cancel_effects can bs"
    using cancel_reaches_branches [OF 1(1), of sample_called sample_cts sample_cancel_txn sample_env] 1
    by (auto simp: sample_called_bound)
  have "bs = [sample_branch_key]" using c(2,3) distinct_card [OF c(2)] by (cases bs; cases "tl bs") auto
  then show ?thesis using c(1,4) by (auto simp: cancel_effects_def)
qed

end
