(* ===== verification/TextReader.thy ===== *)
theory TextReader
  imports Reader
begin

text \<open>
  The rest of \<open>src/sip/reader.go\<close>: replies with a code and dot-encoded blocks, as in package
  \<open>net/textproto\<close>. The reader is the list of bytes that are left, with the state of the dot
  reader that is active, if there is one.
\<close>

datatype text_error =
    LineError read_error
  | UnexpectedEOF_dot
  | TextProtocolError string
  | TextError int string

section \<open>Replies with a code\<close>

text \<open>
  The results are code, continued, message and error. A code that is no number is 0, one that
  is too small keeps its value.
\<close>

definition parseCodeLine :: "string \<Rightarrow> int \<Rightarrow> int \<times> bool \<times> string \<times> text_error option" where
  "parseCodeLine line expectCode =
     (if length line < 4 \<or> (line ! 3 \<noteq> CHR '' '' \<and> line ! 3 \<noteq> CHR ''-'')
      then (0, False, [], Some (TextProtocolError (''short response: '' @ line)))
      else
        (let continued = (line ! 3 = CHR ''-'');
             code = (case Atoi (take 3 line) of None \<Rightarrow> 0 | Some n \<Rightarrow> n)
         in if code < 100 then (code, continued, [], Some (TextProtocolError (''invalid response code: '' @ line)))
            else
              (let message = drop 4 line in
               (code, continued, message,
                if 1 \<le> expectCode \<and> expectCode < 10 \<and> code div 100 \<noteq> expectCode
                   \<or> 10 \<le> expectCode \<and> expectCode < 100 \<and> code div 10 \<noteq> expectCode
                   \<or> 100 \<le> expectCode \<and> expectCode < 1000 \<and> code \<noteq> expectCode
                then Some (TextError code message) else None))))"

definition readCodeLine :: "int \<Rightarrow> string \<Rightarrow> (int \<times> bool \<times> string \<times> text_error option) \<times> string" where
  "readCodeLine expectCode s =
     (case readLineSlice s of
        None \<Rightarrow> ((0, False, [], Some (LineError EOF)), s)
      | Some (line, r) \<Rightarrow> (parseCodeLine line expectCode, r))"

definition ReadCodeLine :: "int \<Rightarrow> string \<Rightarrow> (int \<times> string \<times> text_error option) \<times> string" where
  "ReadCodeLine expectCode s =
     (let ((code, continued, message, err), r) = readCodeLine expectCode s
      in ((code, message,
           if err = None \<and> continued
           then Some (TextProtocolError (''unexpected multi-line response: '' @ message)) else err), r))"

text \<open>
  The loop over the further lines; the error of a line in the loop is a variable of its own.
  Its result is the message, or None when the input ends.
\<close>

function response_lines :: "int \<Rightarrow> bool \<Rightarrow> string \<Rightarrow> string \<Rightarrow> string option \<times> string" where
  "response_lines code continued message s =
     (if \<not> continued then (Some message, s)
      else (case readLineSlice s of
          None \<Rightarrow> (None, s)
        | Some (line, r) \<Rightarrow>
            (let (code2, continued2, moreMessage, err) = parseCodeLine line 0 in
             if err \<noteq> None \<or> code2 \<noteq> code
             then response_lines code True (message @ [LF] @ TrimRight line [CR, LF]) r
             else response_lines code continued2 (message @ [LF] @ moreMessage) r)))"
  by pat_completeness auto
termination
  by (relation "measure (\<lambda>(code, continued, message, s). length s)") (auto dest: readLineSlice_shorter)

declare response_lines.simps [simp del]

definition ReadResponse :: "int \<Rightarrow> string \<Rightarrow> (int \<times> string \<times> text_error option) \<times> string" where
  "ReadResponse expectCode s =
     (let ((code, continued, message0, err), r) = readCodeLine expectCode s in
      case response_lines code continued message0 r of
        (None, r') \<Rightarrow> ((0, [], Some (LineError EOF)), r')
      | (Some message, r') \<Rightarrow>
          ((code, message, if err \<noteq> None \<and> continued \<and> message \<noteq> [] then Some (TextError code message) else err), r'))"

section \<open>Dot-encoded blocks\<close>

datatype dot_state = stateBeginLine | stateDot | stateDotCR | stateCR | stateData | stateEOF

text \<open>
  The switch of \<open>dotReader.Read\<close> for one byte: the new state, the byte that is written, and
  whether the byte that was read is put back.
\<close>

fun dot_switch :: "dot_state \<Rightarrow> char \<Rightarrow> dot_state \<times> char option \<times> bool" where
  "dot_switch stateBeginLine c =
     (if c = CHR ''.'' then (stateDot, None, False)
      else if c = CR then (stateCR, None, False)
      else (stateData, Some c, False))"
| "dot_switch stateDot c =
     (if c = CR then (stateDotCR, None, False)
      else if c = LF then (stateEOF, None, False)
      else (stateData, Some c, False))"
| "dot_switch stateDotCR c = (if c = LF then (stateEOF, None, False) else (stateData, Some CR, True))"
| "dot_switch stateCR c = (if c = LF then (stateBeginLine, Some c, False) else (stateData, Some CR, True))"
| "dot_switch stateData c =
     (if c = CR then (stateCR, None, False)
      else if c = LF then (stateBeginLine, Some c, False)
      else (stateData, Some c, False))"
| "dot_switch stateEOF c = (stateEOF, Some c, False)"

text \<open>One call with room for \<open>n\<close> bytes: what is written, the error, the state and the rest.\<close>

function dot_Read :: "nat \<Rightarrow> dot_state \<Rightarrow> string \<Rightarrow> string \<times> text_error option \<times> dot_state \<times> string" where
  "dot_Read n st s =
     (if st = stateEOF then ([], Some (LineError EOF), st, s)
      else if n = 0 then ([], None, st, s)
      else (case s of
          [] \<Rightarrow> ([], Some UnexpectedEOF_dot, st, s)
        | c # r \<Rightarrow>
            (case dot_switch st c of
               (st', None, _) \<Rightarrow> dot_Read n st' r
             | (st', Some b, unread) \<Rightarrow>
                 (let (out, err, st2, s2) = dot_Read (n - 1) st' (if unread then c # r else r)
                  in (b # out, err, st2, s2)))))"
  by pat_completeness auto
termination
  by (relation "measure (\<lambda>(n, st, s). n + length s)") auto

declare dot_Read.simps [simp del]

lemma dot_Read_ends:
  "dot_Read n stateEOF s = ([], Some (LineError EOF), stateEOF, s)"
  "st \<noteq> stateEOF \<Longrightarrow> dot_Read 0 st s = ([], None, st, s)"
  "st \<noteq> stateEOF \<Longrightarrow> 0 < n \<Longrightarrow> dot_Read n st [] = ([], Some UnexpectedEOF_dot, st, [])"
  by (simp_all add: dot_Read.simps)

lemma dot_Read_Cons:
  "st \<noteq> stateEOF \<Longrightarrow> 0 < n \<Longrightarrow> dot_Read n st (c # r) =
     (case dot_switch st c of
        (st', None, _) \<Rightarrow> dot_Read n st' r
      | (st', Some b, unread) \<Rightarrow>
          (let (out, err, st2, s2) = dot_Read (n - 1) st' (if unread then c # r else r) in (b # out, err, st2, s2)))"
  by (subst dot_Read.simps) simp

text \<open>What is left to deliver at most; a carriage return that was read may still be written.\<close>

definition dot_weight :: "dot_state \<Rightarrow> string \<Rightarrow> nat" where
  "dot_weight st s = length s + (if st = stateCR \<or> st = stateDotCR then 1 else 0)"

lemma dot_switch_weight:
  "dot_switch st c = (st', None, unread) \<Longrightarrow> st \<noteq> stateEOF \<Longrightarrow> dot_weight st' r \<le> dot_weight st (c # r)"
  "dot_switch st c = (st', Some b, unread) \<Longrightarrow> st \<noteq> stateEOF \<Longrightarrow>
     Suc (dot_weight st' (if unread then c # r else r)) \<le> dot_weight st (c # r)"
  by (cases st; auto simp: dot_weight_def split: if_splits)+

lemma dot_Read_weight:
  "dot_Read n st s = (out, err, st', s') \<Longrightarrow> dot_weight st' s' + length out \<le> dot_weight st s \<and>
     (err = None \<longrightarrow> length out = n)"
proof (induction n st s arbitrary: out err st' s' rule: dot_Read.induct)
  case (1 n st s)
  show ?case
  proof (cases "st = stateEOF \<or> n = 0 \<or> s = []")
    case True
    then show ?thesis using 1(3) by (auto simp: dot_Read.simps [of n st s] split: if_splits)
  next
    case False
    then obtain c r where s: "s = c # r" by (cases s) auto
    obtain st1 o1 unread where sw: "dot_switch st c = (st1, o1, unread)" by (metis prod_cases3)
    show ?thesis
    proof (cases o1)
      case None
      then have "dot_Read n st1 r = (out, err, st', s')"
        using 1(3) False by (simp add: s sw dot_Read_Cons)
      then have "dot_weight st' s' + length out \<le> dot_weight st1 r \<and> (err = None \<longrightarrow> length out = n)"
        using 1(1) [of c r st1 "(None, unread)" None unread] False s sw None by simp
      then show ?thesis using dot_switch_weight(1) [of st c st1 unread r] sw None False s by auto
    next
      case (Some b)
      let ?r = "if unread then c # r else r"
      obtain out2 where o: "dot_Read (n - 1) st1 ?r = (out2, err, st', s')" "out = b # out2"
        using 1(3) False Some by (auto simp: s sw dot_Read_Cons split: prod.splits)
      have "dot_weight st' s' + length out2 \<le> dot_weight st1 ?r \<and> (err = None \<longrightarrow> length out2 = n - 1)"
        using 1(2) [of c r st1 "(Some b, unread)" "Some b" unread b] False s sw Some o(1) by simp
      then show ?thesis using o(2) False dot_switch_weight(2) [of st c st1 b unread r] sw Some s by auto
    qed
  qed
qed

text \<open>
  \<open>ioutil.ReadAll\<close> calls \<open>Read\<close> until it fails; the room it offers, never none, depends on what
  it has read so far. \<open>closeDot\<close> does the same with 128 bytes each time.
\<close>

function dot_ReadAll :: "(nat \<Rightarrow> nat) \<Rightarrow> nat \<Rightarrow> dot_state \<Rightarrow> string \<Rightarrow> string \<times> text_error \<times> string" where
  "dot_ReadAll room k st s =
     (case dot_Read (Suc (room k)) st s of
        (out, Some e, st', s') \<Rightarrow> (out, e, s')
      | (out, None, st', s') \<Rightarrow>
          (let (rest, e, s2) = dot_ReadAll room (k + length out) st' s' in (out @ rest, e, s2)))"
  by pat_completeness auto
termination
  by (relation "measure (\<lambda>(room, k, st, s). dot_weight st s)") (auto dest!: dot_Read_weight [OF sym])

declare dot_ReadAll.simps [simp del]

record text_reader =
  tr_R :: string
  tr_dot :: "dot_state option"

definition NewReader :: "string \<Rightarrow> text_reader" where
  "NewReader s = \<lparr>tr_R = s, tr_dot = None\<rparr>"

definition closeDot :: "text_reader \<Rightarrow> text_reader" where
  "closeDot r =
     (case tr_dot r of None \<Rightarrow> r
      | Some st \<Rightarrow> (let (_, _, s) = dot_ReadAll (\<lambda>_. 127) 0 st (tr_R r) in \<lparr>tr_R = s, tr_dot = None\<rparr>))"

definition DotReader :: "text_reader \<Rightarrow> text_reader" where
  "DotReader r = (closeDot r)\<lparr>tr_dot := Some stateBeginLine\<rparr>"

text \<open>\<open>Read\<close> on the active dot reader; None when the reader has no active one.\<close>

definition dot_reader_Read :: "nat \<Rightarrow> text_reader \<Rightarrow> ((string \<times> text_error option) \<times> text_reader) option" where
  "dot_reader_Read n r =
     (case tr_dot r of None \<Rightarrow> None
      | Some st \<Rightarrow>
          (let (out, err, st', s) = dot_Read n st (tr_R r)
           in Some ((out, err), \<lparr>tr_R = s, tr_dot = (if err = None then Some st' else None)\<rparr>)))"

definition ReadDotBytes :: "(nat \<Rightarrow> nat) \<Rightarrow> text_reader \<Rightarrow> (string \<times> text_error option) \<times> text_reader" where
  "ReadDotBytes room r =
     (let (out, e, s) = dot_ReadAll room 0 stateBeginLine (tr_R (closeDot r))
      in ((out, if e = LineError EOF then None else Some e), \<lparr>tr_R = s, tr_dot = None\<rparr>))"

definition text_ReadLine :: "text_reader \<Rightarrow> string option \<times> text_reader" where
  "text_ReadLine r0 =
     (let r = closeDot r0 in
      case readLineSlice (tr_R r) of None \<Rightarrow> (None, r) | Some (line, s) \<Rightarrow> (Some line, r\<lparr>tr_R := s\<rparr>))"

function dot_lines :: "string \<Rightarrow> string list \<Rightarrow> (string list \<times> text_error option) \<times> string" where
  "dot_lines s v =
     (case readLineSlice s of
        None \<Rightarrow> ((v, Some UnexpectedEOF_dot), s)
      | Some (line, r) \<Rightarrow>
          (if line = ''.'' then ((v, None), r)
           else dot_lines r (v @ [if line \<noteq> [] \<and> hd line = CHR ''.'' then tl line else line])))"
  by pat_completeness auto
termination
  by (relation "measure (\<lambda>(s, v). length s)") (auto dest: readLineSlice_shorter)

declare dot_lines.simps [simp del]

definition ReadDotLines :: "text_reader \<Rightarrow> (string list \<times> text_error option) \<times> text_reader" where
  "ReadDotLines r =
     (let (res, s) = dot_lines (tr_R (closeDot r)) [] in (res, \<lparr>tr_R = s, tr_dot = None\<rparr>))"

section \<open>How many fields a header will have\<close>

text \<open>\<open>buffered\<close> is how many bytes the buffer holds.\<close>

function header_newlines :: "string \<Rightarrow> nat \<Rightarrow> nat" where
  "header_newlines peek n =
     (case IndexByte peek LF of
        None \<Rightarrow> n
      | Some i \<Rightarrow> (if i < 3 then n else header_newlines (drop (Suc i) peek) (Suc n)))"
  by pat_completeness auto
termination
  by (relation "measure (\<lambda>(s, n). length s)") (auto dest!: IndexByte_SomeD)

declare header_newlines.simps [simp del]

definition upcomingHeaderNewlines :: "(string \<Rightarrow> nat) \<Rightarrow> string \<Rightarrow> nat" where
  "upcomingHeaderNewlines Buffered s = header_newlines (take (Buffered s) s) 0"

section \<open>Continued lines\<close>

definition noValidation :: "string \<Rightarrow> read_error option" where
  "noValidation line = None"

definition ReadContinuedLine :: "(string \<Rightarrow> nat) \<Rightarrow> text_reader \<Rightarrow> (read_error + string) \<times> text_reader" where
  "ReadContinuedLine Buffered r0 =
     (let r = closeDot r0; (res, s) = readContinuedLineSlice Buffered noValidation (tr_R r) in (res, r\<lparr>tr_R := s\<rparr>))"

text \<open>The readers of lines as byte slices copy what they return.\<close>

definition ReadLineBytes :: "text_reader \<Rightarrow> string option \<times> text_reader" where
  "ReadLineBytes r = text_ReadLine r"

definition ReadContinuedLineBytes :: "(string \<Rightarrow> nat) \<Rightarrow> text_reader \<Rightarrow> (read_error + string) \<times> text_reader" where
  "ReadContinuedLineBytes Buffered r = ReadContinuedLine Buffered r"

section \<open>The pool of readers\<close>

text \<open>
  A reader that is put back loses its buffer and keeps the state of its dot reader; a reader
  taken from the pool, when there is one, gets the new buffer.
\<close>

definition newTextprotoReader :: "string \<Rightarrow> dot_state option list \<Rightarrow> text_reader \<times> dot_state option list" where
  "newTextprotoReader br pool =
     (case pool of
        [] \<Rightarrow> (NewReader br, [])
      | d # ds \<Rightarrow> (\<lparr>tr_R = br, tr_dot = d\<rparr>, ds))"

definition putTextprotoReader :: "text_reader \<Rightarrow> dot_state option list \<Rightarrow> dot_state option list" where
  "putTextprotoReader r pool = tr_dot r # pool"

end
