(* ===== verification/TextReader_Props.thy ===== *)
theory TextReader_Props
  imports TextReader
begin

text \<open>
  The dot reader delivers the same bytes however they are asked for, and the two readers of
  dot-encoded blocks read back what was encoded.
\<close>

section \<open>Reading in pieces\<close>

lemma dot_Read_more:
  "dot_Read a st s = (out, e, st1, s1) \<Longrightarrow>
     dot_Read (a + b) st s =
       (if e \<noteq> None then (out, e, st1, s1)
        else (let (out2, e2, st2, s2) = dot_Read b st1 s1 in (out @ out2, e2, st2, s2)))"
proof (induction a st s arbitrary: out e st1 s1 rule: dot_Read.induct)
  case (1 n st s)
  show ?case
  proof (cases "st = stateEOF \<or> n = 0 \<or> s = []")
    case True
    then show ?thesis
      using 1(3) by (cases "st = stateEOF"; cases "n = 0") (auto simp: dot_Read_ends)
  next
    case False
    then obtain c r where s: "s = c # r" by (cases s) auto
    obtain st' o1 unread where sw: "dot_switch st c = (st', o1, unread)" by (metis prod_cases3)
    show ?thesis
    proof (cases o1)
      case None
      then show ?thesis
        using 1(1) [of c r st' "(None, unread)" None unread] 1(3) False by (simp add: s sw dot_Read_Cons)
    next
      case (Some x)
      let ?r = "if unread then c # r else r"
      obtain out2 where o: "dot_Read (n - 1) st' ?r = (out2, e, st1, s1)" "out = x # out2"
        using 1(3) False Some by (auto simp: s sw dot_Read_Cons split: prod.splits)
      have "dot_Read (n - 1 + b) st' ?r = (if e \<noteq> None then (out2, e, st1, s1)
          else (let (out3, e2, st2, s2) = dot_Read b st1 s1 in (out2 @ out3, e2, st2, s2)))"
        using 1(2) [of c r st' "(Some x, unread)" "Some x" unread x] False s sw Some o(1) by simp
      then show ?thesis
        using False Some o(2) by (auto simp: s sw dot_Read_Cons split: prod.split)
    qed
  qed
qed

definition dot_end :: "string \<times> text_error option \<times> dot_state \<times> string \<Rightarrow> string \<times> text_error \<times> string" where
  "dot_end = (\<lambda>(out, e, st, s). (out, the e, s))"

lemma dot_Read_big: "dot_weight st s < n \<Longrightarrow> \<exists>out e st' s'. dot_Read n st s = (out, Some e, st', s')"
proof -
  assume w: "dot_weight st s < n"
  obtain out e st' s' where r: "dot_Read n st s = (out, e, st', s')" by (metis prod_cases4)
  have "e \<noteq> None" using dot_Read_weight [OF r] w by auto
  then show ?thesis using r by auto
qed

lemma dot_Read_enough:
  "dot_Read a st s = (out, Some e, st', s') \<Longrightarrow> dot_weight st s < n \<Longrightarrow> dot_Read n st s = (out, Some e, st', s')"
proof -
  assume a: "dot_Read a st s = (out, Some e, st', s')" and "dot_weight st s < n"
  then obtain o2 e2 st2 s2 where n: "dot_Read n st s = (o2, Some e2, st2, s2)" using dot_Read_big by blast
  show "dot_Read n st s = (out, Some e, st', s')"
    using dot_Read_more [OF a, of n] dot_Read_more [OF n, of a] n by (simp add: add.commute)
qed

lemma dot_ReadAll_eq: "dot_weight st s < n \<Longrightarrow> dot_ReadAll room k st s = dot_end (dot_Read n st s)"
proof (induction room k st s arbitrary: n rule: dot_ReadAll.induct)
  case (1 room k st s)
  obtain out e st' s' where r: "dot_Read (Suc (room k)) st s = (out, e, st', s')" by (metis prod_cases4)
  show ?case
  proof (cases e)
    case (Some e')
    then show ?thesis
      using dot_Read_enough [of _ st s out e' st' s' n] r 1(2) by (simp add: dot_ReadAll.simps [of room k st s] dot_end_def)
  next
    case None
    have w: "dot_weight st' s' < n" using dot_Read_weight [OF r] 1(2) by simp
    obtain o2 e2 st2 s2 where big: "dot_Read n st' s' = (o2, Some e2, st2, s2)" using dot_Read_big [OF w] by blast
    have IH: "dot_ReadAll room (k + length out) st' s' = dot_end (dot_Read n st' s')"
      using 1(1) [OF r [symmetric]] None w by blast
    have "dot_Read (Suc (room k) + n) st s = (out @ o2, Some e2, st2, s2)"
      using dot_Read_more [OF r, of n] None big by simp
    then have "dot_Read n st s = (out @ o2, Some e2, st2, s2)" using dot_Read_enough 1(2) by blast
    then show ?thesis using r None IH big by (simp add: dot_ReadAll.simps [of room k st s] dot_end_def)
  qed
qed

section \<open>Encoded blocks\<close>

definition dot_line :: "string \<Rightarrow> string" where
  "dot_line l = (if l \<noteq> [] \<and> hd l = CHR ''.'' then CHR ''.'' # l else l) @ crlf"

definition dot_encode :: "string list \<Rightarrow> string" where
  "dot_encode ls = concat (map dot_line ls) @ ''.'' @ crlf"

definition add_out :: "string \<Rightarrow> string \<times> text_error option \<times> dot_state \<times> string \<Rightarrow> string \<times> text_error option \<times> dot_state \<times> string" where
  "add_out x = (\<lambda>(out, e, st, s). (x @ out, e, st, s))"

lemma add_out_simps [simp]: "add_out [] r = r" "add_out x (add_out y r) = add_out (x @ y) r"
  by (cases r; simp add: add_out_def)+

lemma dot_Read_out:
  "st \<noteq> stateEOF \<Longrightarrow> dot_Read (Suc n) st (c # r) =
     (case dot_switch st c of (st', None, _) \<Rightarrow> dot_Read (Suc n) st' r
      | (st', Some b, unread) \<Rightarrow> add_out [b] (dot_Read n st' (if unread then c # r else r)))"
  by (auto simp: dot_Read_Cons add_out_def split: prod.split option.split)

lemmas dot_bytes = CR_def LF_def crlf_def

lemma dot_Read_data:
  "LF \<notin> set l \<Longrightarrow> dot_Read (length l + Suc n) stateData (l @ crlf @ r) = add_out (l @ [LF]) (dot_Read n stateBeginLine r)"
proof (induction l)
  case Nil
  show ?case by (simp add: dot_Read_out dot_bytes)
next
  case (Cons c l)
  show ?case
  proof (cases "c = CR")
    case True
    obtain d x where d: "l @ crlf @ r = d # x" "d \<noteq> LF" using Cons.prems by (cases l) (auto simp: dot_bytes)
    have "dot_Read (length (c # l) + Suc n) stateData ((c # l) @ crlf @ r)
        = add_out [CR] (dot_Read (length l + Suc n) stateData (l @ crlf @ r))"
      using True d by (simp add: dot_Read_out dot_bytes)
    then show ?thesis using Cons True by simp
  next
    case False
    then show ?thesis using Cons by (auto simp: dot_Read_out)
  qed
qed

lemma dot_Read_begin:
  "c \<noteq> CHR ''.'' \<Longrightarrow> c \<noteq> LF \<Longrightarrow> dot_Read (Suc n) stateBeginLine (c # r) = dot_Read (Suc n) stateData (c # r)"
  by (simp add: dot_Read_out)

lemma dot_Read_line:
  assumes "LF \<notin> set l"
  shows "dot_Read (length l + Suc n) stateBeginLine (dot_line l @ r) = add_out (l @ [LF]) (dot_Read n stateBeginLine r)"
proof (cases "l \<noteq> [] \<and> hd l = CHR ''.''")
  case True
  then obtain l' where l: "l = CHR ''.'' # l'" by (cases l) auto
  then have "dot_Read (length l + Suc n) stateBeginLine (dot_line l @ r)
      = add_out ''.'' (dot_Read (length l' + Suc n) stateData (l' @ crlf @ r))"
    by (simp add: dot_line_def dot_Read_out dot_bytes)
  then show ?thesis using dot_Read_data [of l' n r] assms l by simp
next
  case False
  obtain d x where d: "l @ crlf @ r = d # x" "d \<noteq> LF" "d \<noteq> CHR ''.''"
    using False assms by (cases l) (auto simp: dot_bytes)
  then have "dot_Read (length l + Suc n) stateBeginLine (l @ crlf @ r) = dot_Read (length l + Suc n) stateData (l @ crlf @ r)"
    using dot_Read_begin by simp
  then show ?thesis using False dot_Read_data [OF assms, of n r] by (auto simp: dot_line_def)
qed

lemma dot_Read_block:
  "\<forall>l \<in> set ls. LF \<notin> set l \<Longrightarrow>
     dot_Read (Suc (length (concat (map (\<lambda>l. l @ [LF]) ls)))) stateBeginLine (dot_encode ls @ r)
       = (concat (map (\<lambda>l. l @ [LF]) ls), Some (LineError EOF), stateEOF, r)"
proof (induction ls)
  case Nil
  then show ?case by (simp add: dot_encode_def dot_Read_out dot_bytes dot_Read_ends)
next
  case (Cons l ls)
  then show ?case
    using dot_Read_line [of l "Suc (length (concat (map (\<lambda>l. l @ [LF]) ls)))" "dot_encode ls @ r"]
    by (simp add: dot_encode_def add_out_def)
qed

lemma dot_ReadAll_block:
  assumes "\<forall>l \<in> set ls. LF \<notin> set l"
  shows "dot_ReadAll room k stateBeginLine (dot_encode ls @ r) = (concat (map (\<lambda>l. l @ [LF]) ls), LineError EOF, r)"
proof -
  let ?n = "Suc (dot_weight stateBeginLine (dot_encode ls @ r))"
  have "dot_Read ?n stateBeginLine (dot_encode ls @ r) = (concat (map (\<lambda>l. l @ [LF]) ls), Some (LineError EOF), stateEOF, r)"
    using dot_Read_enough [OF dot_Read_block [OF assms, of r]] by simp
  then show ?thesis using dot_ReadAll_eq [of stateBeginLine "dot_encode ls @ r" ?n room k] by (simp add: dot_end_def)
qed

lemma readLineSlice_block: "LF \<notin> set l \<Longrightarrow> readLineSlice (dot_line l @ r) = Some (if l \<noteq> [] \<and> hd l = CHR ''.'' then CHR ''.'' # l else l, r)"
  using readLineSlice_crlf [of "CHR ''.'' # l" r] readLineSlice_crlf [of l r] by (auto simp: dot_line_def LF_def)

lemma dot_lines_block:
  "\<forall>l \<in> set ls. LF \<notin> set l \<Longrightarrow> dot_lines (dot_encode ls @ r) v = ((v @ ls, None), r)"
proof (induction ls arbitrary: v)
  case Nil
  show ?case using readLineSlice_crlf [of "''.''" r] by (simp add: dot_encode_def dot_lines.simps LF_def)
next
  case (Cons l ls)
  have "dot_lines (dot_line l @ dot_encode ls @ r) v = dot_lines (dot_encode ls @ r) (v @ [l])"
    using Cons.prems readLineSlice_block [of l "dot_encode ls @ r"] by (subst dot_lines.simps) auto
  then show ?case using Cons by (simp add: dot_encode_def)
qed

text \<open>The reader after a call of \<open>Read\<close> on the active dot reader, if there still is one.\<close>

definition after_Read :: "nat \<Rightarrow> text_reader \<Rightarrow> text_reader" where
  "after_Read n r = (case dot_reader_Read n r of None \<Rightarrow> r | Some (_, r') \<Rightarrow> r')"

text \<open>However a dot reader is used, what follows its block is found after it is closed.\<close>

lemma closeDot_Read: "tr_R (closeDot (after_Read n r)) = tr_R (closeDot r)"
proof (cases "tr_dot r")
  case (Some st)
  obtain out e st' s where d: "dot_Read n st (tr_R r) = (out, e, st', s)" by (metis prod_cases4)
  let ?N = "Suc (dot_weight st (tr_R r))"
  have all: "dot_ReadAll room k st (tr_R r) = dot_end (dot_Read (n + ?N) st (tr_R r))" for room k
    by (rule dot_ReadAll_eq) simp
  show ?thesis
  proof (cases e)
    case None
    have "dot_weight st' s < ?N" using dot_Read_weight [OF d] by simp
    then have "dot_ReadAll (\<lambda>_. 127) 0 st' s = dot_end (dot_Read ?N st' s)" by (rule dot_ReadAll_eq)
    then show ?thesis
      using Some d None all dot_Read_more [OF d, of ?N]
      by (auto simp: after_Read_def dot_reader_Read_def closeDot_def dot_end_def split: prod.splits)
  next
    case (Some x)
    then show ?thesis
      using \<open>tr_dot r = Some st\<close> d all dot_Read_more [OF d, of ?N]
      by (simp add: after_Read_def dot_reader_Read_def closeDot_def dot_end_def)
  qed
qed (simp add: after_Read_def dot_reader_Read_def)

text \<open>
  C33: A block of lines without line feeds that was dot-encoded is read back by both readers, in
  whatever pieces \<open>ReadAll\<close> asks for it, and both stop behind it; and any calls of \<open>Read\<close>
  on a \<open>DotReader\<close>, of any sizes and even none, leave the next line that is read the one behind the block.
\<close>

theorem dot_round_trip:
  assumes "\<forall>l \<in> set ls. LF \<notin> set l" and "tr_dot r = None" and "tr_R r = dot_encode ls @ s"
  shows "ReadDotBytes room r = ((concat (map (\<lambda>l. l @ [LF]) ls), None), \<lparr>tr_R = s, tr_dot = None\<rparr>) \<and>
    ReadDotLines r = ((ls, None), \<lparr>tr_R = s, tr_dot = None\<rparr>) \<and>
    fst (text_ReadLine (foldl (\<lambda>r n. after_Read n r) (DotReader r) ns)) = map_option fst (readLineSlice s)"
proof -
  have c: "closeDot r = r" using assms(2) by (simp add: closeDot_def)
  have "tr_R (closeDot (foldl (\<lambda>r n. after_Read n r) r' ns)) = tr_R (closeDot r')" for r'
    by (induction ns arbitrary: r') (simp_all add: closeDot_Read)
  moreover have "tr_R (closeDot (DotReader r)) = s"
    using dot_ReadAll_block [OF assms(1)] c assms(3) by (simp add: DotReader_def closeDot_def)
  ultimately have "fst (text_ReadLine (foldl (\<lambda>r n. after_Read n r) (DotReader r) ns)) = map_option fst (readLineSlice s)"
    by (auto simp: text_ReadLine_def Let_def split: option.split)
  then show ?thesis
    using dot_ReadAll_block [OF assms(1)] dot_lines_block [OF assms(1)] c assms(3)
    by (simp add: ReadDotBytes_def ReadDotLines_def)
qed

theorem dot_round_trip_witness:
  "ReadDotLines \<lparr>tr_R = dot_encode [''.a'', [], ''b''] @ ''X'', tr_dot = None\<rparr>
    = (([''.a'', [], ''b''], None), \<lparr>tr_R = ''X'', tr_dot = None\<rparr>)"
  using dot_round_trip [of "[''.a'', [], ''b'']" "\<lparr>tr_R = dot_encode [''.a'', [], ''b''] @ ''X'', tr_dot = None\<rparr>" "''X''"]
  by (simp add: LF_def)

end
