(* ===== verification/Basic_Auth.thy ===== *)
theory Basic_Auth
  imports Message
begin

text \<open>
  Basic authentication, from \<open>src/sip/message.go\<close> and \<open>src/sip/client.go\<close>, with the standard
  encoding of package \<open>encoding/base64\<close> it uses.
\<close>

section \<open>Base 64\<close>

definition sextet_char :: "nat \<Rightarrow> char" where
  "sextet_char n =
     (if n < 26 then byte_of (65 + n) else if n < 52 then byte_of (71 + n) else if n < 62 then byte_of (n - 4)
      else if n = 62 then CHR ''+'' else CHR ''/'')"

definition char_sextet :: "char \<Rightarrow> nat option" where
  "char_sextet c =
     (let n = byte_val c in
      if 65 \<le> n \<and> n \<le> 90 then Some (n - 65) else if 97 \<le> n \<and> n \<le> 122 then Some (n - 71)
      else if 48 \<le> n \<and> n \<le> 57 then Some (n + 4) else if n = 43 then Some 62 else if n = 47 then Some 63
      else None)"

definition quantum :: "nat \<Rightarrow> string" where
  "quantum n = map (\<lambda>k. sextet_char (n div 64 ^ k mod 64)) [3, 2, 1, 0]"

fun base64_encode :: "string \<Rightarrow> string" where
  "base64_encode [] = []"
| "base64_encode [a] = take 2 (quantum (byte_val a * 65536)) @ ''==''"
| "base64_encode [a, b] = take 3 (quantum (byte_val a * 65536 + byte_val b * 256)) @ ''=''"
| "base64_encode (a # b # c # r) = quantum (byte_val a * 65536 + byte_val b * 256 + byte_val c) @ base64_encode r"

text \<open>Of the last, padded, quantum the bits that make no byte are ignored.\<close>

fun sextets :: "string \<Rightarrow> nat option" where
  "sextets [] = Some 0"
| "sextets (c # r) =
     (case (char_sextet c, sextets r) of (Some n, Some m) \<Rightarrow> Some (n * 64 ^ length r + m) | _ \<Rightarrow> None)"

fun decode_quanta :: "string \<Rightarrow> string option" where
  "decode_quanta [] = Some []"
| "decode_quanta (a # b # c # d # r) =
     (if d = CHR ''='' \<and> c = CHR ''='' then
        (if r \<noteq> [] then None else map_option (\<lambda>n. [byte_of (n div 16)]) (sextets [a, b]))
      else if d = CHR ''='' then
        (if r \<noteq> [] then None else map_option (\<lambda>n. [byte_of (n div 1024), byte_of (n div 4)]) (sextets [a, b, c]))
      else
        (case (sextets [a, b, c, d], decode_quanta r) of
           (Some n, Some s) \<Rightarrow> Some (byte_of (n div 65536) # byte_of (n div 256) # byte_of n # s)
         | _ \<Rightarrow> None))"
| "decode_quanta _ = None"

text \<open>Line ends are skipped wherever they are.\<close>

definition base64_decode :: "string \<Rightarrow> string option" where
  "base64_decode s = decode_quanta (filter (\<lambda>c. c \<noteq> CHR 0x0A \<and> c \<noteq> CHR 0x0D) s)"

section \<open>The header\<close>

definition basicAuth :: "string \<Rightarrow> string \<Rightarrow> string" where
  "basicAuth username password = base64_encode (username @ '':'' @ password)"

definition parseBasicAuth :: "string \<Rightarrow> (string \<times> string) option" where
  "parseBasicAuth auth =
     (if length auth < 6 \<or> ToLower (take 6 auth) \<noteq> ToLower ''Basic '' then None
      else (case base64_decode (drop 6 auth) of
          None \<Rightarrow> None
        | Some cs \<Rightarrow>
            (case IndexByte cs (CHR '':'') of None \<Rightarrow> None | Some s \<Rightarrow> Some (take s cs, drop (Suc s) cs))))"

definition BasicAuth :: "message \<Rightarrow> (string \<times> string) option" where
  "BasicAuth r =
     (let auth = hdr_Get (m_Header r) ''Authorization'' in if auth = [] then None else parseBasicAuth auth)"

definition SetBasicAuth :: "string \<Rightarrow> string \<Rightarrow> message \<Rightarrow> message" where
  "SetBasicAuth username password r =
     r\<lparr>m_Header := hdr_Set (m_Header r) ''Authorization'' (''Basic '' @ basicAuth username password)\<rparr>"

section \<open>Host names\<close>

text \<open>\<open>idna.Lookup.ToASCII\<close> is an argument; it is asked for names that are not ASCII only.\<close>

definition idnaASCII :: "(string \<Rightarrow> 'e + string) \<Rightarrow> string \<Rightarrow> 'e + string" where
  "idnaASCII ToASCII v = (if isASCII v then Inr v else ToASCII v)"

section \<open>Round trip\<close>

lemma sextet_byte: "n < 64 \<Longrightarrow> byte_val (sextet_char n) =
    (if n < 26 then 65 + n else if n < 52 then 71 + n else if n < 62 then n - 4 else if n = 62 then 43 else 47)"
  by (simp add: sextet_char_def)

lemma sextet_chars: "n < 64 \<Longrightarrow> char_sextet (sextet_char n) = Some n \<and> sextet_char n \<notin> {CHR ''='', CHR 0x0A, CHR 0x0D}"
proof -
  assume n: "n < 64"
  have "char_sextet (sextet_char n) = Some n"
    using n unfolding char_sextet_def sextet_byte [OF n] Let_def by (auto split: if_splits)
  moreover have "byte_val (sextet_char n) \<notin> {61, 10, 13}" unfolding sextet_byte [OF n] by auto
  moreover have "byte_val (CHR ''='') = 61" "byte_val (CHR 0x0A) = 10" "byte_val (CHR 0x0D) = 13" by code_simp+
  ultimately show ?thesis by (metis insertE insertI1 insertI2 singletonD)
qed

lemma quantum_split: "quantum n = [sextet_char (n div 262144 mod 64), sextet_char (n div 4096 mod 64),
    sextet_char (n div 64 mod 64), sextet_char (n mod 64)]"
  by (simp add: quantum_def)

lemma recombine:
  assumes "n < 16777216"
  shows "n div 262144 mod 64 * 262144 + (n div 4096 mod 64 * 4096 + (n div 64 mod 64 * 64 + n mod 64)) = (n :: nat)"
    "n div 262144 mod 64 * 4096 + (n div 4096 mod 64 * 64 + n div 64 mod 64) = n div 64"
    "n div 262144 mod 64 * 64 + n div 4096 mod 64 = n div 4096"
proof -
  have d: "n div 4096 = n div 64 div 64" "n div 262144 = n div 64 div 64 div 64" by (simp_all add: div_mult2_eq [symmetric])
  have "n div 262144 < 64" using assms by (simp add: less_mult_imp_div_less)
  then have m: "n div 262144 mod 64 = n div 64 div 64 div 64" unfolding d by (rule mod_less)
  note e = mult_div_mod_eq [of 64 n] mult_div_mod_eq [of 64 "n div 64"] mult_div_mod_eq [of 64 "n div 64 div 64"]
  show "n div 262144 mod 64 * 262144 + (n div 4096 mod 64 * 4096 + (n div 64 mod 64 * 64 + n mod 64)) = n"
    "n div 262144 mod 64 * 4096 + (n div 4096 mod 64 * 64 + n div 64 mod 64) = n div 64"
    "n div 262144 mod 64 * 64 + n div 4096 mod 64 = n div 4096"
    unfolding m unfolding d(1) using e by linarith+
qed

lemma sextet_bound: "n mod 64 < (64 :: nat)"
  by simp

text \<open>The sextets of a full or padded quantum, as a number.\<close>

lemma quantum_sextets:
  assumes "n < 16777216"
  shows "sextets (quantum n) = Some n" "sextets (take 3 (quantum n)) = Some (n div 64)"
    "sextets (take 2 (quantum n)) = Some (n div 4096)"
proof -
  have c: "char_sextet (sextet_char (m mod 64)) = Some (m mod 64)" for m using sextet_chars [OF sextet_bound] by blast
  have t: "take 3 [a, b, c, d] = [a, b, c]" "take 2 [a, b, c, d] = [a, b]" for a b c d :: char by simp_all
  have s: "sextets [sextet_char (w mod 64), sextet_char (x mod 64)] = Some (w mod 64 * 64 + x mod 64)"
    "sextets [sextet_char (w mod 64), sextet_char (x mod 64), sextet_char (y mod 64)]
      = Some (w mod 64 * 4096 + (x mod 64 * 64 + y mod 64))"
    "sextets [sextet_char (w mod 64), sextet_char (x mod 64), sextet_char (y mod 64), sextet_char (z mod 64)]
      = Some (w mod 64 * 262144 + (x mod 64 * 4096 + (y mod 64 * 64 + z mod 64)))" for w x y z
    by (simp_all add: c)
  show "sextets (quantum n) = Some n" "sextets (take 3 (quantum n)) = Some (n div 64)"
    "sextets (take 2 (quantum n)) = Some (n div 4096)"
    unfolding quantum_split t s recombine [OF assms] by (rule refl)+
qed

lemma three_bytes:
  assumes "x < 256" and "y < 256" and "z < 256"
  shows "x * 65536 + y * 256 + z < (16777216 :: nat)" "(x * 65536 + y * 256 + z) div 65536 = x"
    "(x * 65536 + y * 256 + z) div 256 mod 256 = y" "(x * 65536 + y * 256 + z) mod 256 = z"
proof -
  have d: "(x * 65536 + y * 256 + z) div 256 = x * 256 + y" using assms by (intro div_nat_eqI) simp_all
  have m: "x * 65536 + y * 256 + z = z + (x * 256 + y) * 256" by simp
  show "(x * 65536 + y * 256 + z) div 256 mod 256 = y" unfolding d using assms(2) by simp
  show "(x * 65536 + y * 256 + z) mod 256 = z" unfolding m mod_mult_self1 using assms(3) by (rule mod_less)
  show "x * 65536 + y * 256 + z < 16777216" using assms by simp
  show "(x * 65536 + y * 256 + z) div 65536 = x" using assms by (intro div_nat_eqI) simp_all
qed

lemma quantum_bytes: "set (quantum n) \<inter> {CHR ''='', CHR 0x0A, CHR 0x0D} = {}"
  using sextet_chars [OF sextet_bound] by (simp add: quantum_def)

lemma decode_full:
  assumes "sextets q = Some n" and "length q = 4" and "CHR ''='' \<notin> set q"
  shows "decode_quanta (q @ r) = map_option (\<lambda>s. byte_of (n div 65536) # byte_of (n div 256) # byte_of n # s) (decode_quanta r)"
proof -
  obtain a b c d where q: "q = [a, b, c, d]" using assms(2) by (auto simp: numeral_eq_Suc length_Suc_conv)
  show ?thesis using assms(1,3) unfolding q by (auto split: option.split)
qed

lemma decode_encode: "decode_quanta (base64_encode s) = Some s"
proof (induction s rule: base64_encode.induct)
  case (2 a)
  let ?n = "byte_val a * 65536"
  have n: "?n < 16777216" "?n div 4096 div 16 = byte_val a"
    using three_bytes [of "byte_val a" 0 0] by (simp_all add: div_mult2_eq [symmetric])
  obtain x y where q: "take 2 (quantum ?n) = [x, y]" by (simp add: quantum_split)
  show ?case using quantum_sextets(3) [OF n(1)] n(2) unfolding q base64_encode.simps by simp
next
  case (3 a b)
  let ?n = "byte_val a * 65536 + byte_val b * 256"
  have n: "?n < 16777216" "?n div 65536 = byte_val a" "?n div 256 mod 256 = byte_val b"
    using three_bytes [of "byte_val a" "byte_val b" 0] by simp_all
  have d: "?n div 64 div 1024 = ?n div 65536" "?n div 64 div 4 = ?n div 256" by (simp_all add: div_mult2_eq [symmetric])
  obtain x y z where q: "take 3 (quantum ?n) = [x, y, z]" by (simp add: quantum_split)
  have "CHR ''='' \<notin> set (take 3 (quantum ?n))" using quantum_bytes [of ?n] set_take_subset [of 3 "quantum ?n"] by auto
  then have "z \<noteq> CHR ''=''" unfolding q by auto
  moreover have "byte_of (?n div 256) = b" using n(3) by (metis byte_of_val byte_val_of byte_val_inject)
  ultimately show ?case
    using quantum_sextets(2) [OF n(1)] unfolding q base64_encode.simps by (simp add: d n(2))
next
  case (4 a b c r)
  let ?n = "byte_val a * 65536 + byte_val b * 256 + byte_val c"
  note n = three_bytes [of "byte_val a" "byte_val b" "byte_val c", OF byte_val_less byte_val_less byte_val_less]
  have "byte_of (?n div 65536) = a" "byte_of (?n div 256) = b" "byte_of ?n = c"
    using n(2-4) by (simp, metis byte_of_val byte_val_of byte_val_inject, metis byte_of_val byte_val_of byte_val_inject)
  moreover have "length (quantum ?n) = 4" "CHR ''='' \<notin> set (quantum ?n)"
    using quantum_bytes [of ?n] by (simp_all add: quantum_def)
  ultimately show ?case
    using decode_full [OF quantum_sextets(1) [OF n(1)]] 4 by simp
qed simp

lemma encode_bytes: "set (base64_encode s) \<inter> {CHR 0x0A, CHR 0x0D} = {}"
proof (induction s rule: base64_encode.induct)
  case (2 a)
  then show ?case using quantum_bytes [of "byte_val a * 65536"] set_take_subset [of 2 "quantum (byte_val a * 65536)"] by auto
next
  case (3 a b)
  then show ?case
    using quantum_bytes [of "byte_val a * 65536 + byte_val b * 256"]
      set_take_subset [of 3 "quantum (byte_val a * 65536 + byte_val b * 256)"] by auto
next
  case (4 a b c r)
  then show ?case using quantum_bytes [of "byte_val a * 65536 + byte_val b * 256 + byte_val c"] by auto
qed simp

lemma base64_round_trip: "base64_decode (base64_encode s) = Some s"
proof -
  have "filter (\<lambda>c. c \<noteq> CHR 0x0A \<and> c \<noteq> CHR 0x0D) (base64_encode s) = base64_encode s"
    using encode_bytes [of s] by (intro filter_True) blast
  then show ?thesis using decode_encode by (simp only: base64_decode_def)
qed

lemma get_after_set: "hdr_Get (hdr_Set h k v) k = v"
  by (simp add: hdr_Get_def hdr_Set_def kv_get_def)

lemma values_after_set:
  "CanonicalMIMEHeaderKey k' \<noteq> CanonicalMIMEHeaderKey k \<Longrightarrow> hdr_Values (hdr_Set h k v) k' = hdr_Values h k'"
  by (simp add: hdr_Values_def hdr_Set_def)

lemma parse_basic: "CHR '':'' \<notin> set u \<Longrightarrow> parseBasicAuth (''Basic '' @ basicAuth u p) = Some (u, p)"
  using IndexByte_append [of "CHR '':''" u p]
  by (simp add: parseBasicAuth_def basicAuth_def base64_round_trip)

text \<open>
  The name and password that were set are read back, for every password and every name
  without a colon, and no other header field changes.
\<close>

theorem basic_auth_round_trip:
  assumes "CHR '':'' \<notin> set username"
  shows "BasicAuth (SetBasicAuth username password r) = Some (username, password) \<and>
    (\<forall>k. CanonicalMIMEHeaderKey k \<noteq> ''Authorization'' \<longrightarrow>
      hdr_Values (m_Header (SetBasicAuth username password r)) k = hdr_Values (m_Header r) k)"
proof
  have key: "CanonicalMIMEHeaderKey ''Authorization'' = ''Authorization''" by code_simp
  have "hdr_Get (m_Header (SetBasicAuth username password r)) ''Authorization'' = ''Basic '' @ basicAuth username password"
    by (simp add: SetBasicAuth_def get_after_set)
  then show "BasicAuth (SetBasicAuth username password r) = Some (username, password)"
    using parse_basic [OF assms] by (simp add: BasicAuth_def)
  show "\<forall>k. CanonicalMIMEHeaderKey k \<noteq> ''Authorization'' \<longrightarrow>
      hdr_Values (m_Header (SetBasicAuth username password r)) k = hdr_Values (m_Header r) k"
    using values_after_set [of _ "''Authorization''"] by (simp add: SetBasicAuth_def key)
qed

theorem basic_auth_round_trip_witness:
  "BasicAuth (SetBasicAuth ''Aladdin'' ''open sesame'' (CreateMessage [])) = Some (''Aladdin'', ''open sesame'')"
proof -
  have "CHR '':'' \<notin> set ''Aladdin''" by code_simp
  from basic_auth_round_trip [OF this] show ?thesis by blast
qed

end
