(* ===== verification/Serve.thy ===== *)
theory Serve
  imports Server
begin

text \<open>
  The rest of \<open>src/sip/server.go\<close>: the accept loop \<open>Serve\<close> with its done channel, the calls that
  start it, and the functions through which a layer calls the handlers. What the socket
  delivers, and the closing of the done channel by another goroutine, come as a list of events
  in the order of time; what the loop does is the list of its actions. The times are in
  milliseconds.
\<close>

section \<open>The done channel\<close>

text \<open>None is the nil channel, otherwise the flag says whether it is closed.\<close>

type_synonym done_chan = "bool option"

definition getDoneChanLocked :: "done_chan \<Rightarrow> done_chan" where
  "getDoneChanLocked d = (case d of None \<Rightarrow> Some False | Some c \<Rightarrow> Some c)"

definition getDoneChan :: "done_chan \<Rightarrow> done_chan" where
  "getDoneChan d = getDoneChanLocked d"

definition closeDoneChanLocked :: "done_chan \<Rightarrow> done_chan" where
  "closeDoneChanLocked d =
     (case getDoneChanLocked d of Some False \<Rightarrow> Some True | ch \<Rightarrow> ch)"

section \<open>The loop\<close>

text \<open>The delay after a temporary error of the socket: doubled from 5 ms up to a second.\<close>

definition next_delay :: "nat \<Rightarrow> nat" where
  "next_delay tempDelay =
     (let d = (if tempDelay = 0 then 5 else tempDelay * 2) in if 1000 < d then 1000 else d)"

datatype socket_result = Datagram string string | TemporaryError | PermanentError string

datatype serve_event = CloseDone | FromSocket socket_result

datatype serve_action = StartPacket string string | Sleep nat

datatype serve_error = ErrServerClosed | SocketError string

text \<open>
  The actions, and the error with which the loop returned, or None while it waits for the
  socket. A datagram is cut at the size of the buffer, and a goroutine gets a copy of it.
\<close>

fun serve_loop :: "nat \<Rightarrow> done_chan \<Rightarrow> nat \<Rightarrow> serve_event list \<Rightarrow> serve_action list \<times> serve_error option" where
  "serve_loop bufsz d tempDelay [] = ([], None)"
| "serve_loop bufsz d tempDelay (CloseDone # evs) = serve_loop bufsz (closeDoneChanLocked d) tempDelay evs"
| "serve_loop bufsz d tempDelay (FromSocket (Datagram buf addr) # evs) =
     (let (as, e) = serve_loop bufsz d 0 evs in (StartPacket (take bufsz buf) addr # as, e))"
| "serve_loop bufsz d tempDelay (FromSocket TemporaryError # evs) =
     (if getDoneChan d = Some True then ([], Some ErrServerClosed)
      else (let (as, e) = serve_loop bufsz (getDoneChan d) (next_delay tempDelay) evs
            in (Sleep (next_delay tempDelay) # as, e)))"
| "serve_loop bufsz d tempDelay (FromSocket (PermanentError msg) # evs) =
     (if getDoneChan d = Some True then ([], Some ErrServerClosed) else ([], Some (SocketError msg)))"

text \<open>\<open>Serve\<close> makes the done channel anew, so that a channel that was closed before is forgotten.\<close>

definition Serve :: "nat \<Rightarrow> serve_event list \<Rightarrow> serve_action list \<times> serve_error option" where
  "Serve bufsz evs = serve_loop bufsz (Some False) 0 evs"

definition RecieveBufSizeB :: nat where "RecieveBufSizeB = 9000"

text \<open>
  Name resolution and the opening of the socket are arguments. An address that does not
  resolve ends the program. The flag \<open>inShutdown\<close> is never set in the code.
\<close>

datatype listen_end = ServerStopped serve_error | ProgramExit | Listening string "serve_action list"

definition shuttingDown :: "int \<Rightarrow> bool" where
  "shuttingDown inShutdown \<longleftrightarrow> inShutdown \<noteq> 0"

definition ListenAndServe :: "(string \<Rightarrow> string option) \<Rightarrow> (string \<Rightarrow> string option) \<Rightarrow> int \<Rightarrow> string
    \<Rightarrow> serve_event list \<Rightarrow> listen_end" where
  "ListenAndServe resolve listen inShutdown addr0 evs =
     (if shuttingDown inShutdown then ServerStopped ErrServerClosed
      else
        (let addr = (if addr0 = [] then '':sip'' else addr0) in
         case resolve addr of
           None \<Rightarrow> ProgramExit
         | Some udp \<Rightarrow>
             (case listen udp of
                Some err \<Rightarrow> ServerStopped (SocketError err)
              | None \<Rightarrow>
                  (case Serve RecieveBufSizeB evs of
                     (as, None) \<Rightarrow> Listening udp as
                   | (as, Some e) \<Rightarrow> ServerStopped e))))"

section \<open>The log\<close>

text \<open>
  The log is the list of its lines; a line is what \<open>fmt\<close> makes of the format and the arguments.
  It goes to the server's own logger or to the standard one with the same text. Levels are
  numbered from \<open>LogCritical\<close>.
\<close>

datatype log_level = LogCritical | LogError | LogWarn | LogInfo | LogDebug

fun level_num :: "log_level \<Rightarrow> nat" where
  "level_num LogCritical = 0"
| "level_num LogError = 1"
| "level_num LogWarn = 2"
| "level_num LogInfo = 3"
| "level_num LogDebug = 4"

definition logf :: "string \<Rightarrow> string list \<Rightarrow> string list" where
  "logf line lg = lg @ [''sip: '' @ line]"

definition log_at :: "log_level \<Rightarrow> string \<Rightarrow> log_level \<Rightarrow> string \<Rightarrow> string list \<Rightarrow> string list" where
  "log_at threshold tag LogLevel line lg = (if level_num threshold \<le> level_num LogLevel then logf (tag @ line) lg else lg)"

definition Criticalf :: "log_level \<Rightarrow> string \<Rightarrow> string list \<Rightarrow> string list" where
  "Criticalf = log_at LogCritical ''[CRITICAL] ''"

definition Errorf :: "log_level \<Rightarrow> string \<Rightarrow> string list \<Rightarrow> string list" where
  "Errorf = log_at LogError ''[ERROR] ''"

definition Warnf :: "log_level \<Rightarrow> string \<Rightarrow> string list \<Rightarrow> string list" where
  "Warnf = log_at LogWarn ''[WARNING] ''"

definition Infof :: "log_level \<Rightarrow> string \<Rightarrow> string list \<Rightarrow> string list" where
  "Infof = log_at LogInfo ''[INFO] ''"

definition Debugf :: "log_level \<Rightarrow> string \<Rightarrow> string list \<Rightarrow> string list" where
  "Debugf = log_at LogDebug ''[DEBUG] ''"

section \<open>Calling the handlers\<close>

text \<open>Without a handler of its own a server takes the default table.\<close>

definition srv_handle :: "'w handler option \<Rightarrow> 'w mux \<Rightarrow> 'w handler" where
  "srv_handle Handler DefaultServeMux l x =
     (case Handler of None \<Rightarrow> ServeSIP DefaultServeMux l x | Some h \<Rightarrow> h l x)"

definition socketHandler :: "'w handler option \<Rightarrow> 'w mux \<Rightarrow> 'w \<times> message \<Rightarrow> (('w \<times> message) \<times> string option) run" where
  "socketHandler h m x = srv_handle h m LayerSocket x"

definition ingress :: "'w handler option \<Rightarrow> 'w mux \<Rightarrow> 'w \<times> message \<Rightarrow> (('w \<times> message) \<times> string option) run" where
  "ingress h m x = srv_handle h m LayerParserIngress x"

definition egress :: "'w handler option \<Rightarrow> 'w mux \<Rightarrow> 'w \<times> message \<Rightarrow> (('w \<times> message) \<times> string option) run" where
  "egress h m x = srv_handle h m LayerParserEgress x"

definition handleToCore :: "'w handler option \<Rightarrow> 'w mux \<Rightarrow> 'w \<times> message \<Rightarrow> (('w \<times> message) \<times> string option) run" where
  "handleToCore h m x = srv_handle h m LayerCore x"

definition handleInTransaction :: "'w handler option \<Rightarrow> 'w mux \<Rightarrow> 'w \<times> message \<Rightarrow> (('w \<times> message) \<times> string option) run" where
  "handleInTransaction h m x = srv_handle h m LayerTransaction x"

definition mux_HandleFunc :: "layer \<Rightarrow> string \<Rightarrow> 'w handler option \<Rightarrow> 'w mux \<Rightarrow> string + 'w mux" where
  "mux_HandleFunc l ident h m =
     (if ident = [] then Inl ''sip: invalid id''
      else if h = None then Inl ''sip: nil handler''
      else mux_Handle l ident h m)"

text \<open>A function as a handler, and \<open>ListenAndServe\<close> with a new server.\<close>

definition HandlerFunc_ServeSIP :: "'w handler \<Rightarrow> 'w handler" where
  "HandlerFunc_ServeSIP f l x = f l x"

definition HandleInTransaction :: "'w handler option \<Rightarrow> 'w mux \<Rightarrow> 'w \<times> message \<Rightarrow> (('w \<times> message) \<times> string option) run" where
  "HandleInTransaction h m x = handleInTransaction h m x"

definition default_ListenAndServe :: "(string \<Rightarrow> string option) \<Rightarrow> (string \<Rightarrow> string option) \<Rightarrow> string \<Rightarrow> serve_event list \<Rightarrow> listen_end" where
  "default_ListenAndServe resolve listen addr evs = ListenAndServe resolve listen 0 addr evs"

text \<open>The packets of a run of the loop, one after the other, in the order their goroutines were started.\<close>

fun run_packets :: "'a srv_scheme mux \<Rightarrow> (string \<Rightarrow> nat) \<Rightarrow> ctx \<Rightarrow> serve_action list \<Rightarrow> 'a srv_scheme
    \<Rightarrow> ('a srv_scheme \<times> packet_end list) run" where
  "run_packets mux Buffered c [] s = Inr (s, [])"
| "run_packets mux Buffered c (StartPacket buf addr # as) s =
     bindR (packetProcessing mux Buffered c buf addr s) (\<lambda>(s1, e).
     bindR (run_packets mux Buffered c as s1) (\<lambda>(s2, es). Inr (s2, e # es)))"
| "run_packets mux Buffered c (Sleep d # as) s = run_packets mux Buffered c as s"

end
