(* ===== verification/Serve_Props.thy ===== *)
theory Serve_Props
  imports Serve Server_Props
begin

text \<open>
  What the accept loop does with any sequence of results of the socket, in closed form: which
  packets it starts, how long it sleeps, and when and how it returns.
\<close>

section \<open>The actions in closed form\<close>

text \<open>The delay after the n-th temporary error in a row.\<close>

fun backoff :: "nat \<Rightarrow> nat" where
  "backoff 0 = 0"
| "backoff (Suc n) = min 1000 (5 * 2 ^ n)"

lemma next_delay_backoff: "next_delay (backoff n) = backoff (Suc n)"
proof (cases n)
  case (Suc k)
  then show ?thesis
  proof (cases "5 * 2 ^ k \<le> (1000 :: nat)")
    case False
    then have "1000 < 5 * 2 ^ k * (2 :: nat)" by simp
    then show ?thesis using Suc False by (simp add: next_delay_def Let_def)
  qed (simp add: next_delay_def Let_def mult.commute)
qed (simp add: next_delay_def)

text \<open>The temporary errors at the end of the events so far.\<close>

definition errors_in_a_row :: "serve_event list \<Rightarrow> nat" where
  "errors_in_a_row evs = length (takeWhile (\<lambda>e. e = FromSocket TemporaryError) (rev evs))"

definition event_actions :: "nat \<Rightarrow> serve_event list \<Rightarrow> serve_event \<Rightarrow> serve_action list" where
  "event_actions bufsz before e =
     (case e of
        CloseDone \<Rightarrow> []
      | FromSocket (Datagram buf addr) \<Rightarrow> [StartPacket (take bufsz buf) addr]
      | FromSocket TemporaryError \<Rightarrow> [Sleep (min 1000 (5 * 2 ^ errors_in_a_row before))]
      | FromSocket (PermanentError msg) \<Rightarrow> [])"

text \<open>An event the loop does not survive, after the ones before it.\<close>

definition stops :: "serve_event list \<Rightarrow> serve_event \<Rightarrow> bool" where
  "stops before e \<longleftrightarrow>
     (case e of
        FromSocket TemporaryError \<Rightarrow> CloseDone \<in> set before
      | FromSocket (PermanentError msg) \<Rightarrow> True
      | _ \<Rightarrow> False)"

definition stop_error :: "serve_event list \<Rightarrow> serve_event \<Rightarrow> serve_error" where
  "stop_error before e =
     (if CloseDone \<in> set before then ErrServerClosed
      else (case e of FromSocket (PermanentError msg) \<Rightarrow> SocketError msg | _ \<Rightarrow> ErrServerClosed))"

fun expected :: "nat \<Rightarrow> serve_event list \<Rightarrow> serve_event list \<Rightarrow> serve_action list \<times> serve_error option" where
  "expected bufsz before [] = ([], None)"
| "expected bufsz before (e # es) =
     (if stops before e then ([], Some (stop_error before e))
      else (event_actions bufsz before e @ fst (expected bufsz (before @ [e]) es), snd (expected bufsz (before @ [e]) es)))"

lemma errors_snoc:
  "errors_in_a_row (xs @ [e]) = (if e = FromSocket TemporaryError then Suc (errors_in_a_row xs) else 0)"
  by (simp add: errors_in_a_row_def)

text \<open>The delay only matters while the done channel is open.\<close>

lemma serve_loop_expected:
  "(CloseDone \<notin> set before \<longrightarrow> delay = backoff (errors_in_a_row before)) \<Longrightarrow>
   serve_loop bufsz (Some (CloseDone \<in> set before)) delay evs = expected bufsz before evs"
proof (induction evs arbitrary: before delay)
  case (Cons e evs)
  show ?case
  proof (cases e)
    case CloseDone
    have "serve_loop bufsz (Some True) delay evs = expected bufsz (before @ [CloseDone]) evs"
      using Cons.IH [of "before @ [CloseDone]" delay] by simp
    then show ?thesis
      using CloseDone
      by (cases "expected bufsz (before @ [CloseDone]) evs")
         (simp add: closeDoneChanLocked_def getDoneChanLocked_def stops_def event_actions_def split: bool.split)
  next
    case (FromSocket r)
    show ?thesis
    proof (cases r)
      case (Datagram buf addr)
      then show ?thesis
        using FromSocket Cons.IH [of "before @ [e]" 0]
        by (simp add: errors_snoc stops_def event_actions_def case_prod_beta)
    next
      case TemporaryError
      have "serve_loop bufsz (Some False) (next_delay delay) evs = expected bufsz (before @ [e]) evs"
        if "CloseDone \<notin> set before"
        using that Cons.prems Cons.IH [of "before @ [e]" "next_delay delay"] FromSocket TemporaryError next_delay_backoff
        by (simp add: errors_snoc del: backoff.simps)
      then show ?thesis
        using FromSocket TemporaryError Cons.prems next_delay_backoff [of "errors_in_a_row before"]
        by (auto simp: getDoneChan_def getDoneChanLocked_def stops_def stop_error_def event_actions_def case_prod_beta)
    next
      case (PermanentError msg)
      then show ?thesis
        using FromSocket by (simp add: getDoneChan_def getDoneChanLocked_def stops_def stop_error_def)
    qed
  qed
qed simp


definition survived :: "serve_event list \<Rightarrow> serve_event list \<Rightarrow> nat" where
  "survived before es = length (takeWhile (\<lambda>i. \<not> stops (before @ take i es) (es ! i)) [0..<length es])"

lemma survived_Cons:
  "survived before (e # es) = (if stops before e then 0 else Suc (survived (before @ [e]) es))"
proof -
  have "[0..<length (e # es)] = 0 # map Suc [0..<length es]"
    by (simp add: map_Suc_upt upt_conv_Cons del: upt_Suc)
  then show ?thesis by (simp add: survived_def takeWhile_map o_def)
qed

lemma expected_closed_form:
  "expected bufsz before es =
     (concat (map (\<lambda>i. event_actions bufsz (before @ take i es) (es ! i)) [0..<survived before es]),
      (if survived before es < length es
       then Some (stop_error (before @ take (survived before es) es) (es ! survived before es)) else None))"
proof (induction es arbitrary: before)
  case (Cons e es)
  have "[0..<Suc n] = 0 # map Suc [0..<n]" for n
    by (simp add: map_Suc_upt upt_conv_Cons del: upt_Suc)
  then show ?case using Cons.IH [of "before @ [e]"] by (simp add: survived_Cons o_def del: upt_Suc)
qed (simp add: survived_def)

text \<open>
  C22: For any sequence of what the socket delivers: up to the first event that stops the loop, every
  datagram is handed over once, in order, cut at the buffer size, and every temporary error
  makes it sleep \<open>5 * 2^n\<close> ms but at most a second, \<open>n\<close> being the temporary errors directly
  before; what stops the loop is a permanent error, or any error once the done channel is closed,
  and then the result says which; nothing else makes it return.
\<close>

theorem serve_loop_behaviour:
  "Serve bufsz evs =
     (concat (map (\<lambda>i. event_actions bufsz (take i evs) (evs ! i)) [0..<survived [] evs]),
      (if survived [] evs < length evs
       then Some (stop_error (take (survived [] evs) evs) (evs ! survived [] evs)) else None))"
  using serve_loop_expected [of "[]" 0 bufsz evs] expected_closed_form [of bufsz "[]" evs]
  by (simp add: Serve_def errors_in_a_row_def)

end
