(* ===== verification/Proxy_Main.thy ===== *)
theory Proxy_Main
  imports Proxy Serve Auth
begin

text \<open>
  \<open>main\<close> of \<open>src/proxy_server.go\<close>: the environment, the tables that are loaded, and the handlers
  that are registered. The handlers of the proxy are put into the table of the server here, so
  that a packet is handled by both. The environment variables and the records of the files are
  arguments; the goroutine that logs statistics is left out.
\<close>

section \<open>Errors as text\<close>

text \<open>The texts of \<open>sip.go\<close>, \<open>transaction.go\<close> and \<open>status.go\<close>; \<open>%d\<close> writes a number.\<close>

fun ErrorString :: "protocol_error \<Rightarrow> string" where
  "ErrorString ErrMissingMandatoryHeader = ''missing mandatory header in message''"
| "ErrorString ErrHeaderParseError = ''malformed headder''"
| "ErrorString ErrMalformedMessage = ''malformed message''"
| "ErrorString ErrTransactionUnexpectedMessage = ''transaction receive unexpected message''"
| "ErrorString ErrTransactionTimedOut = ''transaction timed out''"
| "ErrorString ErrTransactionClosed = ''transaction was closed''"
| "ErrorString ErrTransactionDuplicated = ''transaction duplicated''"
| "ErrorString ErrStatusError = ''SIP Protocol Status Error''"
| "ErrorString (Non2XXResponse n) = ''Non 2XX response '' @ Itoa n"

section \<open>The handlers in the table of the server\<close>

definition core_handler :: "env \<Rightarrow> reg_result option run \<Rightarrow> proxy handler" where
  "core_handler ev reg l x =
     bindR (proxyCoreHandler ev reg l (snd x) (fst x)) (\<lambda>(e, p). Inr ((p, snd x), map_option ErrorString e))"

definition manipulation_handler :: "proxy handler" where
  "manipulation_handler l x =
     bindR (messageManipulationHandler l (snd x) (fst x)) (\<lambda>(e, p). Inr ((p, snd x), map_option ErrorString e))"

text \<open>A registration that panics ends the program with its message.\<close>

definition main_mux :: "env \<Rightarrow> reg_result option run \<Rightarrow> string + proxy mux" where
  "main_mux ev reg =
     bindR (mux_HandleFunc LayerParserIngress ''module sip message manipulation'' (Some manipulation_handler) []) (\<lambda>m1.
     bindR (mux_HandleFunc LayerParserEgress ''module sip message manipulation'' (Some manipulation_handler) m1) (\<lambda>m2.
     bindR (mux_HandleFunc LayerCore ''module sip core(proxy)'' (Some (core_handler ev reg)) m2) (\<lambda>m3.
       mux_HandleFunc LayerTransaction ''module sip core-transaction(proxy)'' (Some (core_handler ev reg)) m3)))"

section \<open>The databases\<close>

text \<open>
  What the two constructors ask of the file system and of SQLite: whether the file of an earlier
  run is there and can be removed, the database if it opens, and the execution of a statement.
  The statements are the parsed \<open>CREATE TABLE\<close> texts.
\<close>

datatype column_type = VARCHAR255 | VARCHAR255_KEY | INTEGER

type_synonym schema = "(string \<times> (string \<times> column_type) list) list"

record 'd sqlite =
  sl_stat :: bool
  sl_remove :: bool
  sl_open :: "'d option"
  sl_create :: "schema \<Rightarrow> 'd \<Rightarrow> 'd option"

definition auth_schema :: schema where
  "auth_schema =
     [(''authenticate'', [(''username'', VARCHAR255), (''realm'', VARCHAR255), (''nonce'', VARCHAR255),
        (''a1md5'', VARCHAR255), (''nonceExpiredAt'', INTEGER)])]"

definition register_schema :: schema where
  "register_schema =
     [(''register_seq'', [(''aor'', VARCHAR255_KEY), (''callId'', VARCHAR255), (''seq'', INTEGER)]),
      (''register'', [(''aor'', VARCHAR255), (''bind'', VARCHAR255), (''q'', INTEGER), (''expired_at'', INTEGER)])]"

definition NewAuthController :: "'d sqlite \<Rightarrow> 'd option" where
  "NewAuthController q =
     (if sl_stat q \<and> \<not> sl_remove q then None
      else (case sl_open q of None \<Rightarrow> None | Some db \<Rightarrow> sl_create q auth_schema db))"

definition NewRegisterController :: "'d sqlite \<Rightarrow> 'd option" where
  "NewRegisterController q =
     (if sl_stat q \<and> \<not> sl_remove q then None
      else (case sl_open q of None \<Rightarrow> None | Some db \<Rightarrow> sl_create q register_schema db))"

text \<open>
  The challenge. \<open>update\<close> tells whether an \<open>UPDATE\<close> of the named columns, selected by the others,
  succeeds. Without a transaction the nil one is rolled back; the header that \<open>new\<close> makes is a
  nil map, to which \<open>Add\<close> assigns. The result is the header, or None.
\<close>

definition generateAuthRequireHeader :: "(string \<Rightarrow> string) \<Rightarrow> string option \<Rightarrow> int \<Rightarrow> bool
    \<Rightarrow> (string \<Rightarrow> (string \<times> string) list \<Rightarrow> (string \<times> string) list \<Rightarrow> bool)
    \<Rightarrow> string \<Rightarrow> string \<Rightarrow> string \<Rightarrow> kvs option run" where
  "generateAuthRequireHeader md5hex rnd now begin_ok update header username realm =
     (let (nonce, expire) = generateNonce md5hex rnd now in
      if \<not> begin_ok then Inl NilDereference
      else if \<not> update ''authenticate'' [(''nonce'', nonce), (''onceExpiredAt'', Itoa expire)]
                [(''usernames'', username), (''realm'', realm)] then Inr None
      else Inl NilMapAssignment)"

section \<open>The start of the program\<close>

definition env_or :: "(string \<Rightarrow> string option) \<Rightarrow> string \<Rightarrow> string \<Rightarrow> string" where
  "env_or LookupEnv name dflt = (case LookupEnv name of None \<Rightarrow> dflt | Some v \<Rightarrow> v)"

definition main_log_level :: "string \<Rightarrow> log_level" where
  "main_log_level s = (if s = ''INFO'' then LogInfo else if s = ''DEBUG'' then LogDebug else LogInfo)"

record started =
  st_listen :: string
  st_level :: log_level
  st_routes :: trie
  st_users :: "auth_record list"

text \<open>
  A file that does not open ends the program; otherwise its records are those before the first
  that the CSV reader refuses. The program returns when a record has not three fields, when a
  subscriber is incomplete or not taken by the database, and when the name of the file of
  subscribers is empty. It dereferences the nil database of the users when that was not set up;
  the one of the registrar is not used here.
\<close>

datatype main_end = NoFile string | MainPanics panic | MainReturns | Started started

definition proxy_main :: "(string \<Rightarrow> string) \<Rightarrow> 'd sqlite \<Rightarrow> ('d \<Rightarrow> user_db) \<Rightarrow> (string \<Rightarrow> string option)
    \<Rightarrow> (string \<Rightarrow> string list list option) \<Rightarrow> main_end" where
  "proxy_main md5hex authdb ud LookupEnv read_csv =
     (let listenAddr = env_or LookupEnv ''LISTEN'' [];
          level = main_log_level (env_or LookupEnv ''LOGLEVEL'' ''INFO'');
          filepath = env_or LookupEnv ''TRANSFILE'' ''routes.csv'';
          subsFilePath = env_or LookupEnv ''SUBSFILE'' ''users.csv'';
          authenticater = NewAuthController authdb
      in case read_csv filepath of
           None \<Rightarrow> NoFile filepath
         | Some recs \<Rightarrow>
             (let (ok, routes) = loadTranslater None recs in
              if \<not> ok \<or> subsFilePath = [] then MainReturns
              else (case read_csv subsFilePath of
                  None \<Rightarrow> NoFile subsFilePath
                | Some subs \<Rightarrow>
                    (case authenticater of
                       None \<Rightarrow> MainPanics NilDereference
                     | Some db \<Rightarrow>
                         (let (ok2, users) = importSubscriber md5hex (ud db) subsFilePath subs [] in
                          if \<not> ok2 then MainReturns
                          else Started \<lparr>st_listen = listenAddr, st_level = level, st_routes = routes, st_users = users\<rparr>)))))"

end
