(* ===== verification/Proxy_Main_Props.thy ===== *)
theory Proxy_Main_Props
  imports Proxy_Main Server_Props Proxy_Props Auth_Props
begin

text \<open>
  The server and the proxy together: the packet of a request reaches the handler of its method
  as the message that was written, and the packet of a retransmission reaches the transaction
  that the first one left behind.
\<close>

section \<open>The transactions a handler leaves\<close>

definition txn_view :: "server_key \<Rightarrow> proxy \<Rightarrow> (server_key \<times> bool \<times> transactionState) option" where
  "txn_view k p = map_option (\<lambda>t. (s_Key t, s_Invite t, s_State t)) (lookupServerTransaction k p)"

lemma view_emit [simp]: "txn_view k (emit e p) = txn_view k p"
  by (simp add: txn_view_def)

lemma view_steps [simp]:
  "txn_view k (put_call c i p) = txn_view k p" "txn_view k (server_write t m p) = txn_view k p"
  "txn_view k (client_write u m p) = txn_view k p" "txn_view k (AddClientTransaction d u p) = txn_view k p"
  "txn_view k (p\<lparr>px_calls := x\<rparr>) = txn_view k p" "txn_view k (p\<lparr>px_ctxs := y\<rparr>) = txn_view k p"
  "txn_view k (start_timerC d p) = txn_view k p"
  by (simp_all add: txn_view_def put_call_def server_write_def client_write_def AddClientTransaction_def
      lookupServerTransaction_def start_timerC_def emit_def Let_def)

lemma view_tag [simp]: "txn_view k (tag_request s r p) = txn_view k p"
  by (auto simp: txn_view_def tag_request_def lookupServerTransaction_def split: option.split)

lemma view_close_call: "close_call c i p = Inr p' \<Longrightarrow> txn_view k p' = txn_view k p"
  by (auto simp: close_call_def split: prod.splits)

lemma view_makeErrorResponse: "makeErrorResponse ev m tx code p = Inr p' \<Longrightarrow> txn_view k p' = txn_view k p"
  by (auto simp: makeErrorResponse_def Let_def split: option.splits dest!: view_close_call)

lemma view_forward_request: "forward_request ev i t f p = Inr (f1, ct, p') \<Longrightarrow> txn_view k p' = txn_view k p"
  by (auto simp: forward_request_def Let_def split: prod.splits)

lemma view_cancel_one: "cancel_one ev s c p = Inr p' \<Longrightarrow> txn_view k p' = txn_view k p"
  by (auto simp: cancel_one_def split: option.splits sum.splits prod.splits)

lemma view_cancel_all: "cancel_all ev s cs p = Inr p' \<Longrightarrow> txn_view k p' = txn_view k p"
  by (induction cs arbitrary: p) (auto dest: view_cancel_one)

lemma view_invite: "inviteHandler ev m t p = Inr (st, p') \<Longrightarrow> txn_view k p' = txn_view k p"
  by (auto simp: inviteHandler_def Let_def split: sum.splits if_splits dest!: view_forward_request)

lemma view_others:
  "nonInviteHandler ev m t p = Inr (st, p') \<Longrightarrow> txn_view k p' = txn_view k p"
  "ackHandler m p = Inr (st, p') \<Longrightarrow> txn_view k p' = txn_view k p"
  "registerHandler ev reg m t p = Inr (st, p') \<Longrightarrow> txn_view k p' = txn_view k p"
  "cancelHandler ev m t p = Inr (st, p') \<Longrightarrow> txn_view k p' = txn_view k p"
  by (auto simp: nonInviteHandler_def ackHandler_def registerHandler_def cancelHandler_def Let_def
      split: sum.splits if_splits option.splits dest!: view_forward_request view_cancel_all)

lemma view_request_method:
  assumes "request_method ev reg m tx p = Inr (st, p')"
  shows "txn_view k p' = txn_view k p"
proof (cases "m_Method m = ''ACK''")
  case True
  then show ?thesis using assms view_others(2) by (simp add: request_method_def)
next
  case False
  then obtain t where t: "tx = Some t" using assms by (auto simp: request_method_def deref_def split: option.splits)
  show ?thesis
    using assms False view_invite view_others
    unfolding request_method_def t deref_simps bindR_simps by (fastforce split: if_splits)
qed

text \<open>Whatever becomes of a request, its transaction is in the table when it was handled.\<close>

lemma request_leaves_transaction:
  assumes "requestHandler ev reg m p = Inr (None, p')" and "GenerateServerTransactionKey m = Inr (Inr k)"
    and "m_Method m \<noteq> ''ACK''" and "lookupServerTransaction k p = None"
  shows "txn_view k p' = Some (k, m_Method m = ''INVITE'', TransactionStateInit)"
proof -
  let ?t = "newServerTransaction (m_Method m = ''INVITE'') k m"
  let ?p1 = "(emit (StartServerTxn k) p)\<lparr>sv_serverTransactions := map_put k ?t (Some (made (sv_serverTransactions p)))\<rparr>"
  have key: "s_Key ?t = k" by (simp add: newServerTransaction_def)
  have "AddServerTransaction k ?t (emit (StartServerTxn k) p) = (None, ?p1)"
    using assms(4) by (simp add: AddServerTransaction_def lookupServerTransaction_def)
  then have a: "add_server_txn (Some ?t) p = (None, ?p1)" by (simp add: add_server_txn_def key)
  have "lookupServerTransaction k ?p1 = Some ?t" by (simp add: lookupServerTransaction_def)
  then have v1: "txn_view k ?p1 = Some (k, m_Method m = ''INVITE'', TransactionStateInit)"
    by (simp add: txn_view_def newServerTransaction_def)
  let ?fin = "\<lambda>(status, p2). case status of None \<Rightarrow> Inr (None :: protocol_error option, p2)
      | Some code \<Rightarrow> bindR (makeErrorResponse ev m (Some ?t) code p2) (\<lambda>p3. Inr (None, p3))"
  have "bindR (request_method ev reg m (Some ?t) ?p1) ?fin = Inr (None, p')"
    using assms(1-3) a by (simp add: requestHandler_def Let_def)
  then obtain x where x: "request_method ev reg m (Some ?t) ?p1 = Inr x" "?fin x = Inr (None, p')" by (rule bindR_InrE)
  obtain status p2 where sp: "x = (status, p2)" by fastforce
  have q: "request_method ev reg m (Some ?t) ?p1 = Inr (status, p2)" using x(1) sp by simp
  have p': "(case status of None \<Rightarrow> Inr (None :: protocol_error option, p2)
      | Some code \<Rightarrow> bindR (makeErrorResponse ev m (Some ?t) code p2) (\<lambda>p3. Inr (None, p3))) = Inr (None, p')"
    using x(2) sp by simp
  have "txn_view k p2 = txn_view k ?p1" using q by (rule view_request_method)
  moreover have "txn_view k p' = txn_view k p2" using p' view_makeErrorResponse by (auto split: option.splits)
  ultimately show ?thesis using v1 by simp
qed


section \<open>The packet of a request\<close>

definition proxy_mux :: "env \<Rightarrow> reg_result option run \<Rightarrow> proxy mux" where
  "proxy_mux ev reg = (case main_mux ev reg of Inr m \<Rightarrow> m | Inl _ \<Rightarrow> [])"

lemma proxy_mux_layers:
  "map_of (proxy_mux ev reg) LayerSocket = None"
  "map_of (proxy_mux ev reg) LayerParserIngress = Some [(''module sip message manipulation'', manipulation_handler)]"
  "map_of (proxy_mux ev reg) LayerCore = Some [(''module sip core(proxy)'', core_handler ev reg)]"
  by (simp_all add: proxy_mux_def main_mux_def mux_HandleFunc_def mux_Handle_def)

lemma proxy_handlers:
  "ServeSIP (proxy_mux ev reg) LayerSocket x = Inr (x, None)"
  "ServeSIP (proxy_mux ev reg) LayerParserIngress x = Inr (x, None)"
  "ServeSIP (proxy_mux ev reg) LayerCore (p, m) =
     bindR (proxyCoreHandler ev reg LayerCore m p) (\<lambda>(e, p'). Inr ((p', m), map_option ErrorString e))"
  by (auto simp: ServeSIP_def proxy_mux_layers manipulation_handler_def messageManipulationHandler_def core_handler_def
      bindR_def split: sum.split prod.split)

lemma server_key_cong:
  assumes "m_Via a = m_Via b" and "m_Method a = m_Method b"
  shows "GenerateServerTransactionKey a = GenerateServerTransactionKey b"
proof -
  have "GetTopMostVia a = GetTopMostVia b" using assms(1) by (simp add: GetTopMostVia_def)
  then show ?thesis unfolding GenerateServerTransactionKey_def assms(2) by simp
qed

lemma arrived_key: "GenerateServerTransactionKey (set_ctx c (arrived addr r)) = GenerateServerTransactionKey r"
  by (rule server_key_cong) (simp_all add: set_ctx_def arrived_def)

lemma request_packet:
  assumes "message_wf r" and "request_line_wf r" and "body_wf B r" and "message_write False r = Inr w"
    and "GenerateServerTransactionKey r = Inr (Inr k)"
  shows "packetProcessing (proxy_mux ev reg) B c w addr p =
    (let m = set_ctx c (arrived addr r) in
     case lookupServerTransaction k p of
       Some t \<Rightarrow> Inr (p, HandleServer t m)
     | None \<Rightarrow> bindR (requestHandler ev reg m p) (\<lambda>(e, p'). Inr (p', ToCore (map_option ErrorString e) m)))"
proof -
  let ?m = "set_ctx c (arrived addr r)"
  have "readMessage B (CreateMessage addr) w = Inr (Inr (arrived addr r))"
    using request_read_back [OF assms(1,3,2), of addr] assms(4) by auto
  then have read: "readMessage B (set_ctx c (CreateMessage addr)) w = Inr (Inr ?m)"
    by (simp add: readMessage_ctx)
  have req: "m_Request ?m" using assms(2) by (simp add: set_ctx_def arrived_def request_line_wf_def)
  have key: "packet_key p ?m = Inr (Inr (lookupServerTransaction k p, None))"
    using req assms(5) by (simp add: packet_key_def arrived_key)
  show ?thesis
    using read req key
    by (auto simp: packetProcessing_def proxy_handlers proxyCoreHandler_def Let_def bindR_def simp flip: set_ctx_def
        split: option.split sum.split prod.split)
qed

text \<open>
  C1: The packet of a request that a peer wrote is handled by the proxy as the message it is, once:
  without a transaction the handler of its method runs on it, and what becomes of the packet is
  what becomes of the request; when the same bytes come again, from whatever address, they go
  to the transaction that the first packet left, and the proxy does not see them.
\<close>

theorem request_handled_once:
  assumes "message_wf r" and "request_line_wf r" and "body_wf B r" and "message_write False r = Inr w"
    and "GenerateServerTransactionKey r = Inr (Inr k)" and "m_Method r \<noteq> ''ACK''"
    and "lookupServerTransaction k p = None"
    and "requestHandler ev reg (set_ctx c (arrived addr r)) p = Inr (None, p')"
  shows "packetProcessing (proxy_mux ev reg) B c w addr p = Inr (p', ToCore None (set_ctx c (arrived addr r))) \<and>
    (\<exists>t. packetProcessing (proxy_mux ev' reg') B c' w addr' p'
        = Inr (p', HandleServer t (set_ctx c' (arrived addr' r))) \<and>
      s_Key t = k \<and> s_Invite t = (m_Method r = ''INVITE''))"
proof
  show "packetProcessing (proxy_mux ev reg) B c w addr p = Inr (p', ToCore None (set_ctx c (arrived addr r)))"
    using request_packet [OF assms(1-5)] assms(7,8) by simp
  have "m_Method (set_ctx c (arrived addr r)) = m_Method r" "GenerateServerTransactionKey (set_ctx c (arrived addr r)) = Inr (Inr k)"
    using assms(5) unfolding arrived_key by (simp_all add: set_ctx_def arrived_def)
  then have "txn_view k p' = Some (k, m_Method r = ''INVITE'', TransactionStateInit)"
    using request_leaves_transaction [OF assms(8), of k] assms(6,7) by simp
  then obtain t where "lookupServerTransaction k p' = Some t" "s_Key t = k" "s_Invite t = (m_Method r = ''INVITE'')"
    by (auto simp: txn_view_def)
  then show "\<exists>t. packetProcessing (proxy_mux ev' reg') B c' w addr' p'
        = Inr (p', HandleServer t (set_ctx c' (arrived addr' r))) \<and>
      s_Key t = k \<and> s_Invite t = (m_Method r = ''INVITE'')"
    using request_packet [OF assms(1-5)] by (intro exI [of _ t]) simp
qed


definition sample_packet :: string where
  "sample_packet = (case message_write False sample_invite of Inr w \<Rightarrow> w | Inl _ \<Rightarrow> [])"

definition sample_packet_end :: "protocol_error option \<times> proxy" where
  "sample_packet_end = (case requestHandler sample_env (Inr None) (set_ctx Background (arrived ''10.0.0.9:5060'' sample_invite)) sample_proxy of
     Inr x \<Rightarrow> x | Inl _ \<Rightarrow> (None, sample_proxy))"

theorem request_handled_once_witness:
  "\<exists>t m. packetProcessing (proxy_mux sample_env (Inr None)) (\<lambda>s. 0) Background sample_packet ''10.0.0.9:5060'' (snd sample_packet_end)
     = Inr (snd sample_packet_end, HandleServer t m) \<and> s_Key t = sample_key \<and> s_Invite t"
proof -
  have "case message_write False sample_invite of Inr w \<Rightarrow> True | Inl _ \<Rightarrow> False" by code_simp
  then have 1: "message_write False sample_invite = Inr sample_packet" by (auto simp: sample_packet_def split: sum.splits)
  have 2: "GenerateServerTransactionKey sample_invite = Inr (Inr sample_key)" "m_Method sample_invite \<noteq> ''ACK''"
    "lookupServerTransaction sample_key sample_proxy = None" "m_Method sample_invite = ''INVITE''" by code_simp+
  have "case requestHandler sample_env (Inr None) (set_ctx Background (arrived ''10.0.0.9:5060'' sample_invite)) sample_proxy of
      Inr (None, p') \<Rightarrow> True | _ \<Rightarrow> False" by code_simp
  then have 3: "requestHandler sample_env (Inr None) (set_ctx Background (arrived ''10.0.0.9:5060'' sample_invite)) sample_proxy
      = Inr (None, snd sample_packet_end)"
    by (auto simp: sample_packet_end_def split: sum.splits prod.splits option.splits)
  show ?thesis
    using request_handled_once [OF sample_invite_wf(1,3,2) 1 2(1-3) 3, of sample_env "Inr None" Background "''10.0.0.9:5060''"] 2(4)
    by (elim conjE exE) (intro exI conjI, assumption+, simp)
qed

section \<open>The users of a started program\<close>

lemma import_records_step:
  assumes "import_records md5hex ins (line # ls) acc = Some rows"
  obtains u pw r where "import_records md5hex ins ls (acc @ [new_user md5hex u pw r]) = Some rows"
proof (cases "\<exists>u pw r. line = [u, pw, r]")
  case True
  then obtain u pw r where "line = [u, pw, r]" by blast
  then show ?thesis using assms that [of u pw r] by (simp split: if_splits)
next
  case False
  then show ?thesis using assms by (auto split: list.splits)
qed

lemma import_records_expired:
  assumes "import_records md5hex ins ls acc = Some rows" and "\<forall>row \<in> set acc. au_nonceExpiredAt row = 0"
  shows "\<forall>row \<in> set rows. au_nonceExpiredAt row = 0"
  using assms
proof (induction ls arbitrary: acc)
  case (Cons line ls)
  obtain u pw r where "import_records md5hex ins ls (acc @ [new_user md5hex u pw r]) = Some rows"
    using Cons.prems(1) by (rule import_records_step)
  then show ?case using Cons.IH Cons.prems(2) by (simp add: new_user_def)
qed simp

lemma started_users_expired:
  assumes "proxy_main md5hex authdb ud LookupEnv read_csv = Started st"
  shows "\<forall>row \<in> set (st_users st). au_nonceExpiredAt row = 0"
proof -
  obtain db path subs users where "importSubscriber md5hex (ud db) path subs [] = (True, users)" "st_users st = users"
    using assms by (auto simp: proxy_main_def Let_def split: option.splits prod.splits if_splits)
  then show ?thesis
    using import_records_expired [of md5hex _ subs "[]" users]
    by (auto simp: importSubscriber_def split: option.splits if_splits)
qed

text \<open>
  The query of \<open>queryUser\<close> answers with a row of the table that has the user and the realm.
\<close>

definition selects_from :: "auth_record list \<Rightarrow> (string \<Rightarrow> string \<Rightarrow> (string \<times> string \<times> int) option) \<Rightarrow> bool" where
  "selects_from rows select \<longleftrightarrow> (\<forall>u r n a e. select u r = Some (n, a, e) \<longrightarrow>
     (\<exists>row \<in> set rows. au_username row = u \<and> au_realm row = r \<and> au_nonce row = n \<and> au_a1md5 row = a \<and>
        au_nonceExpiredAt row = e))"

definition first_row :: "auth_record list \<Rightarrow> string \<Rightarrow> string \<Rightarrow> (string \<times> string \<times> int) option" where
  "first_row rows u r =
     map_option (\<lambda>row. (au_nonce row, au_a1md5 row, au_nonceExpiredAt row))
       (List.find (\<lambda>row. au_username row = u \<and> au_realm row = r) rows)"

lemma first_row_selects: "selects_from rows (first_row rows)"
  by (force simp: selects_from_def first_row_def find_Some_iff)

text \<open>
  C19: The passwords do not matter: in a program that was started, whatever its users are, every
  request whose digest was made with the empty secret is accepted, for a user of the table with
  any password and for one that does not exist, and no other digest is. The records are
  loaded as expired, and the secret of an expired record is empty.
\<close>

theorem password_not_needed:
  assumes "proxy_main md5hex authdb ud LookupEnv read_csv = Started st" and "selects_from (st_users st) select"
    and "0 < now" and "list_all digest_wf (five_params u r n d x)" and "m_Method msg \<noteq> []"
    and "hdr_Get (m_Header msg) h = digest_header (five_params u r n d x)"
  shows "authMessage md5hex h msg (queryA1md5 select now) = Inr
    (if x = md5hex ('':'' @ n @ '':'' @ md5hex (m_Method msg @ '':'' @ d)) then (True, 0)
     else (False, if h = ''Proxy-Authorization'' then 407 else 401))"
proof -
  have "queryA1md5 select now u r = []"
    using started_users_expired [OF assms(1)] assms(2,3)
    by (fastforce simp: queryA1md5_def queryUser_def Expired_def selects_from_def split: option.split)
  then show ?thesis using digest_accepted [OF assms(4-6)] by simp
qed

definition sample_main :: main_end where
  "sample_main = proxy_main (\<lambda>s. ''<'' @ s @ ''>'')
     \<lparr>sl_stat = True, sl_remove = True, sl_open = Some (), sl_create = (\<lambda>s d. Some d)\<rparr>
     (\<lambda>d. \<lparr>ud_begin = True, ud_insert = (\<lambda>row. True), ud_commit = True\<rparr>)
     (\<lambda>name. None)
     (\<lambda>f. if f = ''routes.csv'' then Some [[''81'', ''1'', ''sip:gw'']] else Some [[''al'', ''secret'', ''b.com'']])"

definition sample_started :: started where
  "sample_started = (case sample_main of Started st \<Rightarrow> st)"

lemma started_end:
  "(case e of Started st \<Rightarrow> True | _ \<Rightarrow> False) \<Longrightarrow> e = Started (case e of Started st \<Rightarrow> st)"
  by (cases e) simp_all

theorem password_not_needed_witness:
  "authMessage (\<lambda>s. ''<'' @ s @ ''>'') ''Proxy-Authorization''
     (sample_invite\<lparr>m_Header := [(''Proxy-Authorization'',
       [digest_header (five_params ''al'' ''b.com'' ''n1'' ''sip:b.com'' ''<:n1:<INVITE:sip:b.com>>'')])]\<rparr>)
     (queryA1md5 (first_row (st_users sample_started)) 50) = Inr (True, 0) \<and> map au_username (st_users sample_started) = [''al'']"
proof
  let ?m = "sample_invite\<lparr>m_Header := [(''Proxy-Authorization'',
       [digest_header (five_params ''al'' ''b.com'' ''n1'' ''sip:b.com'' ''<:n1:<INVITE:sip:b.com>>'')])]\<rparr>"
  have "case sample_main of Started st \<Rightarrow> True | _ \<Rightarrow> False" by code_simp
  then have "sample_main = Started sample_started" unfolding sample_started_def by (rule started_end)
  note main = this [unfolded sample_main_def]
  have w: "list_all digest_wf (five_params ''al'' ''b.com'' ''n1'' ''sip:b.com'' ''<:n1:<INVITE:sip:b.com>>'')"
    "m_Method ?m = ''INVITE''"
    "hdr_Get (m_Header ?m) ''Proxy-Authorization''
      = digest_header (five_params ''al'' ''b.com'' ''n1'' ''sip:b.com'' ''<:n1:<INVITE:sip:b.com>>'')" by code_simp+
  show "authMessage (\<lambda>s. ''<'' @ s @ ''>'') ''Proxy-Authorization'' ?m
     (queryA1md5 (first_row (st_users sample_started)) 50) = Inr (True, 0)"
    using password_not_needed [OF main first_row_selects _ w(1) _ w(3), of 50] w(2) by simp
  show "map au_username (st_users sample_started) = [''al'']" by code_simp
qed

end
