(* ===== verification/Clone.thy ===== *)
theory Clone
  imports Sip_Prelude
begin

text \<open>
  The deep copies of \<open>src/sip/clone.go\<close>. What matters about a copy is what it shares with its
  original, so that the objects live in an explicit heap: a list, whose positions are the
  addresses, and to which an allocation appends. A pointer, a map and a slice are addresses, or
  None where the code tests for nil; the slices inside of a map are arrays of their own. The
  copy of a header is that of package \<open>net/http\<close>.
\<close>

section \<open>The heap\<close>

record url_obj =
  ou_Scheme :: string
  ou_Opaque :: string
  ou_User :: "nat option"
  ou_Host :: string
  ou_Path :: string
  ou_RawPath :: string
  ou_ForceQuery :: bool
  ou_RawQuery :: string
  ou_Fragment :: string
  ou_RawFragment :: string

record userinfo_obj =
  oi_username :: string
  oi_password :: string
  oi_passwordSet :: bool

record file_header =
  fh_Filename :: string
  fh_Header :: "nat option"
  fh_Size :: int
  fh_content :: nat
  fh_tmpfile :: string

record form_obj =
  fo_Value :: "nat option"
  fo_File :: "nat option"

datatype obj =
    OStrings "string list"
  | OHeader "(string \<times> nat) list"
  | OUser userinfo_obj
  | OUrl url_obj
  | OFileHeader file_header
  | OFiles "nat option list"
  | OFileMap "(string \<times> nat) list"
  | OForm form_obj

type_synonym heap = "obj list"

definition alloc :: "obj \<Rightarrow> heap \<Rightarrow> nat \<times> heap" where
  "alloc x h = (length h, h @ [x])"

definition object_at :: "heap \<Rightarrow> nat \<Rightarrow> obj option" where
  "object_at h a = (if a < length h then Some (h ! a) else None)"

text \<open>Go is typed: an address of the wrong kind does not occur, and reads as the zero value.\<close>

definition strings_at :: "heap \<Rightarrow> nat \<Rightarrow> string list" where
  "strings_at h a = (case object_at h a of Some (OStrings xs) \<Rightarrow> xs | _ \<Rightarrow> [])"

definition header_at :: "heap \<Rightarrow> nat \<Rightarrow> (string \<times> nat) list" where
  "header_at h a = (case object_at h a of Some (OHeader m) \<Rightarrow> m | _ \<Rightarrow> [])"

definition user_at :: "heap \<Rightarrow> nat \<Rightarrow> userinfo_obj" where
  "user_at h a = (case object_at h a of Some (OUser u) \<Rightarrow> u
     | _ \<Rightarrow> \<lparr>oi_username = [], oi_password = [], oi_passwordSet = False\<rparr>)"

definition url_at :: "heap \<Rightarrow> nat \<Rightarrow> url_obj" where
  "url_at h a = (case object_at h a of Some (OUrl u) \<Rightarrow> u
     | _ \<Rightarrow> \<lparr>ou_Scheme = [], ou_Opaque = [], ou_User = None, ou_Host = [], ou_Path = [], ou_RawPath = [],
         ou_ForceQuery = False, ou_RawQuery = [], ou_Fragment = [], ou_RawFragment = []\<rparr>)"

definition file_header_at :: "heap \<Rightarrow> nat \<Rightarrow> file_header" where
  "file_header_at h a = (case object_at h a of Some (OFileHeader f) \<Rightarrow> f
     | _ \<Rightarrow> \<lparr>fh_Filename = [], fh_Header = None, fh_Size = 0, fh_content = 0, fh_tmpfile = []\<rparr>)"

definition files_at :: "heap \<Rightarrow> nat \<Rightarrow> nat option list" where
  "files_at h a = (case object_at h a of Some (OFiles fs) \<Rightarrow> fs | _ \<Rightarrow> [])"

definition file_map_at :: "heap \<Rightarrow> nat \<Rightarrow> (string \<times> nat) list" where
  "file_map_at h a = (case object_at h a of Some (OFileMap m) \<Rightarrow> m | _ \<Rightarrow> [])"

definition form_at :: "heap \<Rightarrow> nat \<Rightarrow> form_obj" where
  "form_at h a = (case object_at h a of Some (OForm f) \<Rightarrow> f | _ \<Rightarrow> \<lparr>fo_Value = None, fo_File = None\<rparr>)"

section \<open>The copies\<close>

fun copy_each :: "('a \<Rightarrow> heap \<Rightarrow> 'b \<times> heap) \<Rightarrow> 'a list \<Rightarrow> heap \<Rightarrow> 'b list \<times> heap" where
  "copy_each f [] h = ([], h)"
| "copy_each f (x # xs) h = (let (y, h1) = f x h; (ys, h2) = copy_each f xs h1 in (y # ys, h2))"

definition copy_entry :: "(nat \<Rightarrow> heap \<Rightarrow> nat \<times> heap) \<Rightarrow> string \<times> nat \<Rightarrow> heap \<Rightarrow> (string \<times> nat) \<times> heap" where
  "copy_entry f e h = (let (b, h1) = f (snd e) h in ((fst e, b), h1))"

definition copy_strings :: "nat \<Rightarrow> heap \<Rightarrow> nat \<times> heap" where
  "copy_strings a h = alloc (OStrings (strings_at h a)) h"

definition Header_Clone :: "nat option \<Rightarrow> heap \<Rightarrow> nat option \<times> heap" where
  "Header_Clone p h =
     (case p of None \<Rightarrow> (None, h)
      | Some a \<Rightarrow>
          (let (m, h1) = copy_each (copy_entry copy_strings) (header_at h a) h;
               (b, h2) = alloc (OHeader m) h1
           in (Some b, h2)))"

definition cloneURLValues :: "nat option \<Rightarrow> heap \<Rightarrow> nat option \<times> heap" where
  "cloneURLValues v h = (if v = None then (None, h) else Header_Clone v h)"

definition cloneURL :: "nat option \<Rightarrow> heap \<Rightarrow> nat option \<times> heap" where
  "cloneURL p h =
     (case p of None \<Rightarrow> (None, h)
      | Some a \<Rightarrow>
          (let u = url_at h a;
               (user, h1) = (case ou_User u of None \<Rightarrow> (None, h)
                  | Some i \<Rightarrow> (let (j, g) = alloc (OUser (user_at h i)) h in (Some j, g)));
               (b, h2) = alloc (OUrl (u\<lparr>ou_User := user\<rparr>)) h1
           in (Some b, h2)))"

definition cloneMultipartFileHeader :: "nat option \<Rightarrow> heap \<Rightarrow> nat option \<times> heap" where
  "cloneMultipartFileHeader p h =
     (case p of None \<Rightarrow> (None, h)
      | Some a \<Rightarrow>
          (let fh = file_header_at h a;
               (hd, h1) = Header_Clone (fh_Header fh) h;
               (b, h2) = alloc (OFileHeader (fh\<lparr>fh_Header := hd\<rparr>)) h1
           in (Some b, h2)))"

definition copy_files :: "nat \<Rightarrow> heap \<Rightarrow> nat \<times> heap" where
  "copy_files a h =
     (let (vv2, h1) = copy_each cloneMultipartFileHeader (files_at h a) h in alloc (OFiles vv2) h1)"

definition clone_file_map :: "nat option \<Rightarrow> heap \<Rightarrow> nat option \<times> heap" where
  "clone_file_map p h =
     (case p of None \<Rightarrow> (None, h)
      | Some a \<Rightarrow>
          (let (m, h1) = copy_each (copy_entry copy_files) (file_map_at h a) h;
               (b, h2) = alloc (OFileMap m) h1
           in (Some b, h2)))"

definition cloneMultipartForm :: "nat option \<Rightarrow> heap \<Rightarrow> nat option \<times> heap" where
  "cloneMultipartForm p h =
     (case p of None \<Rightarrow> (None, h)
      | Some a \<Rightarrow>
          (let f = form_at h a;
               (v, h1) = Header_Clone (fo_Value f) h;
               (m, h2) = clone_file_map (fo_File f) h1;
               (b, h3) = alloc (OForm \<lparr>fo_Value = v, fo_File = m\<rparr>) h2
           in (Some b, h3)))"

definition cloneOrMakeHeader :: "nat option \<Rightarrow> heap \<Rightarrow> nat option \<times> heap" where
  "cloneOrMakeHeader hdr h =
     (case Header_Clone hdr h of
        (None, h1) \<Rightarrow> (let (b, h2) = alloc (OHeader []) h1 in (Some b, h2))
      | r \<Rightarrow> r)"

section \<open>What an object is made of\<close>

text \<open>
  Of each kind of object, the addresses it owns and the value that is read through them. The
  content of a file is not owned: its address is a part of the value.
\<close>

definition strings_addrs :: "heap \<Rightarrow> nat \<Rightarrow> nat set" where
  "strings_addrs h a = {a}"

definition list_addrs :: "(heap \<Rightarrow> 'a \<Rightarrow> nat set) \<Rightarrow> heap \<Rightarrow> 'a list \<Rightarrow> nat set" where
  "list_addrs A h xs = (\<Union>x \<in> set xs. A h x)"

definition list_value :: "(heap \<Rightarrow> 'a \<Rightarrow> 'v) \<Rightarrow> heap \<Rightarrow> 'a list \<Rightarrow> 'v list" where
  "list_value V h xs = map (V h) xs"

definition entry_addrs :: "(heap \<Rightarrow> nat \<Rightarrow> nat set) \<Rightarrow> heap \<Rightarrow> string \<times> nat \<Rightarrow> nat set" where
  "entry_addrs A h e = A h (snd e)"

definition entry_value :: "(heap \<Rightarrow> nat \<Rightarrow> 'v) \<Rightarrow> heap \<Rightarrow> string \<times> nat \<Rightarrow> string \<times> 'v" where
  "entry_value V h e = (fst e, V h (snd e))"

definition ptr_addrs :: "(heap \<Rightarrow> nat \<Rightarrow> nat set) \<Rightarrow> heap \<Rightarrow> nat option \<Rightarrow> nat set" where
  "ptr_addrs A h p = (case p of None \<Rightarrow> {} | Some a \<Rightarrow> A h a)"

definition ptr_value :: "(heap \<Rightarrow> nat \<Rightarrow> 'v) \<Rightarrow> heap \<Rightarrow> nat option \<Rightarrow> 'v option" where
  "ptr_value V h p = map_option (V h) p"

definition box_addrs :: "(heap \<Rightarrow> nat \<Rightarrow> 'c) \<Rightarrow> (heap \<Rightarrow> 'c \<Rightarrow> nat set) \<Rightarrow> heap \<Rightarrow> nat \<Rightarrow> nat set" where
  "box_addrs R A h a = insert a (A h (R h a))"

definition box_value :: "(heap \<Rightarrow> nat \<Rightarrow> 'c) \<Rightarrow> (heap \<Rightarrow> 'c \<Rightarrow> 'v) \<Rightarrow> heap \<Rightarrow> nat \<Rightarrow> 'v" where
  "box_value R V h a = V h (R h a)"

end
