(* ===== verification/Clone_Props.thy ===== *)
theory Clone_Props
  imports Clone
begin

text \<open>
  A copy is a new object: it has the value of its original, owns only addresses that were free,
  and the heap that was there is left as it is, so that no later write to the copy is seen
  through the original. A kind of object is what its addresses and its value are; the locale
  has the laws of a kind, and the copies of lists, maps and pointers are proved for any of them.
\<close>

definition owned_in :: "heap \<Rightarrow> nat set \<Rightarrow> bool" where
  "owned_in h s \<longleftrightarrow> (\<forall>a \<in> s. a < length h)"

definition copies :: "(heap \<Rightarrow> 'a \<Rightarrow> nat set) \<Rightarrow> (heap \<Rightarrow> 'a \<Rightarrow> 'v) \<Rightarrow> ('a \<Rightarrow> heap \<Rightarrow> 'a \<times> heap) \<Rightarrow> bool" where
  "copies A V f \<longleftrightarrow> (\<forall>h x. owned_in h (A h x) \<longrightarrow>
     (\<exists>y t. f x h = (y, h @ t) \<and> owned_in (h @ t) (A (h @ t) y) \<and> (\<forall>a \<in> A (h @ t) y. length h \<le> a)
        \<and> V (h @ t) y = V h x))"

lemma copiesE:
  assumes "copies A V f" and "owned_in h (A h x)"
  obtains y t where "f x h = (y, h @ t)" "owned_in (h @ t) (A (h @ t) y)" "\<And>a. a \<in> A (h @ t) y \<Longrightarrow> length h \<le> a"
    "V (h @ t) y = V h x"
  using assms unfolding copies_def by blast

lemma owned_in_simps [simp]:
  "owned_in h {}" "owned_in h (insert a s) \<longleftrightarrow> a < length h \<and> owned_in h s" "owned_in h (s \<union> r) \<longleftrightarrow> owned_in h s \<and> owned_in h r"
  by (auto simp: owned_in_def)

lemma owned_in_append: "owned_in h s \<Longrightarrow> owned_in (h @ t) s"
  by (auto simp: owned_in_def)

lemma object_at_simps [simp]:
  "a < length h \<Longrightarrow> object_at (h @ t) a = object_at h a" "object_at (h @ [x]) (length h) = Some x"
  by (simp_all add: object_at_def nth_append)

lemma object_at_update: "a \<noteq> b \<Longrightarrow> object_at (h[b := x]) a = object_at h a"
  by (simp add: object_at_def)

section \<open>Kinds of objects\<close>

text \<open>What is read depends only on the addresses that are owned.\<close>

definition same_on :: "nat set \<Rightarrow> heap \<Rightarrow> heap \<Rightarrow> bool" where
  "same_on s h g \<longleftrightarrow> (\<forall>a \<in> s. object_at g a = object_at h a)"

locale object_kind =
  fixes A :: "heap \<Rightarrow> 'a \<Rightarrow> nat set" and V :: "heap \<Rightarrow> 'a \<Rightarrow> 'v"
  assumes reads: "same_on (A h x) h g \<Longrightarrow> A g x = A h x \<and> V g x = V h x"
begin

lemma grows: "owned_in h (A h x) \<Longrightarrow> A (h @ t) x = A h x \<and> V (h @ t) x = V h x"
  by (rule reads) (simp add: same_on_def owned_in_def)

lemma written_elsewhere: "b \<notin> A h x \<Longrightarrow> V (h[b := ob]) x = V h x"
proof -
  assume "b \<notin> A h x"
  then have "same_on (A h x) h (h[b := ob])" by (auto simp: same_on_def intro: object_at_update)
  then show ?thesis using reads by blast
qed

lemma list_reads: "same_on (list_addrs A h xs) h g \<Longrightarrow> list_addrs A g xs = list_addrs A h xs \<and> list_value V g xs = list_value V h xs"
proof -
  assume "same_on (list_addrs A h xs) h g"
  then have "\<forall>x \<in> set xs. A g x = A h x \<and> V g x = V h x" by (auto simp: same_on_def list_addrs_def intro!: reads)
  then show ?thesis by (auto simp: list_addrs_def list_value_def)
qed

text \<open>Each copy of a list stays what it is while the next ones are made.\<close>

lemma copies_list:
  assumes f: "copies A V f"
  shows "copies (list_addrs A) (list_value V) (copy_each f)"
  unfolding copies_def
proof (intro allI impI)
  fix h :: heap and xs :: "'a list"
  assume "owned_in h (list_addrs A h xs)"
  then show "\<exists>ys t. copy_each f xs h = (ys, h @ t) \<and> owned_in (h @ t) (list_addrs A (h @ t) ys) \<and>
      (\<forall>a \<in> list_addrs A (h @ t) ys. length h \<le> a) \<and> list_value V (h @ t) ys = list_value V h xs"
  proof (induction xs arbitrary: h)
    case Nil
    then show ?case by (simp add: list_addrs_def list_value_def)
  next
    case (Cons x xs)
    have own: "owned_in h (A h x)" "\<forall>z \<in> set xs. owned_in h (A h z)"
      using Cons.prems by (auto simp: list_addrs_def owned_in_def)
    obtain y t where y: "f x h = (y, h @ t)" "owned_in (h @ t) (A (h @ t) y)" "\<And>a. a \<in> A (h @ t) y \<Longrightarrow> length h \<le> a"
      "V (h @ t) y = V h x" using copiesE [OF f own(1)] by blast
    have rest: "list_addrs A (h @ t) xs = list_addrs A h xs" "list_value V (h @ t) xs = list_value V h xs"
      using grows own(2) by (auto simp: list_addrs_def list_value_def)
    have "owned_in (h @ t) (list_addrs A (h @ t) xs)"
      unfolding rest using own(2) by (fastforce simp: list_addrs_def owned_in_def)
    then obtain ys r where ys: "copy_each f xs (h @ t) = (ys, (h @ t) @ r)"
      "owned_in ((h @ t) @ r) (list_addrs A ((h @ t) @ r) ys)" "\<forall>a \<in> list_addrs A ((h @ t) @ r) ys. length (h @ t) \<le> a"
      "list_value V ((h @ t) @ r) ys = list_value V (h @ t) xs" using Cons.IH by blast
    have "A ((h @ t) @ r) y = A (h @ t) y" "V ((h @ t) @ r) y = V h x" using grows [OF y(2), of r] y(4) by simp_all
    moreover have "\<forall>a \<in> list_addrs A ((h @ t) @ r) ys. length h \<le> a" using ys(3) by (fastforce dest: bspec)
    ultimately show ?case
      using y ys(1,2,4) owned_in_append [OF y(2), of r] rest
      by (intro exI [of _ "y # ys"] exI [of _ "t @ r"]) (auto simp: list_addrs_def list_value_def owned_in_def)
  qed
qed

end

lemma entry_kind:
  assumes "object_kind A V"
  shows "object_kind (entry_addrs A) (entry_value V)"
proof
  fix h g :: heap and e :: "string \<times> nat"
  assume "same_on (entry_addrs A h e) h g"
  then show "entry_addrs A g e = entry_addrs A h e \<and> entry_value V g e = entry_value V h e"
    using object_kind.reads [OF assms, of h "snd e" g] by (simp add: entry_addrs_def entry_value_def)
qed

lemma ptr_kind:
  assumes "object_kind A V"
  shows "object_kind (ptr_addrs A) (ptr_value V)"
proof
  fix h g :: heap and p
  assume "same_on (ptr_addrs A h p) h g"
  then show "ptr_addrs A g p = ptr_addrs A h p \<and> ptr_value V g p = ptr_value V h p"
    using object_kind.reads [OF assms, of h "the p" g] by (cases p) (simp_all add: ptr_addrs_def ptr_value_def)
qed

lemma list_kind:
  assumes "object_kind A V"
  shows "object_kind (list_addrs A) (list_value V)"
  by unfold_locales (rule object_kind.list_reads [OF assms])

text \<open>An address whose object is read by \<open>R\<close>, with what that owns.\<close>

definition reads_one :: "(heap \<Rightarrow> nat \<Rightarrow> 'c) \<Rightarrow> bool" where
  "reads_one R \<longleftrightarrow> (\<forall>h g a. object_at g a = object_at h a \<longrightarrow> R g a = R h a)"

lemma box_kind:
  assumes "object_kind A V" and "reads_one R"
  shows "object_kind (box_addrs R A) (box_value R V)"
proof
  fix h g :: heap and a
  assume s: "same_on (box_addrs R A h a) h g"
  then have "object_at g a = object_at h a" by (simp add: same_on_def box_addrs_def)
  then have "R g a = R h a" using assms(2) unfolding reads_one_def by blast
  moreover have "A g (R h a) = A h (R h a) \<and> V g (R h a) = V h (R h a)"
    using s by (intro object_kind.reads [OF assms(1)]) (simp add: same_on_def box_addrs_def)
  ultimately show "box_addrs R A g a = box_addrs R A h a \<and> box_value R V g a = box_value R V h a"
    by (simp add: box_addrs_def box_value_def)
qed

lemma reads_one_all:
  "reads_one strings_at" "reads_one header_at" "reads_one user_at" "reads_one url_at" "reads_one file_header_at"
  "reads_one files_at" "reads_one file_map_at" "reads_one form_at"
  by (simp_all add: reads_one_def strings_at_def header_at_def user_at_def url_at_def file_header_at_def files_at_def
      file_map_at_def form_at_def)

section \<open>Copies of entries, pointers and boxes\<close>

lemma copies_entry:
  assumes f: "copies A V f"
  shows "copies (entry_addrs A) (entry_value V) (copy_entry f)"
  unfolding copies_def
proof (intro allI impI)
  fix h :: heap and e :: "string \<times> nat"
  assume "owned_in h (entry_addrs A h e)"
  then obtain y t where "f (snd e) h = (y, h @ t)" "owned_in (h @ t) (A (h @ t) y)" "\<And>a. a \<in> A (h @ t) y \<Longrightarrow> length h \<le> a"
    "V (h @ t) y = V h (snd e)" using copiesE [OF f, of h "snd e"] unfolding entry_addrs_def by blast
  then show "\<exists>y t. copy_entry f e h = (y, h @ t) \<and> owned_in (h @ t) (entry_addrs A (h @ t) y) \<and>
      (\<forall>a \<in> entry_addrs A (h @ t) y. length h \<le> a) \<and> entry_value V (h @ t) y = entry_value V h e"
    by (intro exI [of _ "(fst e, y)"] exI [of _ t]) (simp add: copy_entry_def entry_addrs_def entry_value_def)
qed

definition copy_box :: "(heap \<Rightarrow> nat \<Rightarrow> 'c) \<Rightarrow> ('c \<Rightarrow> obj) \<Rightarrow> ('c \<Rightarrow> heap \<Rightarrow> 'c \<times> heap) \<Rightarrow> nat \<Rightarrow> heap \<Rightarrow> nat \<times> heap" where
  "copy_box R mk f a h = (let (c, h1) = f (R h a) h in alloc (mk c) h1)"

lemma copies_box:
  assumes k: "object_kind A V" and f: "copies A V f" and R: "\<And>h c. R (h @ [mk c]) (length h) = c"
  shows "copies (box_addrs R A) (box_value R V) (copy_box R mk f)"
  unfolding copies_def
proof (intro allI impI)
  fix h :: heap and a
  assume "owned_in h (box_addrs R A h a)"
  then obtain c t where c: "f (R h a) h = (c, h @ t)" "owned_in (h @ t) (A (h @ t) c)" "\<And>a. a \<in> A (h @ t) c \<Longrightarrow> length h \<le> a"
    "V (h @ t) c = V h (R h a)" using copiesE [OF f, of h "R h a"] unfolding box_addrs_def by auto
  have "A ((h @ t) @ [mk c]) c = A (h @ t) c" "V ((h @ t) @ [mk c]) c = V h (R h a)"
    using object_kind.grows [OF k c(2)] c(4) by simp_all
  moreover have "R ((h @ t) @ [mk c]) (length (h @ t)) = c" by (rule R)
  ultimately show "\<exists>y t. copy_box R mk f a h = (y, h @ t) \<and> owned_in (h @ t) (box_addrs R A (h @ t) y) \<and>
      (\<forall>a \<in> box_addrs R A (h @ t) y. length h \<le> a) \<and> box_value R V (h @ t) y = box_value R V h a"
    using c owned_in_append [OF c(2), of "[mk c]"]
    by (intro exI [of _ "length (h @ t)"] exI [of _ "t @ [mk c]"])
      (auto simp: copy_box_def alloc_def box_addrs_def box_value_def)
qed

definition copy_ptr :: "(nat \<Rightarrow> heap \<Rightarrow> nat \<times> heap) \<Rightarrow> nat option \<Rightarrow> heap \<Rightarrow> nat option \<times> heap" where
  "copy_ptr f p h = (case p of None \<Rightarrow> (None, h) | Some a \<Rightarrow> (let (b, h1) = f a h in (Some b, h1)))"

lemma copies_ptr:
  assumes f: "copies A V f"
  shows "copies (ptr_addrs A) (ptr_value V) (copy_ptr f)"
  unfolding copies_def
proof (intro allI impI)
  fix h :: heap and p
  assume own: "owned_in h (ptr_addrs A h p)"
  show "\<exists>y t. copy_ptr f p h = (y, h @ t) \<and> owned_in (h @ t) (ptr_addrs A (h @ t) y) \<and>
      (\<forall>a \<in> ptr_addrs A (h @ t) y. length h \<le> a) \<and> ptr_value V (h @ t) y = ptr_value V h p"
  proof (cases p)
    case None
    then show ?thesis by (simp add: copy_ptr_def ptr_addrs_def ptr_value_def)
  next
    case (Some x)
    then obtain y t where "f x h = (y, h @ t)" "owned_in (h @ t) (A (h @ t) y)" "\<And>a. a \<in> A (h @ t) y \<Longrightarrow> length h \<le> a"
      "V (h @ t) y = V h x" using copiesE [OF f, of h x] own by (auto simp: ptr_addrs_def)
    then show ?thesis
      using Some by (intro exI [of _ "Some y"] exI [of _ t]) (simp add: copy_ptr_def ptr_addrs_def ptr_value_def)
  qed
qed

text \<open>A part of a value that is copied, the rest being the same, and a pair.\<close>

definition part_addrs :: "('c \<Rightarrow> 'a) \<Rightarrow> (heap \<Rightarrow> 'a \<Rightarrow> nat set) \<Rightarrow> heap \<Rightarrow> 'c \<Rightarrow> nat set" where
  "part_addrs get A h c = A h (get c)"

definition part_value :: "('c \<Rightarrow> 'a) \<Rightarrow> ('c \<Rightarrow> 'w) \<Rightarrow> (heap \<Rightarrow> 'a \<Rightarrow> 'v) \<Rightarrow> heap \<Rightarrow> 'c \<Rightarrow> 'w \<times> 'v" where
  "part_value get rest V h c = (rest c, V h (get c))"

definition copy_part :: "('c \<Rightarrow> 'a) \<Rightarrow> ('a \<Rightarrow> 'c \<Rightarrow> 'c) \<Rightarrow> ('a \<Rightarrow> heap \<Rightarrow> 'a \<times> heap) \<Rightarrow> 'c \<Rightarrow> heap \<Rightarrow> 'c \<times> heap" where
  "copy_part get put f c h = (let (y, h1) = f (get c) h in (put y c, h1))"

lemma part_kind:
  assumes "object_kind A V"
  shows "object_kind (part_addrs get A) (part_value get rest V)"
proof
  fix h g :: heap and c
  assume "same_on (part_addrs get A h c) h g"
  then show "part_addrs get A g c = part_addrs get A h c \<and> part_value get rest V g c = part_value get rest V h c"
    using object_kind.reads [OF assms, of h "get c" g] by (simp add: part_addrs_def part_value_def)
qed

lemma copies_part:
  assumes f: "copies A V f" and g: "\<And>y c. get (put y c) = y" "\<And>y c. rest (put y c) = rest c"
  shows "copies (part_addrs get A) (part_value get rest V) (copy_part get put f)"
  unfolding copies_def
proof (intro allI impI)
  fix h :: heap and c
  assume "owned_in h (part_addrs get A h c)"
  then obtain y t where "f (get c) h = (y, h @ t)" "owned_in (h @ t) (A (h @ t) y)" "\<And>a. a \<in> A (h @ t) y \<Longrightarrow> length h \<le> a"
    "V (h @ t) y = V h (get c)" using copiesE [OF f, of h "get c"] unfolding part_addrs_def by blast
  then show "\<exists>y t. copy_part get put f c h = (y, h @ t) \<and> owned_in (h @ t) (part_addrs get A (h @ t) y) \<and>
      (\<forall>a \<in> part_addrs get A (h @ t) y. length h \<le> a) \<and> part_value get rest V (h @ t) y = part_value get rest V h c"
    by (intro exI [of _ "put y c"] exI [of _ t]) (simp add: copy_part_def part_addrs_def part_value_def g)
qed

definition pair_addrs :: "(heap \<Rightarrow> 'a \<Rightarrow> nat set) \<Rightarrow> (heap \<Rightarrow> 'b \<Rightarrow> nat set) \<Rightarrow> heap \<Rightarrow> 'a \<times> 'b \<Rightarrow> nat set" where
  "pair_addrs A B h x = A h (fst x) \<union> B h (snd x)"

definition pair_value :: "(heap \<Rightarrow> 'a \<Rightarrow> 'v) \<Rightarrow> (heap \<Rightarrow> 'b \<Rightarrow> 'w) \<Rightarrow> heap \<Rightarrow> 'a \<times> 'b \<Rightarrow> 'v \<times> 'w" where
  "pair_value V W h x = (V h (fst x), W h (snd x))"

definition copy_pair :: "('a \<Rightarrow> heap \<Rightarrow> 'a \<times> heap) \<Rightarrow> ('b \<Rightarrow> heap \<Rightarrow> 'b \<times> heap) \<Rightarrow> 'a \<times> 'b \<Rightarrow> heap \<Rightarrow> ('a \<times> 'b) \<times> heap" where
  "copy_pair f g x h = (let (y, h1) = f (fst x) h; (z, h2) = g (snd x) h1 in ((y, z), h2))"

lemma pair_kind:
  assumes "object_kind A V" and "object_kind B W"
  shows "object_kind (pair_addrs A B) (pair_value V W)"
proof
  fix h g :: heap and x
  assume "same_on (pair_addrs A B h x) h g"
  then show "pair_addrs A B g x = pair_addrs A B h x \<and> pair_value V W g x = pair_value V W h x"
    using object_kind.reads [OF assms(1), of h "fst x" g] object_kind.reads [OF assms(2), of h "snd x" g]
    by (simp add: pair_addrs_def pair_value_def same_on_def)
qed

lemma copies_pair:
  assumes A: "object_kind A V" and B: "object_kind B W" and f: "copies A V f" and g: "copies B W g"
  shows "copies (pair_addrs A B) (pair_value V W) (copy_pair f g)"
  unfolding copies_def
proof (intro allI impI)
  fix h :: heap and x
  assume "owned_in h (pair_addrs A B h x)"
  then have own: "owned_in h (A h (fst x))" "owned_in h (B h (snd x))" by (simp_all add: pair_addrs_def)
  obtain y t where y: "f (fst x) h = (y, h @ t)" "owned_in (h @ t) (A (h @ t) y)" "\<And>a. a \<in> A (h @ t) y \<Longrightarrow> length h \<le> a"
    "V (h @ t) y = V h (fst x)" using copiesE [OF f own(1)] by blast
  have rest: "B (h @ t) (snd x) = B h (snd x)" "W (h @ t) (snd x) = W h (snd x)" using object_kind.grows [OF B own(2)] by simp_all
  have "owned_in (h @ t) (B (h @ t) (snd x))" using owned_in_append [OF own(2)] unfolding rest .
  then obtain z r where z: "g (snd x) (h @ t) = (z, (h @ t) @ r)" "owned_in ((h @ t) @ r) (B ((h @ t) @ r) z)"
    "\<And>a. a \<in> B ((h @ t) @ r) z \<Longrightarrow> length (h @ t) \<le> a" "W ((h @ t) @ r) z = W (h @ t) (snd x)" using copiesE [OF g] by blast
  have y2: "A ((h @ t) @ r) y = A (h @ t) y" "V ((h @ t) @ r) y = V (h @ t) y" using object_kind.grows [OF A y(2)] by simp_all
  have "copy_pair f g x h = ((y, z), h @ (t @ r))" using y(1) z(1) by (simp add: copy_pair_def)
  moreover have "owned_in (h @ (t @ r)) (pair_addrs A B (h @ (t @ r)) (y, z))"
    using z(2) owned_in_append [OF y(2), of r] y2(1) by (simp add: pair_addrs_def)
  moreover have "\<forall>a \<in> pair_addrs A B (h @ (t @ r)) (y, z). length h \<le> a"
    using y(3) z(3) y2(1) by (fastforce simp: pair_addrs_def)
  moreover have "pair_value V W (h @ (t @ r)) (y, z) = pair_value V W h x"
    using y(4) z(4) y2(2) rest(2) by (simp add: pair_value_def)
  ultimately show "\<exists>y t. copy_pair f g x h = (y, h @ t) \<and> owned_in (h @ t) (pair_addrs A B (h @ t) y) \<and>
      (\<forall>a \<in> pair_addrs A B (h @ t) y. length h \<le> a) \<and> pair_value V W (h @ t) y = pair_value V W h x" by blast
qed

section \<open>The objects of the code\<close>

definition flat_addrs :: "heap \<Rightarrow> 'a \<Rightarrow> nat set" where
  "flat_addrs h x = {}"

definition flat_value :: "heap \<Rightarrow> 'a \<Rightarrow> 'a" where
  "flat_value h x = x"

definition copy_flat :: "'a \<Rightarrow> heap \<Rightarrow> 'a \<times> heap" where
  "copy_flat x h = (x, h)"

lemma flat_kind: "object_kind flat_addrs flat_value"
  by unfold_locales (simp add: flat_addrs_def flat_value_def)

lemma copies_flat: "copies flat_addrs flat_value copy_flat"
  by (simp add: copies_def flat_addrs_def flat_value_def copy_flat_def)

text \<open>Arrays of strings, headers, users, URLs, headers of files, lists and maps of them, forms.\<close>

abbreviation arr_addrs :: "heap \<Rightarrow> nat \<Rightarrow> nat set" where
  "arr_addrs \<equiv> box_addrs strings_at flat_addrs"

abbreviation arr_value :: "heap \<Rightarrow> nat \<Rightarrow> string list" where
  "arr_value \<equiv> box_value strings_at flat_value"

abbreviation header_addrs :: "heap \<Rightarrow> nat \<Rightarrow> nat set" where
  "header_addrs \<equiv> box_addrs header_at (list_addrs (entry_addrs arr_addrs))"

abbreviation header_value :: "heap \<Rightarrow> nat \<Rightarrow> (string \<times> string list) list" where
  "header_value \<equiv> box_value header_at (list_value (entry_value arr_value))"

abbreviation url_addrs :: "heap \<Rightarrow> nat \<Rightarrow> nat set" where
  "url_addrs \<equiv> box_addrs url_at (part_addrs ou_User (ptr_addrs (box_addrs user_at flat_addrs)))"

abbreviation url_value :: "heap \<Rightarrow> nat \<Rightarrow> url_obj \<times> userinfo_obj option" where
  "url_value \<equiv> box_value url_at (part_value ou_User (\<lambda>u. u\<lparr>ou_User := None\<rparr>) (ptr_value (box_value user_at flat_value)))"

abbreviation file_header_addrs :: "heap \<Rightarrow> nat \<Rightarrow> nat set" where
  "file_header_addrs \<equiv> box_addrs file_header_at (part_addrs fh_Header (ptr_addrs header_addrs))"

abbreviation file_header_value :: "heap \<Rightarrow> nat \<Rightarrow> file_header \<times> (string \<times> string list) list option" where
  "file_header_value \<equiv> box_value file_header_at (part_value fh_Header (\<lambda>f. f\<lparr>fh_Header := None\<rparr>) (ptr_value header_value))"

abbreviation file_map_addrs :: "heap \<Rightarrow> nat \<Rightarrow> nat set" where
  "file_map_addrs \<equiv> box_addrs file_map_at (list_addrs (entry_addrs (box_addrs files_at (list_addrs (ptr_addrs file_header_addrs)))))"

abbreviation file_map_value :: "heap \<Rightarrow> nat \<Rightarrow> (string \<times> (file_header \<times> (string \<times> string list) list option) option list) list" where
  "file_map_value \<equiv> box_value file_map_at (list_value (entry_value (box_value files_at (list_value (ptr_value file_header_value)))))"

definition form_parts :: "heap \<Rightarrow> nat \<Rightarrow> nat option \<times> nat option" where
  "form_parts h a = (fo_Value (form_at h a), fo_File (form_at h a))"

abbreviation form_addrs :: "heap \<Rightarrow> nat \<Rightarrow> nat set" where
  "form_addrs \<equiv> box_addrs form_parts (pair_addrs (ptr_addrs header_addrs) (ptr_addrs file_map_addrs))"

abbreviation form_value :: "heap \<Rightarrow> nat \<Rightarrow> (string \<times> string list) list option
    \<times> (string \<times> (file_header \<times> (string \<times> string list) list option) option list) list option" where
  "form_value \<equiv> box_value form_parts (pair_value (ptr_value header_value) (ptr_value file_map_value))"

lemma reads_one_form: "reads_one form_parts"
  using reads_one_all(8) unfolding reads_one_def form_parts_def by metis

lemmas kinds = box_kind ptr_kind list_kind entry_kind part_kind pair_kind flat_kind reads_one_all reads_one_form

interpretation hdr: object_kind header_addrs header_value by (intro kinds)
interpretation url: object_kind url_addrs url_value by (intro kinds)
interpretation form: object_kind form_addrs form_value by (intro kinds)

text \<open>The functions of the code are copies in this sense.\<close>

lemma new_object:
  "strings_at (h @ [OStrings xs]) (length h) = xs" "header_at (h @ [OHeader m]) (length h) = m"
  "user_at (h @ [OUser u]) (length h) = u" "url_at (h @ [OUrl v]) (length h) = v"
  "file_header_at (h @ [OFileHeader f]) (length h) = f" "files_at (h @ [OFiles fs]) (length h) = fs"
  "file_map_at (h @ [OFileMap fm]) (length h) = fm"
  "form_parts (h @ [case x of (p, q) \<Rightarrow> OForm \<lparr>fo_Value = p, fo_File = q\<rparr>]) (length h) = x"
  by (simp_all add: strings_at_def header_at_def user_at_def url_at_def file_header_at_def files_at_def file_map_at_def
      form_parts_def form_at_def split: prod.split)

lemma Header_Clone_copies: "copies (ptr_addrs header_addrs) (ptr_value header_value) Header_Clone"
proof -
  have s: "copy_strings = copy_box strings_at OStrings copy_flat"
    by (intro ext) (simp add: copy_strings_def copy_box_def copy_flat_def)
  have hd: "Header_Clone = copy_ptr (copy_box header_at OHeader (copy_each (copy_entry copy_strings)))"
    by (intro ext) (simp add: Header_Clone_def copy_ptr_def copy_box_def split: prod.split option.split)
  show ?thesis
    unfolding hd s by (intro copies_ptr copies_box object_kind.copies_list copies_entry copies_flat kinds new_object)
qed

lemma cloneURL_copies: "copies (ptr_addrs url_addrs) (ptr_value url_value) cloneURL"
proof -
  let ?user = "copy_ptr (copy_box user_at OUser copy_flat)"
  have c: "cloneURL = copy_ptr (copy_box url_at OUrl (copy_part ou_User (\<lambda>p u. u\<lparr>ou_User := p\<rparr>) ?user))"
    by (intro ext) (simp add: cloneURL_def copy_ptr_def copy_box_def copy_part_def copy_flat_def alloc_def Let_def split: option.split)
  show ?thesis
    unfolding c by (intro copies_ptr copies_box copies_part copies_flat kinds new_object) simp_all
qed

lemma cloneMultipartFileHeader_copies:
  "copies (ptr_addrs file_header_addrs) (ptr_value file_header_value) cloneMultipartFileHeader"
proof -
  have c: "cloneMultipartFileHeader
      = copy_ptr (copy_box file_header_at OFileHeader (copy_part fh_Header (\<lambda>p f. f\<lparr>fh_Header := p\<rparr>) Header_Clone))"
    by (intro ext) (simp add: cloneMultipartFileHeader_def copy_ptr_def copy_box_def copy_part_def split: prod.split option.split)
  show ?thesis
    unfolding c by (intro copies_ptr copies_box copies_part Header_Clone_copies kinds new_object) simp_all
qed

lemma clone_file_map_copies: "copies (ptr_addrs file_map_addrs) (ptr_value file_map_value) clone_file_map"
proof -
  have f: "copy_files = copy_box files_at OFiles (copy_each cloneMultipartFileHeader)"
    by (intro ext) (simp add: copy_files_def copy_box_def)
  have c: "clone_file_map = copy_ptr (copy_box file_map_at OFileMap (copy_each (copy_entry copy_files)))"
    by (intro ext) (simp add: clone_file_map_def copy_ptr_def copy_box_def split: prod.split option.split)
  show ?thesis
    unfolding c f
    by (intro copies_ptr copies_box object_kind.copies_list copies_entry cloneMultipartFileHeader_copies kinds new_object)
qed

lemma cloneMultipartForm_copies: "copies (ptr_addrs form_addrs) (ptr_value form_value) cloneMultipartForm"
proof -
  let ?mk = "\<lambda>x. case x of (p, q) \<Rightarrow> OForm \<lparr>fo_Value = p, fo_File = q\<rparr>"
  have c: "cloneMultipartForm = copy_ptr (copy_box form_parts ?mk (copy_pair Header_Clone clone_file_map))"
    by (intro ext)
      (simp add: cloneMultipartForm_def copy_ptr_def copy_box_def copy_pair_def form_parts_def Let_def split: prod.split option.split)
  show ?thesis
    unfolding c
    by (intro copies_ptr copies_box copies_pair Header_Clone_copies clone_file_map_copies kinds new_object)
qed

section \<open>A copy and its original\<close>

text \<open>
  \<open>independent A V f\<close>: the copy of an object has its value and nothing in common with it, so
  that whatever is written to one of them the other keeps its value.
\<close>

definition independent :: "(heap \<Rightarrow> nat \<Rightarrow> nat set) \<Rightarrow> (heap \<Rightarrow> nat \<Rightarrow> 'v) \<Rightarrow> (nat option \<Rightarrow> heap \<Rightarrow> nat option \<times> heap) \<Rightarrow> bool" where
  "independent A V f \<longleftrightarrow> (\<forall>h a. owned_in h (A h a) \<longrightarrow>
     (\<exists>b g. f (Some a) h = (Some b, g) \<and> take (length h) g = h \<and> V g b = V h a \<and> V g a = V h a \<and>
       (\<forall>c ob. (c \<in> A g b \<longrightarrow> V (g[c := ob]) a = V h a) \<and> (c \<in> A g a \<longrightarrow> V (g[c := ob]) b = V h a))))"

lemma copies_independent:
  assumes k: "object_kind A V" and f: "copies (ptr_addrs A) (ptr_value V) f"
  shows "independent A V f"
  unfolding independent_def
proof (intro allI impI)
  fix h :: heap and a
  assume own: "owned_in h (A h a)"
  then have "owned_in h (ptr_addrs A h (Some a))" by (simp add: ptr_addrs_def)
  then obtain y t where y: "f (Some a) h = (y, h @ t)" "\<And>c. c \<in> ptr_addrs A (h @ t) y \<Longrightarrow> length h \<le> c"
    "ptr_value V (h @ t) y = ptr_value V h (Some a)" using copiesE [OF f] by blast
  then obtain b where b: "y = Some b" "V (h @ t) b = V h a" by (auto simp: ptr_value_def)
  have new: "length h \<le> c" if "c \<in> A (h @ t) b" for c using y(2) that b(1) by (simp add: ptr_addrs_def)
  have old: "A (h @ t) a = A h a" "V (h @ t) a = V h a" using object_kind.grows [OF k own] by simp_all
  have less: "c < length h" if "c \<in> A (h @ t) a" for c using own that old(1) by (simp add: owned_in_def)
  show "\<exists>b g. f (Some a) h = (Some b, g) \<and> take (length h) g = h \<and> V g b = V h a \<and> V g a = V h a \<and>
      (\<forall>c ob. (c \<in> A g b \<longrightarrow> V (g[c := ob]) a = V h a) \<and> (c \<in> A g a \<longrightarrow> V (g[c := ob]) b = V h a))"
  proof (intro exI conjI allI impI)
    show "f (Some a) h = (Some b, h @ t)" using y(1) b(1) by simp
    show "take (length h) (h @ t) = h" by simp
    show "V (h @ t) b = V h a" by (rule b(2))
    show "V (h @ t) a = V h a" by (rule old(2))
    show "V ((h @ t)[c := ob]) a = V h a" if "c \<in> A (h @ t) b" for c ob
      using object_kind.written_elsewhere [OF k, of c "h @ t" a ob] new [OF that] less [of c] old(2) by (metis leD)
    show "V ((h @ t)[c := ob]) b = V h a" if "c \<in> A (h @ t) a" for c ob
      using object_kind.written_elsewhere [OF k, of c "h @ t" b ob] less [OF that] new [of c] b(2) by (metis leD)
  qed
qed

text \<open>
  Every deep copy of the package makes a new object with the value of the old one, and a later
  write to any part of either of them is not seen through the other; a nil pointer is copied
  to nil, or, where a header is asked for, to an empty one.
\<close>

theorem clones_independent:
  "independent header_addrs header_value cloneURLValues \<and> independent header_addrs header_value cloneOrMakeHeader \<and>
   independent url_addrs url_value cloneURL \<and> independent file_header_addrs file_header_value cloneMultipartFileHeader \<and>
   independent form_addrs form_value cloneMultipartForm \<and>
   cloneURLValues None h = (None, h) \<and> cloneURL None h = (None, h) \<and> cloneMultipartFileHeader None h = (None, h) \<and>
   cloneMultipartForm None h = (None, h) \<and> cloneOrMakeHeader None h = (Some (length h), h @ [OHeader []])"
proof (intro conjI)
  have hd: "independent header_addrs header_value Header_Clone"
    by (intro copies_independent Header_Clone_copies kinds)
  have "cloneURLValues = Header_Clone" by (intro ext) (simp add: cloneURLValues_def Header_Clone_def)
  then show "independent header_addrs header_value cloneURLValues" using hd by simp
  have "cloneOrMakeHeader (Some a) = Header_Clone (Some a)" for a
    by (intro ext) (simp add: cloneOrMakeHeader_def Header_Clone_def alloc_def split: prod.split)
  then show "independent header_addrs header_value cloneOrMakeHeader" using hd by (simp add: independent_def)
  show "independent url_addrs url_value cloneURL" by (intro copies_independent cloneURL_copies kinds)
  show "independent file_header_addrs file_header_value cloneMultipartFileHeader"
    by (intro copies_independent cloneMultipartFileHeader_copies kinds)
  show "independent form_addrs form_value cloneMultipartForm" by (intro copies_independent cloneMultipartForm_copies kinds)
qed (simp_all add: cloneURLValues_def cloneURL_def cloneMultipartFileHeader_def cloneMultipartForm_def cloneOrMakeHeader_def
    Header_Clone_def alloc_def)

end
