(* ===== verification/Sample.thy ===== *)
theory Sample
  imports Serve CallState
begin

text \<open>
  The sample server \<open>src/server_sample.go\<close>: a core that answers every call itself. It has its
  counters and its control of the gap between packets; what it does to the goroutine of a transaction
  and its pauses are a list in order. The response is one object that is changed between the
  writes; each write is recorded with the value it has then, which is what is sent as long as the
  pauses are longer than the transaction needs. The client sample is not modelled, as it
  calls constructors with arguments they do not have.
\<close>

record call_gap =
  gap_enable :: bool
  gap_duration :: int
  gap_last :: int
  gap_restrictedcall :: int

datatype sample_effect =
    SampleStart server_key
  | SampleWrite server_key message
  | SamplePause nat
  | SampleDestroy server_key

record sample = srv +
  sm_gap :: call_gap
  sm_stat :: "int \<times> int list"
  sm_out :: "sample_effect list"

definition sample_callGap :: "int \<Rightarrow> call_gap" where
  "sample_callGap now = \<lparr>gap_enable = False, gap_duration = 0, gap_last = now, gap_restrictedcall = 0\<rparr>"

definition sample_Increment :: "int \<Rightarrow> sample \<Rightarrow> sample run" where
  "sample_Increment response s =
     (let (completed, per) = sm_stat s
      in if response < 0 \<or> int (length per) \<le> response then Inl IndexOutOfRange
         else Inr (s\<lparr>sm_stat := (completed + 1, per[nat response := per ! nat response + 1])\<rparr>))"

definition sample_do :: "sample_effect \<Rightarrow> sample \<Rightarrow> sample" where
  "sample_do e s = s\<lparr>sm_out := sm_out s @ [e]\<rparr>"

text \<open>The tag of a response is that of its request: they share the To header, and the table has the request.\<close>

definition sample_tagged :: "server_key \<Rightarrow> message \<Rightarrow> sample \<Rightarrow> sample" where
  "sample_tagged k rep s =
     (case lookupServerTransaction k s of
        None \<Rightarrow> s
      | Some t \<Rightarrow> s\<lparr>sv_serverTransactions :=
          map_put k (t\<lparr>s_Request := share_To rep (s_Request t)\<rparr>) (sv_serverTransactions s)\<rparr>)"

definition myHandlerRedirect :: "string option \<Rightarrow> message \<Rightarrow> server_key \<Rightarrow> sample \<Rightarrow> (sample \<times> message) run" where
  "myHandlerRedirect rnd msg k s =
     bindR (GenerateResponseFromRequest msg) (\<lambda>rep0.
     bindR (AddToTag rnd rep0) (\<lambda>rep.
       (let r = rep\<lparr>m_StatusCode := 300, m_Header := hdr_Set (m_Header rep) ''Contact'' ''<sip:0312341234@example.com>''\<rparr>
        in bindR (sample_Increment 300
             (sample_do (SampleWrite k r) (sample_do (SamplePause 50) (sample_tagged k rep s))))
           (\<lambda>s'. Inr (s', share_To rep msg)))))"

definition myHandlerInvite :: "string option \<Rightarrow> message \<Rightarrow> server_key \<Rightarrow> sample \<Rightarrow> (sample \<times> message) run" where
  "myHandlerInvite rnd msg k s =
     bindR (GenerateResponseFromRequest msg) (\<lambda>rep0.
     bindR (AddToTag rnd (rep0\<lparr>m_StatusCode := 180\<rparr>)) (\<lambda>rep.
       (let s1 = sample_do (SampleWrite k rep) (sample_tagged k rep s);
            s2 = sample_do (SampleWrite k (rep\<lparr>m_StatusCode := 183\<rparr>)) (sample_do (SamplePause 1000) s1);
            s3 = sample_do (SampleWrite k (rep\<lparr>m_StatusCode := 200\<rparr>)) (sample_do (SamplePause 3000) s2)
        in bindR (sample_Increment 200 s3) (\<lambda>s'. Inr (s', share_To rep msg)))))"

text \<open>The refused transaction is destroyed, which takes the entry of its key from the table.\<close>

definition sample_refuse :: "server_key \<Rightarrow> sample \<Rightarrow> sample" where
  "sample_refuse k s = srv_DeleteServerTransaction k (sample_do (SampleDestroy k) s)"

definition myHandlerNonInvite :: "message \<Rightarrow> server_key \<Rightarrow> server_txn \<Rightarrow> sample \<Rightarrow> (sample \<times> protocol_error option) run" where
  "myHandlerNonInvite msg k t s =
     (if m_Request msg \<and> m_Method msg = ''ACK'' then Inr (s, None)
      else (case AddServerTransaction k t s of
          (Some e, s1) \<Rightarrow> Inr (sample_refuse k s1, Some e)
        | (None, s1) \<Rightarrow>
            bindR (GenerateResponseFromRequest msg) (\<lambda>rep.
              Inr (sample_do (SampleWrite k (rep\<lparr>m_StatusCode := 200\<rparr>)) s1, None))))"

definition mySipCoreHandler :: "string option \<Rightarrow> layer \<Rightarrow> sample \<times> message \<Rightarrow> ((sample \<times> message) \<times> protocol_error option) run" where
  "mySipCoreHandler rnd l x =
     (let (s, msg) = x in
      if l \<noteq> LayerCore \<or> \<not> m_Request msg then Inr (x, None)
      else bindR (GenerateServerTransactionKey msg) (\<lambda>r.
        case r of
          Inl e \<Rightarrow> Inr (x, Some e)
        | Inr k \<Rightarrow>
            (let s0 = sample_do (SampleStart k) s in
             if m_Method msg = ''INVITE'' then
               (case AddServerTransaction k (NewServerInviteTransaction k msg) s0 of
                  (Some e, s1) \<Rightarrow> Inr ((sample_refuse k s1, msg), Some e)
                | (None, s1) \<Rightarrow>
                    bindR (if m_RemoteAddr msg = ''127.0.0.1:5062'' then myHandlerRedirect rnd msg k s1
                           else myHandlerInvite rnd msg k s1) (\<lambda>y. Inr (y, None)))
             else bindR (myHandlerNonInvite msg k (NewServerNonInviteTransaction k msg) s0)
                    (\<lambda>(s1, e). Inr ((s1, msg), e)))))"

text \<open>
  The gap control: a packet that comes too early is refused. Ingress only writes to the log, and
  the error is \<open>ErrServerClosed\<close>.
\<close>

definition myHandler :: "int \<Rightarrow> layer \<Rightarrow> sample \<times> message \<Rightarrow> (sample \<times> message) \<times> string option" where
  "myHandler now l x =
     (let (s, msg) = x; g = sm_gap s in
      if l = LayerSocket \<and> gap_enable g then
        (if gap_duration g \<ge> now - gap_last g
         then ((s\<lparr>sm_gap := g\<lparr>gap_restrictedcall := gap_restrictedcall g + 1\<rparr>\<rparr>, msg), Some ''sip: Server closed'')
         else ((s\<lparr>sm_gap := g\<lparr>gap_last := now\<rparr>\<rparr>, msg), None))
      else (x, None))"

section \<open>What a caller gets\<close>

text \<open>
  A call is answered with 180, 183 and 200, a second and three seconds apart, which differ in
  nothing but the code and have a tag, and it is counted once.
\<close>

lemma AddToTag_code:
  "AddToTag rnd (r\<lparr>m_StatusCode := c\<rparr>) = (case AddToTag rnd r of Inl e \<Rightarrow> Inl e | Inr q \<Rightarrow> Inr (q\<lparr>m_StatusCode := c\<rparr>))"
  by (cases "m_To r") (simp_all add: AddToTag_def bindR_def deref_def)

theorem sample_invite_answered:
  assumes "m_Request m" and "m_Method m = ''INVITE''" and "m_RemoteAddr m \<noteq> ''127.0.0.1:5062''"
    and "GenerateServerTransactionKey m = Inr (Inr k)" and "lookupServerTransaction k s = None"
    and "GenerateResponseFromRequest m = Inr rep0" and "AddToTag rnd rep0 = Inr rep" and "length (snd (sm_stat s)) = 700"
  obtains s' where "mySipCoreHandler rnd LayerCore (s, m) = Inr ((s', share_To rep m), None)"
    and "sm_out s' = sm_out s @ [SampleStart k, SampleWrite k (rep\<lparr>m_StatusCode := 180\<rparr>), SamplePause 1000,
          SampleWrite k (rep\<lparr>m_StatusCode := 183\<rparr>), SamplePause 3000, SampleWrite k (rep\<lparr>m_StatusCode := 200\<rparr>)]"
    and "fst (sm_stat s') = fst (sm_stat s) + 1"
    and "map_option (\<lambda>t. m_To (s_Request t)) (lookupServerTransaction k s') = Some (m_To rep)"
proof -
  let ?t = "NewServerInviteTransaction k m"
  let ?s1 = "s\<lparr>sm_out := sm_out s @ [SampleStart k], sv_serverTransactions := map_put k ?t (Some (made (sv_serverTransactions s)))\<rparr>"
  have a: "AddServerTransaction k ?t (sample_do (SampleStart k) s) = (None, ?s1)"
    using assms(5) by (simp add: AddServerTransaction_def lookupServerTransaction_def sample_do_def)
  have l: "lookupServerTransaction k ?s1 = Some ?t" by (simp add: lookupServerTransaction_def)
  let ?r = "\<lambda>c. rep\<lparr>m_StatusCode := c\<rparr>"
  let ?m2 = "map_put k (?t\<lparr>s_Request := share_To (?r 180) m\<rparr>) (sv_serverTransactions ?s1)"
  have tag: "sample_tagged k (?r 180) ?s1 = ?s1\<lparr>sv_serverTransactions := ?m2\<rparr>"
    unfolding sample_tagged_def l by (simp add: NewServerInviteTransaction_def newServerTransaction_def)
  obtain n per where st: "sm_stat s = (n, per)" "length per = 700" using assms(8) by (cases "sm_stat s") simp
  let ?s2 = "?s1\<lparr>sv_serverTransactions := ?m2, sm_out := sm_out s @ [SampleStart k, SampleWrite k (?r 180), SamplePause 1000,
      SampleWrite k (?r 183), SamplePause 3000, SampleWrite k (?r 200)], sm_stat := (n + 1, per[200 := per ! 200 + 1])\<rparr>"
  have "myHandlerInvite rnd m k ?s1 = Inr (?s2, share_To rep m)"
    using st assms(6,7)
    by (simp add: myHandlerInvite_def AddToTag_code tag sample_do_def sample_Increment_def Let_def) (simp add: share_To_def)
  then have "mySipCoreHandler rnd LayerCore (s, m) = Inr ((?s2, share_To rep m), None)"
    using assms(1-4) a by (simp add: mySipCoreHandler_def)
  moreover have "map_option (\<lambda>t. m_To (s_Request t)) (lookupServerTransaction k ?s2) = Some (m_To rep)"
    by (simp add: lookupServerTransaction_def share_To_def)
  ultimately show ?thesis using st by (intro that [of ?s2]) simp_all
qed

end
