(* ===== verification/Spec2Isabelle.thy ===== *)
theory Spec2Isabelle
  imports Uri_Props Header_Props Message_Props Txn_Props Server_Props Routing_Props Auth_Props
    Registration_Props Proxy_Props Proxy_Run_Props TextReader_Props Basic_Auth Serve_Props Proxy_Main_Props
    Clone_Props Sample
begin

text \<open>
  A verification development of tjsip, a SIP stack (\<open>src/sip\<close>) and the stateful SIP proxy
  built on it (\<open>src/proxy_*.go\<close>), both written in Go.

  The program. A UDP packet is read into a message (\<open>reader.go\<close>, \<open>message.go\<close>, \<open>header.go\<close>,
  \<open>uri.go\<close>). Its transaction key, made of the topmost Via and the CSeq, selects a transaction
  of the server (\<open>server.go\<close>), whose controller goroutine (\<open>transaction.go\<close>) runs the state
  machine of RFC 3261 with its retransmission timers; a message without a transaction goes to
  the core. The core of the proxy (\<open>proxy_core.go\<close>, \<open>proxy_request_controller.go\<close>,
  \<open>proxy_response_controller.go\<close>) forwards a request over a new client transaction, which it
  binds to the server transaction in the table of response contexts, guards it with timer C,
  and sends the responses back. It routes by the bindings of the registrar
  (\<open>proxy_registration.go\<close>) and by a table of number prefixes (\<open>proxy_routing.go\<close>), and keeps
  records of calls (\<open>proxy_server.go\<close>); \<open>proxy_auth.go\<close> checks digests. \<open>main\<close> loads the tables and
  registers the handlers of the proxy with the server.

  Library.
  \<^item> \<open>Sip_Prelude\<close>: bytes and strings as lists of characters, the functions of package
    \<open>strings\<close> and \<open>strconv\<close> that the code calls, 64-bit wrap-around (\<open>wrap64\<close>), the result
    type \<open>panic + 'a\<close> with \<open>bindR\<close> for code that can panic, and multimaps (\<open>kvs\<close>) for
    \<open>url.Values\<close> and \<open>http.Header\<close>.
  \<^item> \<open>Tables\<close>: the locales of keyed tables, one in which an addition overwrites and one in which
    it is refused, with the theorem what a lookup returns after any history; they are
    interpreted by the two transaction tables (\<open>Server\<close>) and the table of timer C
    (\<open>RespCtx\<close>). The locale \<open>retransmission\<close> of \<open>Transaction\<close> is interpreted by timers A/B, E/F
    and G/H.

  Messages.
  \<^item> \<open>Escape\<close>, \<open>Uri\<close> (\<open>uri.go\<close>): percent-encoding in all modes, parsing, printing, queries,
    path resolution. \<open>Uri_Props\<close>: escape and unescape invert each other, a printed URI is
    parsed back, resolved paths have no dot segments.
  \<^item> \<open>HeaderKey\<close>, \<open>Headers\<close> (\<open>header.go\<close>, \<open>helper.go\<close>): canonical names, To, From, Via, CSeq, Call-ID,
    Max-Forwards, Contact. \<open>Header_Facts\<close>, \<open>Header_Props\<close>: round trips of every header, the Via
    list as a stack, wrap-around of CSeq and Max-Forwards, the inputs that panic.
  \<^item> \<open>Reader\<close> (\<open>reader.go\<close>): lines, continued lines and the header section, as functions from the
    bytes that are left; what \<open>bufio\<close> has buffered is an argument. \<open>TextReader\<close>,
    \<open>TextReader_Props\<close>: the reply-code and dot-encoding readers of the same file; a dot-encoded
    block is read back. \<open>Basic_Auth\<close>: the basic credentials of \<open>message.go\<close>, with base64.
  \<^item> \<open>Message\<close> (\<open>message.go\<close>, \<open>status.go\<close>): the message record, its constructors, reading and
    writing it, and the responses, CANCEL and ACK made from a request. \<open>Message_Type\<close>: what every
    message that was read satisfies. \<open>Message_Facts\<close>, \<open>Message_Props\<close>: what is written is read back.

  Transactions.
  \<^item> \<open>Transaction\<close>, \<open>ClientTxn\<close>, \<open>ServerTxn\<close> (\<open>transaction.go\<close>): keys, timers and the two
    controllers. The program counter of a controller goroutine is a field of the record; an
    event is what its select takes; \<open>client_enabled d ev\<close> says that the event can be the next one
    after \<open>d\<close> milliseconds, a blocked goroutine is one without an enabled event, and
    \<open>client_run\<close> is the step. \<open>ClientTxn_Facts\<close>, \<open>ClientTxn_End\<close>, \<open>ServerTxn_Facts\<close>, \<open>Txn_Props\<close>:
    the schedules of all retransmissions in milliseconds, the invariants and the absence of
    panics, termination, and the races and deadlocks there are.
  \<^item> \<open>Server\<close> (\<open>server.go\<close>): tables, handlers, arriving packets, sending. A handler is a
    function on a world that extends the server. \<open>Server_Props\<close>: the tables after any history,
    retransmissions are the same bytes, a response reaches the transaction of its request.
    \<open>Serve\<close>, \<open>Serve_Props\<close>: the accept loop over the results of the socket, in closed form, and
    the log by levels.
  \<^item> \<open>Clone\<close>, \<open>Clone_Props\<close> (\<open>clone.go\<close>): the deep copies on an explicit heap; a copy has the value of
    its original and nothing in common with it, by the locale \<open>object_kind\<close>, which is
    interpreted by headers, URLs and forms.

  The proxy.
  \<^item> \<open>Routing\<close>, \<open>Routing_Props\<close>: the prefix trie refines a table of prefixes with longest match; its
    dump lists what was loaded.
  \<^item> \<open>RespCtx\<close>: the two tables of response contexts and the channels of timer C, with the
    invariant that the two directions agree.
  \<^item> \<open>CallState\<close>: records of calls and their table.
  \<^item> \<open>Registration\<close>, \<open>Registration_Props\<close>: the registrar over any SQL database that keeps the laws
    of its statements; a list of rows is shown to keep them. A registration refines the change
    of a table of bindings, or changes nothing.
  \<^item> \<open>Auth\<close>, \<open>Auth_Props\<close>: the import of users, the digest header and its check.
  \<^item> \<open>Proxy\<close>: every handler of requests and responses, on one record that extends the server with
    the global variables. What a handler does to other goroutines is a list of effects, in
    order. \<open>Proxy_Facts\<close>, \<open>Proxy_Props\<close>: where an INVITE and its responses go, who answers when
    branches end, and the requests the proxy does not survive.
  \<^item> \<open>Proxy_Run\<close>, \<open>Proxy_Run_Props\<close>: the proxy as a system of events in any order (messages,
    failures, timers, changes of the transaction tables); \<open>proxy_reach\<close> are the states it can
    reach when new transactions get unused keys. In all of them the tables of branches agree and
    the channels of timer C are closed at most once; a final response is passed on once; a CANCEL
    reaches every branch.
  \<^item> \<open>Proxy_Main\<close>, \<open>Proxy_Main_Props\<close>: \<open>main\<close>, that is, environment, databases, files and the registration
    of the handlers of \<open>Proxy\<close> in the table of \<open>Server\<close>. The two together: the packet of a
    request is handled once by the proxy, and the same bytes again go to the transaction that the
    first packet left. The users that \<open>main\<close> imports are expired, and with that their passwords
    are of no use.
  \<^item> \<open>Sample\<close> (\<open>server_sample.go\<close>): a core that answers every call itself, and what a caller gets
    from it.

  Conventions and bounds. Go 1.15 is assumed (the semicolon separates queries). Letter case is that of
  ASCII. A map is an association list and its order of iteration the order of the list. Random
  bytes, the time, the buffer, name resolution, the socket, the CSV records, MD5, IDNA, the SQL
  database and \<open>ParseFloat\<close> are arguments. Times of transactions are in milliseconds; there is no fuel: every
  function is structurally recursive or has a termination proof. A handler runs as one step,
  so that races are expressed by the order of steps and by the state a step starts from; mutexes
  are explicit only where a lock is taken twice (\<open>server_Handle\<close>). A nil entry of a list of
  contacts is a flag or an option. A tag that is added to the To header which a response shares with its request
  is written back to the stored request or provisional response only.

  Not modelled: the UDP socket, the files and the engines behind the databases (they answer as
  arguments); the goroutine of \<open>main\<close> that logs the counters; the calls of the log inside of
  other functions; the sample client, which does not compile with the package.
\<close>

end
